(* ===== verification/Sch_Prelude.thy ===== *)
theory Sch_Prelude
  imports Main "HOL-Library.Sublist" "HOL-Library.Code_Target_Numeral"
begin

text \<open>
  Shared foundations of the sch-audit development: two collections of facts, generic list
  lemmas, and two interfaces. \<open>latest_scan\<close> is the loop that keeps the latest selected
  element, the shape of \<open>latestEventWithReason\<close> in \<open>controllers/decision.go\<close>; \<open>wire_codec\<close>
  is a value that one binary writes as a string and another one reads, as with the expiry label
  and the message of a CandidateNodes Event.
\<close>

named_theorems time_bounds "what it means for a time or a 64-bit integer to be representable"
named_theorems sample_defs "the concrete objects on which properties are instantiated"

text \<open>A fallible Go call: \<open>Inl\<close> is a non-nil error, \<open>Inr\<close> the value with a nil error.\<close>

type_synonym ('e, 'a) result = "'e + 'a"

section \<open>Lists\<close>

lemma in_set_map_filter: "y \<in> set (List.map_filter f xs) \<longleftrightarrow> (\<exists>x\<in>set xs. f x = Some y)"
  by (induction xs) (auto simp: map_filter_simps split: option.split)

section \<open>Scans that keep the latest selected element\<close>

text \<open>
  The specification: \<open>m\<close> is the first selected element of the list whose key no selected
  element exceeds.
\<close>

definition first_maximal :: "('a \<Rightarrow> 'k::linorder) \<Rightarrow> ('a \<Rightarrow> bool) \<Rightarrow> 'a \<Rightarrow> 'a list \<Rightarrow> bool" where
  "first_maximal key sel m xs \<longleftrightarrow> (\<exists>as bs. xs = as @ m # bs \<and> sel m \<and>
     (\<forall>x\<in>set as. sel x \<longrightarrow> key x < key m) \<and> (\<forall>x\<in>set bs. sel x \<longrightarrow> key x \<le> key m))"

lemma first_maximal_singleton: "first_maximal key sel m [m] \<longleftrightarrow> sel m"
  by (auto simp: first_maximal_def Cons_eq_append_conv)

lemma first_maximal_skip: "\<not> sel x \<Longrightarrow> first_maximal key sel m xs \<Longrightarrow> first_maximal key sel m (x # xs)"
  unfolding first_maximal_def by (metis append_Cons set_ConsD)

lemma first_maximal_Cons_less:
  assumes "key x < key y" and "sel y" and "first_maximal key sel m (y # ys)"
  shows "first_maximal key sel m (x # y # ys)"
proof -
  from assms(3) obtain as bs where split: "y # ys = as @ m # bs" and m: "sel m"
    and as: "\<forall>z\<in>set as. sel z \<longrightarrow> key z < key m" and bs: "\<forall>z\<in>set bs. sel z \<longrightarrow> key z \<le> key m"
    by (auto simp: first_maximal_def)
  have "key y \<le> key m"
    using split as assms(2) by (cases as) (auto dest: less_imp_le)
  with assms(1) as have "\<forall>z\<in>set (x # as). sel z \<longrightarrow> key z < key m" by auto
  moreover from split have "x # y # ys = (x # as) @ m # bs" by simp
  ultimately show ?thesis using m bs unfolding first_maximal_def by blast
qed

lemma first_maximal_insert:
  assumes "sel x \<longrightarrow> key x \<le> key y" and "sel y" and "first_maximal key sel m (y # ys)"
  shows "first_maximal key sel m (y # x # ys)"
proof -
  from assms(3) obtain as bs where split: "y # ys = as @ m # bs" and m: "sel m"
    and as: "\<forall>z\<in>set as. sel z \<longrightarrow> key z < key m" and bs: "\<forall>z\<in>set bs. sel z \<longrightarrow> key z \<le> key m"
    by (auto simp: first_maximal_def)
  show ?thesis
  proof (cases as)
    case Nil
    with split m bs assms(1) show ?thesis
      unfolding first_maximal_def by (intro exI [of _ "[]"] exI [of _ "x # ys"]) auto
  next
    case (Cons a as')
    with split m as bs assms(1,2) show ?thesis
      unfolding first_maximal_def
      by (intro exI [of _ "y # x # as'"] exI [of _ bs]) auto
  qed
qed

lemma first_maximal_max: "first_maximal key sel m xs \<Longrightarrow> x \<in> set xs \<Longrightarrow> sel x \<Longrightarrow> key x \<le> key m"
  unfolding first_maximal_def
  by (elim exE conjE) (simp, metis less_imp_le order_refl)

lemma first_maximal_unique:
  assumes "first_maximal key sel m xs" and "first_maximal key sel m' xs"
  shows "m = m'"
proof -
  obtain as bs cs ds where xs: "xs = as @ m # bs" "as @ m # bs = cs @ m' # ds"
    and sel: "sel m" "sel m'"
    and l: "\<forall>x\<in>set as. sel x \<longrightarrow> key x < key m" "\<forall>x\<in>set bs. sel x \<longrightarrow> key x \<le> key m"
    and r: "\<forall>x\<in>set cs. sel x \<longrightarrow> key x < key m'" "\<forall>x\<in>set ds. sel x \<longrightarrow> key x \<le> key m'"
    using assms unfolding first_maximal_def by blast
  from xs(2) sel l r show ?thesis
    by (fastforce simp: append_eq_append_conv2 Cons_eq_append_conv append_eq_Cons_conv)
qed

text \<open>
  The contract of a left-to-right scan with an accumulator that replaces the kept element only
  by a selected one with a strictly greater key.
\<close>

locale latest_scan =
  fixes key :: "'a \<Rightarrow> 'k::linorder"
    and sel :: "'a \<Rightarrow> bool"
    and scan :: "'a option \<Rightarrow> 'a list \<Rightarrow> 'a option"
  assumes scan_Nil: "scan acc [] = acc"
    and scan_skip: "\<not> sel x \<Longrightarrow> scan acc (x # xs) = scan acc xs"
    and scan_first: "sel x \<Longrightarrow> scan None (x # xs) = scan (Some x) xs"
    and scan_later: "sel x \<Longrightarrow> key m < key x \<Longrightarrow> scan (Some m) (x # xs) = scan (Some x) xs"
    and scan_keep: "sel x \<Longrightarrow> \<not> key m < key x \<Longrightarrow> scan (Some m) (x # xs) = scan (Some m) xs"
begin

lemma scan_Some_total: "scan (Some m) xs \<noteq> None"
proof (induction xs arbitrary: m)
  case Nil
  then show ?case by (simp add: scan_Nil)
next
  case (Cons x xs)
  then show ?case
    by (cases "sel x"; cases "key m < key x") (simp_all add: scan_later scan_keep scan_skip)
qed

lemma scan_None_iff: "scan None xs = None \<longleftrightarrow> (\<forall>x\<in>set xs. \<not> sel x)"
proof (induction xs)
  case Nil
  then show ?case by (simp add: scan_Nil)
next
  case (Cons x xs)
  then show ?case
    by (cases "sel x") (simp_all add: scan_first scan_skip scan_Some_total)
qed

lemma scan_Some_first_maximal:
  "sel m \<Longrightarrow> scan (Some m) xs = Some m' \<Longrightarrow> first_maximal key sel m' (m # xs)"
proof (induction xs arbitrary: m)
  case Nil
  then show ?case by (simp add: scan_Nil first_maximal_singleton)
next
  case (Cons x xs)
  show ?case
  proof (cases "sel x \<and> key m < key x")
    case True
    with Cons.prems have "first_maximal key sel m' (x # xs)"
      by (intro Cons.IH) (simp_all add: scan_later)
    with True show ?thesis by (simp add: first_maximal_Cons_less)
  next
    case False
    with Cons.prems have "scan (Some m) xs = Some m'"
      by (cases "sel x") (simp_all add: scan_keep scan_skip)
    with Cons have "first_maximal key sel m' (m # xs)" by simp
    with False Cons.prems(1) show ?thesis by (intro first_maximal_insert) auto
  qed
qed

lemma scan_first_maximal: "scan None xs = Some m \<Longrightarrow> first_maximal key sel m xs"
proof (induction xs)
  case Nil
  then show ?case by (simp add: scan_Nil)
next
  case (Cons x xs)
  then show ?case
    by (cases "sel x")
      (simp_all add: scan_first scan_skip scan_Some_first_maximal first_maximal_skip)
qed

lemma scan_in: "scan None xs = Some m \<Longrightarrow> m \<in> set xs \<and> sel m"
  by (drule scan_first_maximal) (auto simp: first_maximal_def)

lemma scan_max: "scan None xs = Some m \<Longrightarrow> x \<in> set xs \<Longrightarrow> sel x \<Longrightarrow> key x \<le> key m"
  by (drule scan_first_maximal) (erule (2) first_maximal_max)

end

section \<open>Values passed between binaries as strings\<close>

text \<open>
  One binary writes a value into a label or an Event message, another reads it back: on valid
  values the reader undoes the writer.
\<close>

locale wire_codec =
  fixes enc :: "'a \<Rightarrow> string"
    and dec :: "string \<Rightarrow> ('e, 'a) result"
    and valid :: "'a \<Rightarrow> bool"
  assumes dec_enc: "valid x \<Longrightarrow> dec (enc x) = Inr x"
begin

lemma enc_inj: "inj_on enc (Collect valid)"
  by (rule inj_onI) (metis dec_enc mem_Collect_eq sum.inject(2))

lemma dec_enc_iff: "valid x \<Longrightarrow> valid y \<Longrightarrow> dec (enc x) = Inr y \<longleftrightarrow> x = y"
  by (auto simp: dec_enc)

end

end
