(* ===== verification/Go_Strings.thy ===== *)
theory Go_Strings
  imports Sch_Prelude "HOL-Library.Sublist"
begin

text \<open>
  The part of Go's \<open>strings\<close> and \<open>strconv\<close> packages the program uses. Go strings are
  byte sequences, so they are \<open>string\<close> (a list of 8-bit characters): \<open>strings.Join\<close>,
  \<open>strings.Split\<close> with a one-byte separator, \<open>strings.TrimSpace\<close> on UTF-8 bytes,
  \<open>strconv.FormatInt\<close> in base 10 and \<open>strconv.ParseInt\<close> with base 10 and bit size 64.
  The main facts are the round trips split/join and parse/format.
\<close>

section \<open>strings.Join, strings.Split\<close>

fun str_join :: "string \<Rightarrow> string list \<Rightarrow> string" where
  "str_join sep [] = []"
| "str_join sep [x] = x"
| "str_join sep (x # y # ys) = x @ sep @ str_join sep (y # ys)"

fun str_split :: "char \<Rightarrow> string \<Rightarrow> string list" where
  "str_split c [] = [[]]"
| "str_split c (x # xs) =
     (if x = c then [] # str_split c xs
      else (case str_split c xs of [] \<Rightarrow> [[x]] | y # ys \<Rightarrow> (x # y) # ys))"

section \<open>strings.TrimSpace\<close>

text \<open>
  The UTF-8 encodings of the runes for which \<open>unicode.IsSpace\<close> holds: the ASCII spaces,
  U+0085, U+00A0, U+1680, U+2000 to U+200A, U+2028, U+2029, U+202F, U+205F and U+3000.
\<close>

definition space_runes :: "string list" where
  "space_runes =
     [[CHR 0x09], [CHR 0x0A], [CHR 0x0B], [CHR 0x0C], [CHR 0x0D], [CHR 0x20],
      [CHR 0xC2, CHR 0x85], [CHR 0xC2, CHR 0xA0], [CHR 0xE1, CHR 0x9A, CHR 0x80],
      [CHR 0xE2, CHR 0x80, CHR 0x80], [CHR 0xE2, CHR 0x80, CHR 0x81],
      [CHR 0xE2, CHR 0x80, CHR 0x82], [CHR 0xE2, CHR 0x80, CHR 0x83],
      [CHR 0xE2, CHR 0x80, CHR 0x84], [CHR 0xE2, CHR 0x80, CHR 0x85],
      [CHR 0xE2, CHR 0x80, CHR 0x86], [CHR 0xE2, CHR 0x80, CHR 0x87],
      [CHR 0xE2, CHR 0x80, CHR 0x88], [CHR 0xE2, CHR 0x80, CHR 0x89],
      [CHR 0xE2, CHR 0x80, CHR 0x8A], [CHR 0xE2, CHR 0x80, CHR 0xA8],
      [CHR 0xE2, CHR 0x80, CHR 0xA9], [CHR 0xE2, CHR 0x80, CHR 0xAF],
      [CHR 0xE2, CHR 0x81, CHR 0x9F], [CHR 0xE3, CHR 0x80, CHR 0x80]]"

text \<open>Strip leading occurrences of the given byte sequences, as long as one matches.\<close>

function strip_left :: "string list \<Rightarrow> string \<Rightarrow> string" where
  "strip_left ps s =
     (case find (\<lambda>p. p \<noteq> [] \<and> prefix p s) ps of
        None \<Rightarrow> s
      | Some p \<Rightarrow> strip_left ps (drop (length p) s))"
  by pat_completeness auto
termination
proof (relation "measure (\<lambda>(ps, s). length s)", goal_cases)
  case (2 ps s p)
  then have "p \<noteq> []" and "prefix p s" by (auto simp: find_Some_iff)
  then show ?case by (auto simp: prefix_def)
qed simp

declare strip_left.simps [simp del]

definition strip_right :: "string list \<Rightarrow> string \<Rightarrow> string" where
  "strip_right ps s = rev (strip_left (map rev ps) (rev s))"

definition trim_space :: "string \<Rightarrow> string" where
  "trim_space s = strip_right space_runes (strip_left space_runes s)"

section \<open>strconv.FormatInt, strconv.ParseInt\<close>

definition digit_char :: "nat \<Rightarrow> char" where
  "digit_char d = char_of (48 + d)"

definition is_digit :: "char \<Rightarrow> bool" where
  "is_digit c \<longleftrightarrow> 48 \<le> (of_char c :: nat) \<and> (of_char c :: nat) \<le> 57"

definition digit_val :: "char \<Rightarrow> nat" where
  "digit_val c = of_char c - 48"

fun format_nat :: "nat \<Rightarrow> string" where
  "format_nat n =
     (if n < 10 then [digit_char n] else format_nat (n div 10) @ [digit_char (n mod 10)])"

declare format_nat.simps [simp del]

definition format_int :: "int \<Rightarrow> string" where
  "format_int i = (if i < 0 then CHR ''-'' # format_nat (nat (- i)) else format_nat (nat i))"

datatype num_error = ErrSyntax | ErrRange

definition max_uint64 :: nat where
  "max_uint64 = 18446744073709551615"

text \<open>The digit loop of \<open>ParseUint\<close>: a non-digit stops it before the range check of its place.\<close>

fun parse_digits :: "nat \<Rightarrow> string \<Rightarrow> (num_error, nat) result" where
  "parse_digits n [] = Inr n"
| "parse_digits n (c # cs) =
     (if \<not> is_digit c then Inl ErrSyntax
      else let m = 10 * n + digit_val c
           in if m > max_uint64 then Inl ErrRange else parse_digits m cs)"

definition parse_uint :: "string \<Rightarrow> (num_error, nat) result" where
  "parse_uint s = (if s = [] then Inl ErrSyntax else parse_digits 0 s)"

text \<open>
  \<open>ParseInt\<close>: an optional sign, then the unsigned number; a range error of the unsigned
  parser leaves its largest value, which is out of range for both signs.
\<close>

definition parse_int :: "string \<Rightarrow> (num_error, int) result" where
  "parse_int s =
     (case s of
        [] \<Rightarrow> Inl ErrSyntax
      | c # cs \<Rightarrow>
          (let neg = (c = CHR ''-''); body = (if c = CHR ''+'' \<or> c = CHR ''-'' then cs else s)
           in case parse_uint body of
                Inl e \<Rightarrow> Inl e
              | Inr un \<Rightarrow>
                  if \<not> neg \<and> 9223372036854775808 \<le> un then Inl ErrRange
                  else if neg \<and> 9223372036854775808 < un then Inl ErrRange
                  else Inr (if neg then - int un else int un)))"

section \<open>Round trips\<close>

lemma str_split_not_Nil [simp]: "str_split c s \<noteq> []"
  by (induction s) (auto split: list.splits)

lemma str_split_append:
  "c \<notin> set x \<Longrightarrow> str_split c (x @ c # s) = x # str_split c s"
  by (induction x) auto

lemma str_split_no_sep: "c \<notin> set x \<Longrightarrow> str_split c x = [x]"
  by (induction x) auto

lemma str_split_join:
  "xs \<noteq> [] \<Longrightarrow> \<forall>x\<in>set xs. c \<notin> set x \<Longrightarrow> str_split c (str_join [c] xs) = xs"
  by (induction "[c]" xs rule: str_join.induct) (auto simp: str_split_append str_split_no_sep)

lemma str_join_split: "str_join [c] (str_split c s) = s"
proof (induction s)
  case Nil
  then show ?case by simp
next
  case (Cons x xs)
  obtain y ys where "str_split c xs = y # ys" by (cases "str_split c xs") auto
  with Cons show ?case by (cases ys) auto
qed

lemma str_join_eq_Nil: "str_join [c] xs = [] \<longleftrightarrow> xs = [] \<or> xs = [[]]"
  by (induction "[c]" xs rule: str_join.induct) auto

lemma strip_left_id: "\<forall>p\<in>set ps. p \<noteq> [] \<longrightarrow> \<not> prefix p s \<Longrightarrow> strip_left ps s = s"
proof -
  assume "\<forall>p\<in>set ps. p \<noteq> [] \<longrightarrow> \<not> prefix p s"
  then have "find (\<lambda>p. p \<noteq> [] \<and> prefix p s) ps = None" by (auto simp: find_None_iff)
  then show ?thesis by (subst strip_left.simps) simp
qed

text \<open>Printable ASCII without the space: the bytes of every Kubernetes object name.\<close>

definition graphic :: "char \<Rightarrow> bool" where
  "graphic c \<longleftrightarrow> 33 \<le> (of_char c :: nat) \<and> (of_char c :: nat) \<le> 126"

lemma space_runes_not_graphic: "p \<in> set space_runes \<Longrightarrow> p \<noteq> [] \<and> (\<forall>c\<in>set p. \<not> graphic c)"
  by (auto simp: space_runes_def graphic_def)

lemma strip_left_graphic:
  assumes "\<forall>c\<in>set s. graphic c" and "\<forall>p\<in>set ps. p \<noteq> [] \<and> (\<forall>c\<in>set p. \<not> graphic c)"
  shows "strip_left ps s = s"
proof (rule strip_left_id, intro ballI impI notI)
  fix p assume p: "p \<in> set ps" "p \<noteq> []" "prefix p s"
  then have "hd p \<in> set s" by (auto simp: prefix_def hd_append)
  with assms p show False by (metis hd_in_set)
qed

lemma trim_space_graphic: "\<forall>c\<in>set s. graphic c \<Longrightarrow> trim_space s = s"
  unfolding trim_space_def strip_right_def
  using space_runes_not_graphic by (simp add: strip_left_graphic)

lemma of_char_digit_char: "d < 10 \<Longrightarrow> (of_char (digit_char d) :: nat) = 48 + d"
  by (simp add: digit_char_def)

lemma is_digit_digit_char [simp]: "d < 10 \<Longrightarrow> is_digit (digit_char d)"
  by (simp add: is_digit_def of_char_digit_char)

lemma digit_val_digit_char [simp]: "d < 10 \<Longrightarrow> digit_val (digit_char d) = d"
  by (simp add: digit_val_def of_char_digit_char)

lemma parse_digits_snoc:
  "parse_digits n (cs @ [c]) =
     (case parse_digits n cs of Inl e \<Rightarrow> Inl e | Inr m \<Rightarrow> parse_digits m [c])"
  by (induction cs arbitrary: n) (auto simp: Let_def)

lemma parse_digits_format_nat: "n \<le> max_uint64 \<Longrightarrow> parse_digits 0 (format_nat n) = Inr n"
proof (induction n rule: format_nat.induct)
  case (1 n)
  show ?case
  proof (cases "n < 10")
    case True
    then show ?thesis by (simp add: format_nat.simps [of n] max_uint64_def)
  next
    case False
    with 1 have "parse_digits 0 (format_nat (n div 10)) = Inr (n div 10)" by simp
    with False 1(2) show ?thesis
      by (simp add: format_nat.simps [of n] parse_digits_snoc)
  qed
qed

lemma format_nat_not_Nil [simp]: "format_nat n \<noteq> []"
  by (subst format_nat.simps) simp

lemma format_nat_digits: "\<forall>c\<in>set (format_nat n). is_digit c"
proof (induction n rule: format_nat.induct)
  case (1 n)
  then show ?case by (subst format_nat.simps) auto
qed

lemma parse_uint_format_nat: "n \<le> max_uint64 \<Longrightarrow> parse_uint (format_nat n) = Inr n"
  by (simp add: parse_uint_def parse_digits_format_nat)

lemma format_nat_unsigned: "format_nat n = c # cs \<Longrightarrow> c \<noteq> CHR ''+'' \<and> c \<noteq> CHR ''-''"
  using format_nat_digits [of n] by (auto simp: is_digit_def)

theorem parse_int_format_int:
  assumes "- 9223372036854775808 \<le> i" and "i \<le> 9223372036854775807"
  shows "parse_int (format_int i) = Inr i"
proof (cases "i < 0")
  case True
  with assms have "nat (- i) \<le> 9223372036854775808" by simp
  with True show ?thesis
    by (simp add: format_int_def parse_int_def parse_uint_format_nat max_uint64_def Let_def)
next
  case False
  obtain c cs where cs: "format_nat (nat i) = c # cs" by (cases "format_nat (nat i)") auto
  from False assms have "nat i \<le> max_uint64" by (simp add: max_uint64_def)
  then have "parse_uint (c # cs) = Inr (nat i)" by (simp flip: cs add: parse_uint_format_nat)
  with False assms format_nat_unsigned [OF cs] show ?thesis
    by (simp add: format_int_def parse_int_def cs Let_def nat_le_iff)
qed

end
