(* ===== verification/Go_Time.thy ===== *)
theory Go_Time
  imports Sch_Prelude "HOL-Library.Word" "HOL-Library.Signed_Division"
begin

text \<open>
  Go's \<open>time.Time\<close> and \<open>time.Duration\<close> as the program uses them. A wall-clock time is the
  pair Go keeps: signed 64-bit seconds since January 1, year 1, and nanoseconds within the
  second; the zero value is that origin. Durations are signed 64-bit nanosecond counts. 64-bit
  arithmetic is written out on \<open>int\<close>: \<open>wrap64\<close> is two's complement wrap-around (shown
  equal to a signed 64-bit word), \<open>clamp64\<close> is saturation. No comparison or subtraction of
  the program involves two monotonic clock readings, so these are left out.
\<close>

section \<open>64-bit integers\<close>

definition int64 :: "int \<Rightarrow> bool" where
  "int64 x \<longleftrightarrow> - 9223372036854775808 \<le> x \<and> x \<le> 9223372036854775807"

definition wrap64 :: "int \<Rightarrow> int" where
  "wrap64 x = (x + 9223372036854775808) mod 18446744073709551616 - 9223372036854775808"

definition clamp64 :: "int \<Rightarrow> int" where
  "clamp64 x = max (- 9223372036854775808) (min 9223372036854775807 x)"

lemma wrap64_word: "wrap64 x = sint (word_of_int x :: 64 word)"
  by (simp add: wrap64_def sint_sbintrunc' signed_take_bit_eq_take_bit_shift take_bit_eq_mod)

lemma wrap64_id [simp]: "int64 x \<Longrightarrow> wrap64 x = x"
  by (simp add: int64_def wrap64_def)

lemma int64_wrap64 [simp]: "int64 (wrap64 x)"
  by (simp add: int64_def wrap64_def)

lemma wrap64_above:
  assumes "9223372036854775807 < x" and "x < 27670116110564327424"
  shows "wrap64 x = x - 18446744073709551616"
proof -
  have "(x + 9223372036854775808) mod 18446744073709551616 =
      (x - 9223372036854775808 + 18446744073709551616) mod 18446744073709551616"
    by (rule arg_cong) simp
  also from assms have "\<dots> = x - 9223372036854775808"
    by (subst mod_add_self2, intro mod_pos_pos_trivial) simp_all
  finally show ?thesis by (simp add: wrap64_def)
qed

lemma clamp64_id [simp]: "int64 x \<Longrightarrow> clamp64 x = x"
  by (simp add: int64_def clamp64_def)

lemma int64_clamp64 [simp]: "int64 (clamp64 x)"
  by (simp add: int64_def clamp64_def)

section \<open>time.Time\<close>

datatype gotime = Time (tsec: int) (tnsec: int)

text \<open>\<open>t.Before(u)\<close> is \<open>t < u\<close>, \<open>t.After(u)\<close> is \<open>u < t\<close>, \<open>t.Equal(u)\<close> is \<open>t = u\<close>.\<close>

instantiation gotime :: linorder
begin

definition less_eq_gotime :: "gotime \<Rightarrow> gotime \<Rightarrow> bool" where
  "t \<le> u \<longleftrightarrow> tsec t < tsec u \<or> tsec t = tsec u \<and> tnsec t \<le> tnsec u"

definition less_gotime :: "gotime \<Rightarrow> gotime \<Rightarrow> bool" where
  "t < u \<longleftrightarrow> tsec t < tsec u \<or> tsec t = tsec u \<and> tnsec t < tnsec u"

instance
  by standard (auto simp: less_eq_gotime_def less_gotime_def gotime.expand)

end

lemmas gotime_order = less_eq_gotime_def less_gotime_def

definition zero_time :: gotime where
  "zero_time = Time 0 0"

definition time_is_zero :: "gotime \<Rightarrow> bool" where
  "time_is_zero t \<longleftrightarrow> tsec t = 0 \<and> tnsec t = 0"

text \<open>The values Go can hold, and the instant in nanoseconds they denote.\<close>

definition wf_time :: "gotime \<Rightarrow> bool" where
  "wf_time t \<longleftrightarrow> int64 (tsec t) \<and> 0 \<le> tnsec t \<and> tnsec t < 1000000000"

definition instant :: "gotime \<Rightarrow> int" where
  "instant t = tsec t * 1000000000 + tnsec t"

text \<open>\<open>Time.Add\<close>: the seconds saturate (\<open>Time.addSec\<close>).\<close>

definition add_sec :: "int \<Rightarrow> int \<Rightarrow> int" where
  "add_sec s d =
     (if s + d > 9223372036854775807 then 9223372036854775807
      else if s + d < - 9223372036854775808 then - 9223372036854775807 else s + d)"

definition time_add :: "gotime \<Rightarrow> int \<Rightarrow> gotime" where
  "time_add t d =
     Time (add_sec (tsec t) ((tnsec t + d) div 1000000000)) ((tnsec t + d) mod 1000000000)"

text \<open>\<open>Time.Sub\<close>: the difference, saturated at the largest and smallest duration.\<close>

definition time_sub :: "gotime \<Rightarrow> gotime \<Rightarrow> int" where
  "time_sub t u = clamp64 (instant t - instant u)"

definition milliseconds :: "int \<Rightarrow> int" where
  "milliseconds d = d sdiv 1000000"

text \<open>Seconds from year 1 to 1970; \<open>Time.Unix\<close> and \<open>time.Unix\<close> wrap around in 64 bits.\<close>

definition unix_epoch :: int where
  "unix_epoch = 62135596800"

definition time_unix :: "gotime \<Rightarrow> int" where
  "time_unix t = wrap64 (tsec t - unix_epoch)"

definition unix_time :: "int \<Rightarrow> gotime" where
  "unix_time s = Time (wrap64 (s + unix_epoch)) 0"

section \<open>Facts\<close>

declare int64_def [time_bounds] wf_time_def [time_bounds] unix_epoch_def [time_bounds]

lemma wf_time_instant_less: "wf_time t \<Longrightarrow> wf_time u \<Longrightarrow> t < u \<longleftrightarrow> instant t < instant u"
  by (auto simp: wf_time_def less_gotime_def instant_def)

lemma sdiv_nonneg: "0 \<le> a \<Longrightarrow> 0 < b \<Longrightarrow> (a :: int) sdiv b = a div b"
  by (simp add: signed_divide_int_def sgn_if)

lemma unix_time_unix:
  assumes "int64 (tsec t)" and "unix_epoch - 9223372036854775808 \<le> tsec t"
  shows "unix_time (time_unix t) = Time (tsec t) 0"
  using assms by (simp add: time_unix_def unix_time_def unix_epoch_def int64_def)

lemma not_before_whole_second: "wf_time t \<Longrightarrow> \<not> t < Time s 0 \<longleftrightarrow> s \<le> tsec t"
  by (auto simp: less_gotime_def wf_time_def)

lemma time_add_later:
  assumes "wf_time t" and "0 \<le> tsec t" and "0 < d"
  shows "0 \<le> tsec (time_add t d) \<and> tsec (time_add t d) \<le> 9223372036854775807"
proof -
  from assms have "0 \<le> (tnsec t + d) div 1000000000"
    by (intro pos_imp_zdiv_nonneg_iff [THEN iffD2]) (simp_all add: wf_time_def)
  with assms(2) show ?thesis by (auto simp: time_add_def add_sec_def)
qed

lemma time_unix_later:
  "0 \<le> tsec t \<Longrightarrow> tsec t \<le> 9223372036854775807 \<Longrightarrow> time_unix t = tsec t - unix_epoch"
  by (simp add: time_unix_def int64_def unix_epoch_def)

end
