(* ===== verification/Api_Types.thy ===== *)
theory Api_Types
  imports Go_Strings Go_Time
begin

text \<open>
  The SchedulingDecision resource of \<open>api/v1alpha1\<close>: the structs of
  \<open>schedulingdecision_types.go\<close> as records with the source's fields (prefixed by an
  abbreviation of the struct), and the keys and reasons shared between the binaries from
  \<open>labels.go\<close>. Nil and empty slices are both the empty list; a nil pointer is \<open>None\<close>;
  of the object metadata the program writes or depends on the name, the labels and the resource
  version. An outcome is one of the three constants of the enum, or unset (the empty string of a
  status that has not been written).
\<close>

datatype SchedulingOutcome =
    OutcomeUnset
  | SchedulingOutcomeScheduled
  | SchedulingOutcomeFailedScheduling
  | SchedulingOutcomePreempted

record CandidateNode =
  cn_Name :: string
  cn_FilterResult :: string
  cn_Score :: "int option"

record VolumeContext =
  vc_PVCName :: string
  vc_StorageClass :: string
  vc_DriverType :: string
  vc_BindingMode :: string
  vc_TopologyConstraint :: string

record SourceRef =
  sr_EventUID :: string
  sr_AuditRequestID :: string

record SchedulingDecisionSpec =
  sp_PodName :: string
  sp_PodNamespace :: string
  sp_PodUID :: string
  sp_SchedulerName :: string
  sp_VolumeContext :: "VolumeContext option"

record SchedulingTransition =
  tr_Outcome :: SchedulingOutcome
  tr_ChosenNode :: string
  tr_ReasonSummary :: string
  tr_DecisionTimestamp :: gotime
  tr_SchedulingLatencyMs :: int
  tr_CandidateNodes :: "CandidateNode list"
  tr_SourceRef :: SourceRef

record SchedulingDecisionStatus =
  st_Outcome :: SchedulingOutcome
  st_ChosenNode :: string
  st_ReasonSummary :: string
  st_DecisionTimestamp :: gotime
  st_SchedulingLatencyMs :: int
  st_Transitions :: "SchedulingTransition list"

record ObjectMeta =
  om_Name :: string
  om_Labels :: "string \<rightharpoonup> string"
  om_ResourceVersion :: string

record SchedulingDecision =
  sd_ObjectMeta :: ObjectMeta
  sd_Spec :: SchedulingDecisionSpec
  sd_Status :: SchedulingDecisionStatus

record SchedulingDecisionList =
  dl_Items :: "SchedulingDecision list"

definition ExpiresAtLabel :: string where
  "ExpiresAtLabel = ''scheduling.purestorage.io/expires-at''"

definition CandidateNodesEventReason :: string where
  "CandidateNodesEventReason = ''CandidateNodes''"

text \<open>Zero values, which Go gives every field a composite literal leaves out.\<close>

definition zero_SourceRef :: SourceRef where
  "zero_SourceRef = \<lparr>sr_EventUID = '''', sr_AuditRequestID = ''''\<rparr>"

definition zero_Status :: SchedulingDecisionStatus where
  "zero_Status = \<lparr>st_Outcome = OutcomeUnset, st_ChosenNode = '''', st_ReasonSummary = '''',
     st_DecisionTimestamp = zero_time, st_SchedulingLatencyMs = 0, st_Transitions = []\<rparr>"

abbreviation decision_name_of :: "SchedulingDecision \<Rightarrow> string" where
  "decision_name_of d \<equiv> om_Name (sd_ObjectMeta d)"

abbreviation labels_of :: "SchedulingDecision \<Rightarrow> string \<rightharpoonup> string" where
  "labels_of d \<equiv> om_Labels (sd_ObjectMeta d)"

abbreviation version_of :: "SchedulingDecision \<Rightarrow> string" where
  "version_of d \<equiv> om_ResourceVersion (sd_ObjectMeta d)"

abbreviation history_of :: "SchedulingDecision \<Rightarrow> SchedulingTransition list" where
  "history_of d \<equiv> st_Transitions (sd_Status d)"

end
