(* ===== verification/Kube_Api.thy ===== *)
theory Kube_Api
  imports Api_Types
begin

text \<open>
  What the program sees of Kubernetes. The objects it reads (Pods, Events, PersistentVolumeClaims,
  StorageClasses) are records of the fields the program uses. The API client, the clock and
  client-go's \<open>retry.OnError\<close> are not part of this repository: they are the fields of
  the record \<open>env\<close>, an argument of every operation that calls them, each a function on an
  arbitrary world state \<open>'w\<close>. The behaviour the program relies on is stated as locales in
  \<open>Decision_Store\<close> (\<open>retry_env\<close>, \<open>shared_env\<close>, \<open>quiet_env\<close>), \<open>Faulty_Api\<close> (\<open>lone_env\<close>),
  \<open>Refinement\<close> (\<open>sole_env\<close>), \<open>Sweep\<close> (\<open>sweep_api\<close>), \<open>Sweep_Shared\<close> (\<open>sweep_shared\<close>),
  \<open>Candidates\<close> (\<open>event_writer\<close>, \<open>event_reader\<close>) and \<open>Dashboard\<close> (\<open>cached_client\<close>); each is proved
  for an environment built on the one of \<open>Mem_Api\<close>.
  The samples at the end are the concrete objects on which properties are instantiated.
\<close>

section \<open>Objects\<close>

record NamespacedName =
  nn_Namespace :: string
  nn_Name :: string

definition nn_string :: "NamespacedName \<Rightarrow> string" where
  "nn_string k = nn_Namespace k @ ''/'' @ nn_Name k"

record ObjectReference =
  or_Kind :: string
  or_Namespace :: string
  or_Name :: string
  or_UID :: string

record Event =
  ev_Namespace :: string
  ev_GenerateName :: string
  ev_UID :: string
  ev_CreationTimestamp :: gotime
  ev_InvolvedObject :: ObjectReference
  ev_Reason :: string
  ev_Message :: string
  ev_Type :: string
  ev_ReportingController :: string
  ev_SourceComponent :: string
  ev_FirstTimestamp :: gotime
  ev_LastTimestamp :: gotime
  ev_EventTime :: gotime

record PodCondition =
  pc_Type :: string
  pc_Status :: string
  pc_Reason :: string
  pc_Message :: string
  pc_LastTransitionTime :: gotime

text \<open>A volume's \<open>PersistentVolumeClaim\<close> source, if it has one, is its claim name.\<close>

record Volume =
  vol_PersistentVolumeClaim :: "string option"

record Pod =
  pod_UID :: string
  pod_Name :: string
  pod_Namespace :: string
  pod_CreationTimestamp :: gotime
  pod_NodeName :: string
  pod_SchedulerName :: string
  pod_Volumes :: "Volume list"
  pod_Conditions :: "PodCondition list"

definition zero_Pod :: Pod where
  "zero_Pod = \<lparr>pod_UID = '''', pod_Name = '''', pod_Namespace = '''',
     pod_CreationTimestamp = zero_time, pod_NodeName = '''', pod_SchedulerName = '''',
     pod_Volumes = [], pod_Conditions = []\<rparr>"

record PersistentVolumeClaim =
  pvc_Namespace :: string
  pvc_Name :: string
  pvc_StorageClassName :: "string option"

record TopologyRequirement =
  tq_Key :: string
  tq_Values :: "string list"

record TopologySelectorTerm =
  ts_MatchLabelExpressions :: "TopologyRequirement list"

record StorageClass =
  sc_Name :: string
  sc_Provisioner :: string
  sc_VolumeBindingMode :: "string option"
  sc_AllowedTopologies :: "TopologySelectorTerm list"

section \<open>Errors\<close>

text \<open>
  API errors as \<open>apierrors\<close> classifies them; \<open>Wrapf m e\<close> is \<open>fmt.Errorf("m: %w", e)\<close>.
\<close>

datatype api_error = NotFound | AlreadyExists | Conflict | OtherError string

datatype go_error = ApiErr api_error | Wrapf string go_error

section \<open>The environment\<close>

record 'w env =
  ListEvents :: "string \<Rightarrow> string \<Rightarrow> 'w \<Rightarrow> (api_error, Event list) result \<times> 'w"
  GetPod :: "NamespacedName \<Rightarrow> 'w \<Rightarrow> (api_error, Pod) result \<times> 'w"
  GetPVC :: "NamespacedName \<Rightarrow> 'w \<Rightarrow> (api_error, PersistentVolumeClaim) result \<times> 'w"
  GetStorageClass :: "string \<Rightarrow> 'w \<Rightarrow> (api_error, StorageClass) result \<times> 'w"
  GetDecision :: "string \<Rightarrow> 'w \<Rightarrow> (api_error, SchedulingDecision) result \<times> 'w"
  ListDecisions :: "'w \<Rightarrow> (api_error, SchedulingDecisionList) result \<times> 'w"
  CreateDecision :: "SchedulingDecision \<Rightarrow> 'w \<Rightarrow> api_error option \<times> 'w"
  UpdateStatus :: "SchedulingDecision \<Rightarrow> 'w \<Rightarrow> api_error option \<times> 'w"
  DeleteDecision :: "SchedulingDecision \<Rightarrow> 'w \<Rightarrow> api_error option \<times> 'w"
  CreateEvent :: "Event \<Rightarrow> 'w \<Rightarrow> api_error option \<times> 'w"
  Now :: "'w \<Rightarrow> gotime"
  OnError :: "(api_error \<Rightarrow> bool) \<Rightarrow> ('w \<Rightarrow> api_error option \<times> 'w) \<Rightarrow> 'w \<Rightarrow> api_error option \<times> 'w"

section \<open>Samples\<close>

definition sample_event :: "string \<Rightarrow> int \<Rightarrow> string \<Rightarrow> Event" where
  "sample_event reason sec msg =
     \<lparr>ev_Namespace = ''ns'', ev_GenerateName = '''', ev_UID = ''e-uid'',
      ev_CreationTimestamp = Time sec 0,
      ev_InvolvedObject = \<lparr>or_Kind = ''Pod'', or_Namespace = ''ns'', or_Name = ''web'', or_UID = ''u1''\<rparr>,
      ev_Reason = reason, ev_Message = msg, ev_Type = ''Normal'',
      ev_ReportingController = ''default-scheduler'', ev_SourceComponent = '''',
      ev_FirstTimestamp = Time sec 0, ev_LastTimestamp = Time sec 0, ev_EventTime = zero_time\<rparr>"

definition sample_pod :: Pod where
  "sample_pod =
     \<lparr>pod_UID = ''u1'', pod_Name = ''web'', pod_Namespace = ''ns'',
      pod_CreationTimestamp = Time 63900000000 0, pod_NodeName = ''n1'',
      pod_SchedulerName = ''default-scheduler'',
      pod_Volumes = [\<lparr>vol_PersistentVolumeClaim = None\<rparr>, \<lparr>vol_PersistentVolumeClaim = Some ''gone''\<rparr>,
        \<lparr>vol_PersistentVolumeClaim = Some ''data''\<rparr>],
      pod_Conditions = [\<lparr>pc_Type = ''PodScheduled'', pc_Status = ''True'', pc_Reason = '''',
        pc_Message = '''', pc_LastTransitionTime = Time 63900000002 0\<rparr>]\<rparr>"

text \<open>An API server that answers every call with an error.\<close>

definition down_env :: "'w env" where
  "down_env =
     \<lparr>ListEvents = (\<lambda>_ _ w. (Inl (OtherError ''down''), w)),
      GetPod = (\<lambda>_ w. (Inl (OtherError ''down''), w)),
      GetPVC = (\<lambda>_ w. (Inl (OtherError ''down''), w)),
      GetStorageClass = (\<lambda>_ w. (Inl (OtherError ''down''), w)),
      GetDecision = (\<lambda>_ w. (Inl (OtherError ''down''), w)),
      ListDecisions = (\<lambda>w. (Inl (OtherError ''down''), w)),
      CreateDecision = (\<lambda>_ w. (Some (OtherError ''down''), w)),
      UpdateStatus = (\<lambda>_ w. (Some (OtherError ''down''), w)),
      DeleteDecision = (\<lambda>_ w. (Some (OtherError ''down''), w)),
      CreateEvent = (\<lambda>_ w. (Some (OtherError ''down''), w)),
      Now = (\<lambda>_. Time 63900000000 0),
      OnError = (\<lambda>_ f w. f w)\<rparr>"

declare sample_event_def [sample_defs] sample_pod_def [sample_defs] down_env_def [sample_defs]

end
