(* ===== verification/Decision.thy ===== *)
theory Decision
  imports Kube_Api
begin

text \<open>
  \<open>controllers/decision.go\<close>: from a Pod and its Events to the pod's identity and the latest
  scheduling transition they imply. Every function of the file is a definition of the same name;
  a pointer parameter that may be nil is an \<open>option\<close>. \<open>metav1.Now()\<close>, the last resort of
  \<open>decisionTimestamp\<close>, is the extra first argument \<open>now\<close> of the functions that reach it.
\<close>

section \<open>Constants of the controller\<close>

definition eventReasonScheduled :: string where
  "eventReasonScheduled = ''Scheduled''"

definition eventReasonFailedScheduling :: string where
  "eventReasonFailedScheduling = ''FailedScheduling''"

definition eventReasonPreempted :: string where
  "eventReasonPreempted = ''Preempted''"

definition podKind :: string where
  "podKind = ''Pod''"

definition eventReasonCandidateNodes :: string where
  "eventReasonCandidateNodes = CandidateNodesEventReason"

definition PodScheduled :: string where
  "PodScheduled = ''PodScheduled''"

definition ConditionTrue :: string where
  "ConditionTrue = ''True''"

definition ConditionFalse :: string where
  "ConditionFalse = ''False''"

lemmas reason_defs = eventReasonScheduled_def eventReasonFailedScheduling_def
  eventReasonPreempted_def eventReasonCandidateNodes_def CandidateNodesEventReason_def

section \<open>Helpers\<close>

record podIdentity =
  pi_UID :: string
  pi_Name :: string
  pi_Namespace :: string
  pi_SchedulerName :: string

definition eventTimestamp :: "Event \<Rightarrow> gotime" where
  "eventTimestamp e =
     (if \<not> time_is_zero (ev_LastTimestamp e) then ev_LastTimestamp e
      else if \<not> time_is_zero (ev_EventTime e) then ev_EventTime e
      else ev_CreationTimestamp e)"

fun latestEventLoop :: "string \<Rightarrow> Event option \<Rightarrow> Event list \<Rightarrow> Event option" where
  "latestEventLoop reason latest [] = latest"
| "latestEventLoop reason latest (e # es) =
     (if ev_Reason e \<noteq> reason then latestEventLoop reason latest es
      else if (case latest of None \<Rightarrow> True | Some l \<Rightarrow> eventTimestamp l < eventTimestamp e)
           then latestEventLoop reason (Some e) es
           else latestEventLoop reason latest es)"

definition latestEventWithReason :: "Event list \<Rightarrow> string \<Rightarrow> Event option" where
  "latestEventWithReason events reason = latestEventLoop reason None events"

text \<open>The loop over the split message: trimmed names, empty ones dropped.\<close>

definition parseCandidateNames :: "string \<Rightarrow> string list" where
  "parseCandidateNames message =
     filter (\<lambda>n. n \<noteq> []) (map trim_space (str_split CHR '','' message))"

definition candidateNodesFrom :: "Event list \<Rightarrow> CandidateNode list" where
  "candidateNodesFrom events =
     (case latestEventWithReason events eventReasonCandidateNodes of
        None \<Rightarrow> []
      | Some evt \<Rightarrow>
          if ev_Message evt = [] then []
          else map (\<lambda>n. \<lparr>cn_Name = n, cn_FilterResult = [], cn_Score = None\<rparr>)
                 (parseCandidateNames (ev_Message evt)))"

fun firstNonEmpty :: "string list \<Rightarrow> string" where
  "firstNonEmpty [] = ''''"
| "firstNonEmpty (v # vs) = (if v \<noteq> '''' then v else firstNonEmpty vs)"

definition conditionMessage :: "PodCondition option \<Rightarrow> string" where
  "conditionMessage cond = (case cond of None \<Rightarrow> '''' | Some c \<Rightarrow> pc_Message c)"

definition eventMessage :: "Event option \<Rightarrow> string" where
  "eventMessage event = (case event of None \<Rightarrow> '''' | Some e \<Rightarrow> ev_Message e)"

definition latencyMs :: "gotime \<Rightarrow> gotime \<Rightarrow> int" where
  "latencyMs start stop = (if stop < start then 0 else milliseconds (time_sub stop start))"

definition decisionTimestamp :: "gotime \<Rightarrow> PodCondition option \<Rightarrow> Event option \<Rightarrow> gotime" where
  "decisionTimestamp now cond event =
     (if (case cond of None \<Rightarrow> False | Some c \<Rightarrow> \<not> time_is_zero (pc_LastTransitionTime c))
      then pc_LastTransitionTime (the cond)
      else (case event of Some e \<Rightarrow> eventTimestamp e | None \<Rightarrow> now))"

definition podScheduledCondition :: "Pod \<Rightarrow> PodCondition option" where
  "podScheduledCondition pod = find (\<lambda>c. pc_Type c = PodScheduled) (pod_Conditions pod)"

definition schedulerNameFor :: "Event option \<Rightarrow> Pod \<Rightarrow> bool \<Rightarrow> string" where
  "schedulerNameFor event pod podFound =
     (case event of
        Some e \<Rightarrow>
          if ev_ReportingController e \<noteq> '''' then ev_ReportingController e
          else if ev_SourceComponent e \<noteq> '''' then ev_SourceComponent e
          else if podFound \<and> pod_SchedulerName pod \<noteq> '''' then pod_SchedulerName pod
          else ''''
      | None \<Rightarrow>
          if podFound \<and> pod_SchedulerName pod \<noteq> '''' then pod_SchedulerName pod else '''')"

section \<open>Transitions\<close>

definition newTransition :: "SchedulingOutcome \<Rightarrow> gotime \<Rightarrow> SchedulingTransition" where
  "newTransition outcome ts =
     \<lparr>tr_Outcome = outcome, tr_ChosenNode = '''', tr_ReasonSummary = '''',
      tr_DecisionTimestamp = ts, tr_SchedulingLatencyMs = 0, tr_CandidateNodes = [],
      tr_SourceRef = zero_SourceRef\<rparr>"

definition set_event_uid :: "Event option \<Rightarrow> SchedulingTransition \<Rightarrow> SchedulingTransition" where
  "set_event_uid event t =
     (case event of
        None \<Rightarrow> t
      | Some e \<Rightarrow> t\<lparr>tr_SourceRef := (tr_SourceRef t)\<lparr>sr_EventUID := ev_UID e\<rparr>\<rparr>)"

definition transitionFromScheduled ::
    "gotime \<Rightarrow> Pod \<Rightarrow> PodCondition option \<Rightarrow> Event option \<Rightarrow> SchedulingTransition" where
  "transitionFromScheduled now pod cond event =
     (let ts = decisionTimestamp now cond event;
          t = newTransition SchedulingOutcomeScheduled ts;
          t = t\<lparr>tr_ChosenNode := pod_NodeName pod\<rparr>;
          t = t\<lparr>tr_ReasonSummary := firstNonEmpty [conditionMessage cond, eventMessage event]\<rparr>;
          t = set_event_uid event t
      in t\<lparr>tr_SchedulingLatencyMs := latencyMs (pod_CreationTimestamp pod) ts\<rparr>)"

definition transitionFromFailedScheduling ::
    "gotime \<Rightarrow> Pod \<Rightarrow> PodCondition option \<Rightarrow> Event option \<Rightarrow> SchedulingTransition" where
  "transitionFromFailedScheduling now pod cond event =
     (let ts = decisionTimestamp now cond event;
          t = newTransition SchedulingOutcomeFailedScheduling ts;
          t = t\<lparr>tr_ReasonSummary := firstNonEmpty [conditionMessage cond, eventMessage event]\<rparr>;
          t = set_event_uid event t
      in t\<lparr>tr_SchedulingLatencyMs := latencyMs (pod_CreationTimestamp pod) ts\<rparr>)"

definition identityFromPod :: "Pod \<Rightarrow> Event option \<Rightarrow> podIdentity" where
  "identityFromPod pod event =
     \<lparr>pi_UID = pod_UID pod, pi_Name = pod_Name pod, pi_Namespace = pod_Namespace pod,
      pi_SchedulerName = schedulerNameFor event pod True\<rparr>"

definition identityAndTransitionFromPreemption ::
    "Pod \<Rightarrow> bool \<Rightarrow> Event \<Rightarrow> podIdentity \<times> SchedulingTransition" where
  "identityAndTransitionFromPreemption pod podFound event =
     (let ts = eventTimestamp event;
          name = schedulerNameFor (Some event) pod podFound;
          obj = ev_InvolvedObject event;
          identity =
            (if podFound
             then \<lparr>pi_UID = pod_UID pod, pi_Name = pod_Name pod,
                   pi_Namespace = pod_Namespace pod, pi_SchedulerName = name\<rparr>
             else \<lparr>pi_UID = or_UID obj, pi_Name = or_Name obj,
                   pi_Namespace = or_Namespace obj, pi_SchedulerName = name\<rparr>);
          t = newTransition SchedulingOutcomePreempted ts;
          t = t\<lparr>tr_ReasonSummary := ev_Message event\<rparr>;
          t = set_event_uid (Some event) t;
          t = (if podFound
               then t\<lparr>tr_SchedulingLatencyMs := latencyMs (pod_CreationTimestamp pod) ts\<rparr>
               else t)
      in (identity, t))"

text \<open>The \<open>switch\<close> on the PodScheduled condition: \<open>None\<close> when it falls through.\<close>

definition deriveFromCondition ::
    "gotime \<Rightarrow> Pod \<Rightarrow> Event list \<Rightarrow> CandidateNode list \<Rightarrow> (podIdentity \<times> SchedulingTransition) option" where
  "deriveFromCondition now pod events candidateNodes =
     (case podScheduledCondition pod of
        None \<Rightarrow> None
      | Some cond \<Rightarrow>
          if pc_Status cond = ConditionTrue then
            (let evt = latestEventWithReason events eventReasonScheduled;
                 t = transitionFromScheduled now pod (Some cond) evt
             in Some (identityFromPod pod evt, t\<lparr>tr_CandidateNodes := candidateNodes\<rparr>))
          else if pc_Status cond = ConditionFalse \<and> pc_Reason cond = ''Unschedulable'' then
            (let evt = latestEventWithReason events eventReasonFailedScheduling;
                 t = transitionFromFailedScheduling now pod (Some cond) evt
             in Some (identityFromPod pod evt, t\<lparr>tr_CandidateNodes := candidateNodes\<rparr>))
          else None)"

text \<open>The fallback on the Events alone.\<close>

definition deriveFromEvents ::
    "gotime \<Rightarrow> Pod \<Rightarrow> Event list \<Rightarrow> CandidateNode list \<Rightarrow> (podIdentity \<times> SchedulingTransition) option" where
  "deriveFromEvents now pod events candidateNodes =
     (case latestEventWithReason events eventReasonScheduled of
        Some evt \<Rightarrow>
          (let t = transitionFromScheduled now pod None (Some evt)
           in Some (identityFromPod pod (Some evt), t\<lparr>tr_CandidateNodes := candidateNodes\<rparr>))
      | None \<Rightarrow>
          (case latestEventWithReason events eventReasonFailedScheduling of
             Some evt \<Rightarrow>
               (let t = transitionFromFailedScheduling now pod None (Some evt)
                in Some (identityFromPod pod (Some evt), t\<lparr>tr_CandidateNodes := candidateNodes\<rparr>))
           | None \<Rightarrow> None))"

definition deriveTransition ::
    "gotime \<Rightarrow> Pod \<Rightarrow> bool \<Rightarrow> Event list \<Rightarrow> (podIdentity \<times> SchedulingTransition) option" where
  "deriveTransition now pod podFound events =
     (case latestEventWithReason events eventReasonPreempted of
        Some preempted \<Rightarrow> Some (identityAndTransitionFromPreemption pod podFound preempted)
      | None \<Rightarrow>
          if \<not> podFound then None
          else (let candidateNodes = candidateNodesFrom events
                in case deriveFromCondition now pod events candidateNodes of
                     Some r \<Rightarrow> Some r
                   | None \<Rightarrow> deriveFromEvents now pod events candidateNodes))"

section \<open>Recording\<close>

definition decisionName :: "string \<Rightarrow> string" where
  "decisionName podUID = ''sdec-'' @ podUID"

definition applyTransition ::
    "SchedulingDecisionStatus \<Rightarrow> SchedulingTransition \<Rightarrow> SchedulingDecisionStatus" where
  "applyTransition status transition =
     status\<lparr>st_Transitions := st_Transitions status @ [transition],
            st_Outcome := tr_Outcome transition,
            st_ChosenNode := tr_ChosenNode transition,
            st_ReasonSummary := tr_ReasonSummary transition,
            st_DecisionTimestamp := tr_DecisionTimestamp transition,
            st_SchedulingLatencyMs := tr_SchedulingLatencyMs transition\<rparr>"

definition transitionsEqual :: "SchedulingTransition \<Rightarrow> SchedulingTransition \<Rightarrow> bool" where
  "transitionsEqual a b \<longleftrightarrow>
     tr_Outcome a = tr_Outcome b \<and> tr_ChosenNode a = tr_ChosenNode b \<and>
     tr_ReasonSummary a = tr_ReasonSummary b \<and>
     tr_DecisionTimestamp a = tr_DecisionTimestamp b"

section \<open>Selecting the latest Event\<close>

interpretation latest: latest_scan eventTimestamp "\<lambda>e. ev_Reason e = reason"
    "latestEventLoop reason" for reason :: string
  by unfold_locales simp_all

lemma latestEventWithReason_None:
  "latestEventWithReason events reason = None \<longleftrightarrow> (\<forall>e\<in>set events. ev_Reason e \<noteq> reason)"
  by (simp add: latestEventWithReason_def latest.scan_None_iff)

lemma latestEventWithReason_Some:
  "latestEventWithReason events reason = Some e \<Longrightarrow> e \<in> set events \<and> ev_Reason e = reason"
  unfolding latestEventWithReason_def by (rule latest.scan_in)

lemma latestEventWithReason_ex:
  "(\<exists>e. latestEventWithReason events reason = Some e) \<longleftrightarrow> reason \<in> ev_Reason ` set events"
  by (metis (mono_tags, lifting) image_iff latestEventWithReason_None not_None_eq)

text \<open>Filtering out Events with other reasons does not change which Event is the latest.\<close>

lemma latestEventLoop_filter:
  "p reason \<Longrightarrow> latestEventLoop reason acc (filter (\<lambda>e. p (ev_Reason e)) events) =
     latestEventLoop reason acc events"
  by (induction events arbitrary: acc) auto

lemma latestEventWithReason_first_maximal:
  "latestEventWithReason events reason = Some e \<longleftrightarrow>
     first_maximal eventTimestamp (\<lambda>e. ev_Reason e = reason) e events"
proof
  assume "latestEventWithReason events reason = Some e"
  then show "first_maximal eventTimestamp (\<lambda>e. ev_Reason e = reason) e events"
    unfolding latestEventWithReason_def by (rule latest.scan_first_maximal)
next
  assume fm: "first_maximal eventTimestamp (\<lambda>e. ev_Reason e = reason) e events"
  then have "reason \<in> ev_Reason ` set events" by (auto simp: first_maximal_def)
  then obtain e' where e': "latestEventWithReason events reason = Some e'"
    using latestEventWithReason_ex by blast
  then have "first_maximal eventTimestamp (\<lambda>e. ev_Reason e = reason) e' events"
    unfolding latestEventWithReason_def by (rule latest.scan_first_maximal)
  with fm e' show "latestEventWithReason events reason = Some e"
    by (simp add: first_maximal_unique)
qed

text \<open>
  C14: \<open>latestEventWithReason\<close> returns an Event exactly when it is the first Event of the list
  with that reason whose timestamp no Event with that reason exceeds: ties are won by the
  earlier list position, Events with other reasons never matter.
\<close>

theorem latestEventWithReason_spec:
  "latestEventWithReason events reason = Some e \<longleftrightarrow>
     first_maximal eventTimestamp (\<lambda>e. ev_Reason e = reason) e events"
  by (rule latestEventWithReason_first_maximal)

section \<open>Fields of the derived transition\<close>

declare firstNonEmpty.simps [simp del]

lemma newTransition_fields [simp]:
  "tr_Outcome (newTransition oc ts) = oc"
  "tr_ChosenNode (newTransition oc ts) = ''''"
  "tr_DecisionTimestamp (newTransition oc ts) = ts"
  "tr_CandidateNodes (newTransition oc ts) = []"
  by (simp_all add: newTransition_def)

lemma set_event_uid_fields [simp]:
  "tr_Outcome (set_event_uid ev t) = tr_Outcome t"
  "tr_ChosenNode (set_event_uid ev t) = tr_ChosenNode t"
  "tr_ReasonSummary (set_event_uid ev t) = tr_ReasonSummary t"
  "tr_DecisionTimestamp (set_event_uid ev t) = tr_DecisionTimestamp t"
  "tr_CandidateNodes (set_event_uid ev t) = tr_CandidateNodes t"
  by (simp_all add: set_event_uid_def split: option.split)

lemma transitionFromScheduled_fields [simp]:
  "tr_Outcome (transitionFromScheduled now pod cond ev) = SchedulingOutcomeScheduled"
  "tr_ChosenNode (transitionFromScheduled now pod cond ev) = pod_NodeName pod"
  "tr_DecisionTimestamp (transitionFromScheduled now pod cond ev) = decisionTimestamp now cond ev"
  "tr_ReasonSummary (transitionFromScheduled now pod cond ev) =
     firstNonEmpty [conditionMessage cond, eventMessage ev]"
  "tr_SchedulingLatencyMs (transitionFromScheduled now pod cond ev) =
     latencyMs (pod_CreationTimestamp pod) (decisionTimestamp now cond ev)"
  by (simp_all add: transitionFromScheduled_def Let_def)

lemma transitionFromFailedScheduling_fields [simp]:
  "tr_Outcome (transitionFromFailedScheduling now pod cond ev) = SchedulingOutcomeFailedScheduling"
  "tr_ChosenNode (transitionFromFailedScheduling now pod cond ev) = ''''"
  "tr_DecisionTimestamp (transitionFromFailedScheduling now pod cond ev) =
     decisionTimestamp now cond ev"
  "tr_ReasonSummary (transitionFromFailedScheduling now pod cond ev) =
     firstNonEmpty [conditionMessage cond, eventMessage ev]"
  "tr_SchedulingLatencyMs (transitionFromFailedScheduling now pod cond ev) =
     latencyMs (pod_CreationTimestamp pod) (decisionTimestamp now cond ev)"
  by (simp_all add: transitionFromFailedScheduling_def Let_def)

lemma preemption_fields [simp]:
  "tr_Outcome (snd (identityAndTransitionFromPreemption pod found ev)) = SchedulingOutcomePreempted"
  "tr_ChosenNode (snd (identityAndTransitionFromPreemption pod found ev)) = ''''"
  "tr_ReasonSummary (snd (identityAndTransitionFromPreemption pod found ev)) = ev_Message ev"
  "tr_DecisionTimestamp (snd (identityAndTransitionFromPreemption pod found ev)) = eventTimestamp ev"
  "tr_CandidateNodes (snd (identityAndTransitionFromPreemption pod found ev)) = []"
  "tr_SchedulingLatencyMs (snd (identityAndTransitionFromPreemption pod found ev)) =
     (if found then latencyMs (pod_CreationTimestamp pod) (eventTimestamp ev) else 0)"
  by (simp_all add: identityAndTransitionFromPreemption_def Let_def)
    (simp_all add: set_event_uid_def newTransition_def)

lemma preemption_identity:
  "pi_UID (fst (identityAndTransitionFromPreemption pod found ev)) =
     (if found then pod_UID pod else or_UID (ev_InvolvedObject ev))"
  "pi_Name (fst (identityAndTransitionFromPreemption pod found ev)) =
     (if found then pod_Name pod else or_Name (ev_InvolvedObject ev))"
  "pi_Namespace (fst (identityAndTransitionFromPreemption pod found ev)) =
     (if found then pod_Namespace pod else or_Namespace (ev_InvolvedObject ev))"
  by (simp_all add: identityAndTransitionFromPreemption_def Let_def)

lemma identityFromPod_fields [simp]:
  "pi_UID (identityFromPod pod ev) = pod_UID pod"
  "pi_Name (identityFromPod pod ev) = pod_Name pod"
  "pi_Namespace (identityFromPod pod ev) = pod_Namespace pod"
  by (simp_all add: identityFromPod_def)

text \<open>
  The shape of every result: one of five sources. The properties of \<open>deriveTransition\<close> below
  are case analyses over this rule.
\<close>

lemma deriveTransition_cases [consumes 1, case_names preempted cond_scheduled cond_failed
    event_scheduled event_failed]:
  assumes "deriveTransition now pod podFound events = Some (i, t)"
  obtains
    (preempted) ev where "latestEventWithReason events eventReasonPreempted = Some ev"
      "identityAndTransitionFromPreemption pod podFound ev = (i, t)"
  | (cond_scheduled) c ev where "latestEventWithReason events eventReasonPreempted = None"
      "podFound" "podScheduledCondition pod = Some c" "pc_Status c = ConditionTrue"
      "ev = latestEventWithReason events eventReasonScheduled"
      "i = identityFromPod pod ev"
      "t = (transitionFromScheduled now pod (Some c) ev)\<lparr>tr_CandidateNodes := candidateNodesFrom events\<rparr>"
  | (cond_failed) c ev where "latestEventWithReason events eventReasonPreempted = None"
      "podFound" "podScheduledCondition pod = Some c" "pc_Status c = ConditionFalse"
      "pc_Reason c = ''Unschedulable''"
      "ev = latestEventWithReason events eventReasonFailedScheduling"
      "i = identityFromPod pod ev"
      "t = (transitionFromFailedScheduling now pod (Some c) ev)\<lparr>tr_CandidateNodes := candidateNodesFrom events\<rparr>"
  | (event_scheduled) ev where "latestEventWithReason events eventReasonPreempted = None"
      "podFound" "latestEventWithReason events eventReasonScheduled = Some ev"
      "i = identityFromPod pod (Some ev)"
      "t = (transitionFromScheduled now pod None (Some ev))\<lparr>tr_CandidateNodes := candidateNodesFrom events\<rparr>"
  | (event_failed) ev where "latestEventWithReason events eventReasonPreempted = None"
      "podFound" "latestEventWithReason events eventReasonFailedScheduling = Some ev"
      "i = identityFromPod pod (Some ev)"
      "t = (transitionFromFailedScheduling now pod None (Some ev))\<lparr>tr_CandidateNodes := candidateNodesFrom events\<rparr>"
proof (cases "latestEventWithReason events eventReasonPreempted")
  case (Some ev)
  with assms show thesis by (intro preempted) (simp_all add: deriveTransition_def)
next
  case None
  with assms have found: podFound by (simp add: deriveTransition_def split: if_splits)
  show thesis
  proof (cases "deriveFromCondition now pod events (candidateNodesFrom events)")
    case (Some r)
    with None found assms have "r = (i, t)" by (simp add: deriveTransition_def Let_def)
    with Some None found cond_scheduled cond_failed show thesis
      by (auto simp: deriveFromCondition_def Let_def split: option.splits if_splits)
  next
    case no_cond: None
    with None found assms
    have "deriveFromEvents now pod events (candidateNodesFrom events) = Some (i, t)"
      by (simp add: deriveTransition_def Let_def)
    with None found event_scheduled event_failed show thesis
      by (auto simp: deriveFromEvents_def Let_def split: option.splits)
  qed
qed

section \<open>The decision table\<close>

text \<open>
  The abstract specification: which outcome a Pod's condition and the reasons of its Events
  imply. Preemption first; then, for a live Pod, a conclusive condition; then the Events.
\<close>

definition observed_outcome :: "bool \<Rightarrow> PodCondition option \<Rightarrow> string set \<Rightarrow> SchedulingOutcome option" where
  "observed_outcome podFound cond reasons =
     (if ''Preempted'' \<in> reasons then Some SchedulingOutcomePreempted
      else if \<not> podFound then None
      else if (\<exists>c. cond = Some c \<and> pc_Status c = ''True'') then Some SchedulingOutcomeScheduled
      else if (\<exists>c. cond = Some c \<and> pc_Status c = ''False'' \<and> pc_Reason c = ''Unschedulable'')
        then Some SchedulingOutcomeFailedScheduling
      else if ''Scheduled'' \<in> reasons then Some SchedulingOutcomeScheduled
      else if ''FailedScheduling'' \<in> reasons then Some SchedulingOutcomeFailedScheduling
      else None)"

lemma latest_case_ex:
  "(case latestEventWithReason events reason of None \<Rightarrow> a | Some e \<Rightarrow> b) =
     (if reason \<in> ev_Reason ` set events then b else a)"
  using latestEventWithReason_ex [of events reason] by (auto split: option.splits)

lemma deriveFromCondition_outcome:
  "map_option (tr_Outcome \<circ> snd) (deriveFromCondition now pod events cs) =
     (case podScheduledCondition pod of
        None \<Rightarrow> None
      | Some c \<Rightarrow> if pc_Status c = ConditionTrue then Some SchedulingOutcomeScheduled
          else if pc_Status c = ConditionFalse \<and> pc_Reason c = ''Unschedulable''
            then Some SchedulingOutcomeFailedScheduling else None)"
  by (simp add: deriveFromCondition_def Let_def split: option.split)

lemma deriveFromEvents_outcome:
  "map_option (tr_Outcome \<circ> snd) (deriveFromEvents now pod events cs) =
     (if eventReasonScheduled \<in> ev_Reason ` set events then Some SchedulingOutcomeScheduled
      else if eventReasonFailedScheduling \<in> ev_Reason ` set events
        then Some SchedulingOutcomeFailedScheduling else None)"
proof -
  have "map_option (tr_Outcome \<circ> snd) (deriveFromEvents now pod events cs) =
     (case latestEventWithReason events eventReasonScheduled of
        Some _ \<Rightarrow> Some SchedulingOutcomeScheduled
      | None \<Rightarrow> (case latestEventWithReason events eventReasonFailedScheduling of
          Some _ \<Rightarrow> Some SchedulingOutcomeFailedScheduling | None \<Rightarrow> None))"
    by (simp add: deriveFromEvents_def Let_def split: option.split)
  then show ?thesis by (simp only: latest_case_ex)
qed

text \<open>
  C3: the outcome \<open>deriveTransition\<close> records, and whether it records one at all, is the
  decision table over the Pod's presence, its PodScheduled condition and the reasons of its
  Events. In particular it is silent exactly for a missing Pod without a Preempted Event and for
  a Pod with neither a conclusive condition nor a Scheduled or FailedScheduling Event.
\<close>

theorem deriveTransition_refines_table:
  "map_option (tr_Outcome \<circ> snd) (deriveTransition now pod podFound events) =
     observed_outcome podFound (podScheduledCondition pod) (ev_Reason ` set events)"
proof (cases "latestEventWithReason events eventReasonPreempted")
  case (Some ev)
  then have "''Preempted'' \<in> ev_Reason ` set events"
    by (metis eventReasonPreempted_def latestEventWithReason_ex)
  with Some show ?thesis by (simp add: deriveTransition_def observed_outcome_def)
next
  case None
  then have "''Preempted'' \<notin> ev_Reason ` set events"
    by (auto simp: latestEventWithReason_None eventReasonPreempted_def)
  moreover have "map_option (tr_Outcome \<circ> snd)
      (case deriveFromCondition now pod events cs of Some r \<Rightarrow> Some r
       | None \<Rightarrow> deriveFromEvents now pod events cs) =
      (case map_option (tr_Outcome \<circ> snd) (deriveFromCondition now pod events cs) of Some oc \<Rightarrow> Some oc
       | None \<Rightarrow> map_option (tr_Outcome \<circ> snd) (deriveFromEvents now pod events cs))" for cs
    by (simp split: option.split)
  ultimately show ?thesis using None
    by (simp add: deriveTransition_def observed_outcome_def Let_def deriveFromCondition_outcome
        deriveFromEvents_outcome ConditionTrue_def ConditionFalse_def eventReasonScheduled_def
        eventReasonFailedScheduling_def split: option.split)
      auto
qed

section \<open>What a derived transition holds\<close>

lemma latencyMs_exact_wf:
  assumes "wf_time start" and "wf_time stop"
  shows "latencyMs start stop =
     max 0 (min (instant stop - instant start) 9223372036854775807) div 1000000"
proof (cases "stop < start")
  case True
  with assms have "instant stop < instant start" by (simp add: wf_time_instant_less)
  with True show ?thesis by (simp add: latencyMs_def)
next
  case False
  with assms have "0 \<le> instant stop - instant start" by (simp add: wf_time_instant_less)
  with False show ?thesis
    by (simp add: latencyMs_def milliseconds_def time_sub_def clamp64_def sdiv_nonneg min.commute)
qed

text \<open>
  C28: for times Go can hold, \<open>latencyMs\<close> is the elapsed time in whole milliseconds, 0 when the
  end precedes the start, saturated at Go's largest duration (9223372036854 ms, about 292
  years): it is never negative and never overflows.
\<close>

theorem latencyMs_exact:
  assumes "wf_time start" and "wf_time stop"
  shows "latencyMs start stop =
       max 0 (min (instant stop - instant start) 9223372036854775807) div 1000000 \<and>
     0 \<le> latencyMs start stop \<and> latencyMs start stop \<le> 9223372036854"
  using latencyMs_exact_wf [OF assms] by auto

theorem latencyMs_exact_witness:
  "latencyMs (Time 63900000000 0) (Time 63900000002 500000000) = 2500 \<and>
   latencyMs (Time 63900000002 0) (Time 63900000000 0) = 0 \<and>
   latencyMs zero_time (Time 63900000000 0) = 9223372036854"
  using latencyMs_exact [of "Time 63900000000 0" "Time 63900000002 500000000"]
    latencyMs_exact [of "Time 63900000002 0" "Time 63900000000 0"]
    latencyMs_exact [of zero_time "Time 63900000000 0"]
  by (simp add: time_bounds instant_def zero_time_def)

lemma deriveTransition_fields_lemma:
  assumes "deriveTransition now pod podFound events = Some (i, t)"
  shows "tr_Outcome t \<noteq> OutcomeUnset \<and>
     tr_ChosenNode t =
       (if tr_Outcome t = SchedulingOutcomeScheduled then pod_NodeName pod else '''') \<and>
     tr_CandidateNodes t =
       (if tr_Outcome t = SchedulingOutcomePreempted then [] else candidateNodesFrom events)"
  using assms
proof (cases rule: deriveTransition_cases)
  case (preempted ev)
  then have "t = snd (identityAndTransitionFromPreemption pod podFound ev)" by simp
  then show ?thesis by simp
qed simp_all

text \<open>
  C26: where the fields of a derived transition come from. It has one of the three outcomes; its node
  is the Pod's \<open>spec.nodeName\<close> when it is Scheduled (empty if the Pod has none) and empty otherwise;
  its candidates are those read from the Events (possibly none) unless it is a preemption, which
  carries none.
\<close>

theorem deriveTransition_fields:
  assumes "deriveTransition now pod podFound events = Some (i, t)"
  shows "tr_Outcome t \<noteq> OutcomeUnset \<and>
     tr_ChosenNode t =
       (if tr_Outcome t = SchedulingOutcomeScheduled then pod_NodeName pod else '''') \<and>
     tr_CandidateNodes t =
       (if tr_Outcome t = SchedulingOutcomePreempted then [] else candidateNodesFrom events)"
  using assms by (rule deriveTransition_fields_lemma)

theorem deriveTransition_fields_witness:
  "\<exists>i t. deriveTransition zero_time sample_pod True
      [sample_event ''Scheduled'' 63900000002 ''m'', sample_event ''CandidateNodes'' 63900000001 ''n1,n2''] =
      Some (i, t) \<and> tr_Outcome t = SchedulingOutcomeScheduled \<and> tr_ChosenNode t = ''n1'' \<and>
      map cn_Name (tr_CandidateNodes t) = [''n1'', ''n2'']"
proof -
  let ?es = "[sample_event ''Scheduled'' 63900000002 ''m'', sample_event ''CandidateNodes'' 63900000001 ''n1,n2'']"
  have "map_option (\<lambda>x. tr_Outcome (snd x)) (deriveTransition zero_time sample_pod True ?es) =
      Some SchedulingOutcomeScheduled" by code_simp
  then obtain i t where d: "deriveTransition zero_time sample_pod True ?es = Some (i, t)"
    and oc: "tr_Outcome t = SchedulingOutcomeScheduled" by auto
  have "map cn_Name (candidateNodesFrom ?es) = [''n1'', ''n2'']" by code_simp
  with deriveTransition_fields [OF d] oc d show ?thesis by (auto simp: sample_defs)
qed

lemma deriveTransition_identity_lemma:
  assumes "deriveTransition now pod podFound events = Some (i, t)"
  shows "(if podFound
          then pi_UID i = pod_UID pod \<and> pi_Name i = pod_Name pod \<and> pi_Namespace i = pod_Namespace pod
          else \<exists>ev. latestEventWithReason events eventReasonPreempted = Some ev \<and>
                 pi_UID i = or_UID (ev_InvolvedObject ev) \<and>
                 pi_Name i = or_Name (ev_InvolvedObject ev) \<and>
                 pi_Namespace i = or_Namespace (ev_InvolvedObject ev))"
  using assms
proof (cases rule: deriveTransition_cases)
  case (preempted ev)
  then have "i = fst (identityAndTransitionFromPreemption pod podFound ev)" by simp
  with preempted(1) show ?thesis by (simp add: preemption_identity)
qed simp_all

text \<open>
  C25: the identity a transition is filed under. For a live Pod it is that Pod; without one it is
  the object the latest Preempted Event involves, and there is such an Event.
\<close>

theorem deriveTransition_identity:
  assumes "deriveTransition now pod podFound events = Some (i, t)"
  shows "(if podFound
          then pi_UID i = pod_UID pod \<and> pi_Name i = pod_Name pod \<and> pi_Namespace i = pod_Namespace pod
          else \<exists>ev. latestEventWithReason events eventReasonPreempted = Some ev \<and>
                 pi_UID i = or_UID (ev_InvolvedObject ev) \<and>
                 pi_Name i = or_Name (ev_InvolvedObject ev) \<and>
                 pi_Namespace i = or_Namespace (ev_InvolvedObject ev))"
  using assms by (rule deriveTransition_identity_lemma)

theorem deriveTransition_identity_witness:
  "\<exists>i t. deriveTransition zero_time zero_Pod False [sample_event ''Preempted'' 63900000002 ''m''] =
      Some (i, t) \<and> pi_UID i = ''u1'' \<and> pi_Name i = ''web''"
proof -
  let ?es = "[sample_event ''Preempted'' 63900000002 ''m'']"
  have "deriveTransition zero_time zero_Pod False ?es \<noteq> None" by code_simp
  then obtain i t where d: "deriveTransition zero_time zero_Pod False ?es = Some (i, t)" by auto
  with deriveTransition_identity [OF d] show ?thesis
    by (auto dest!: latestEventWithReason_Some simp: sample_defs)
qed

text \<open>
  When the result depends on the clock: only for a conclusive PodScheduled condition without a
  transition time for which no matching Event is known.
\<close>

definition timestamp_settled :: "Pod \<Rightarrow> Event list \<Rightarrow> bool" where
  "timestamp_settled pod events =
     (case podScheduledCondition pod of
        None \<Rightarrow> True
      | Some c \<Rightarrow> \<not> time_is_zero (pc_LastTransitionTime c) \<or>
          (pc_Status c = ConditionTrue \<longrightarrow> eventReasonScheduled \<in> ev_Reason ` set events) \<and>
          (pc_Status c = ConditionFalse \<longrightarrow> eventReasonFailedScheduling \<in> ev_Reason ` set events))"

lemma decisionTimestamp_clock_free:
  "(\<exists>c. cond = Some c \<and> \<not> time_is_zero (pc_LastTransitionTime c)) \<or> event \<noteq> None \<Longrightarrow>
     decisionTimestamp now cond event = decisionTimestamp now' cond event"
  by (auto simp: decisionTimestamp_def)

lemma transition_clock_free:
  assumes "decisionTimestamp now cond event = decisionTimestamp now' cond event"
  shows "transitionFromScheduled now pod cond event = transitionFromScheduled now' pod cond event"
    and "transitionFromFailedScheduling now pod cond event = transitionFromFailedScheduling now' pod cond event"
  using assms by (simp_all add: transitionFromScheduled_def transitionFromFailedScheduling_def)

lemma deriveFromEvents_clock_free:
  "deriveFromEvents now pod events cs = deriveFromEvents now' pod events cs"
proof -
  have "decisionTimestamp now None (Some ev) = decisionTimestamp now' None (Some ev)" for ev
    by (rule decisionTimestamp_clock_free) simp
  note stable = transition_clock_free [OF this]
  show ?thesis unfolding deriveFromEvents_def stable [of pod] ..
qed

lemma deriveFromCondition_clock_free:
  assumes "timestamp_settled pod events"
  shows "deriveFromCondition now pod events cs = deriveFromCondition now' pod events cs"
proof (cases "podScheduledCondition pod")
  case None
  then show ?thesis by (simp add: deriveFromCondition_def)
next
  case (Some c)
  have "decisionTimestamp now (Some c) (latestEventWithReason events r) =
      decisionTimestamp now' (Some c) (latestEventWithReason events r)"
    if "\<not> time_is_zero (pc_LastTransitionTime c) \<or> r \<in> ev_Reason ` set events" for r
    using that latestEventWithReason_ex [of events r] by (intro decisionTimestamp_clock_free) auto
  note stable = transition_clock_free [OF this]
  from assms Some stable show ?thesis
    by (auto simp: deriveFromCondition_def timestamp_settled_def)
qed

lemma deriveTransition_clock_free:
  assumes "timestamp_settled pod events"
  shows "deriveTransition now pod podFound events = deriveTransition now' pod podFound events"
  unfolding deriveTransition_def deriveFromCondition_clock_free [OF assms, of now _ now']
    deriveFromEvents_clock_free [of now pod events _ now'] ..

section \<open>Events of an earlier Pod with the same name\<close>

text \<open>Events of a namespace and name, re-addressed to other object UIDs.\<close>

definition reassign_uid :: "(Event \<Rightarrow> string) \<Rightarrow> Event \<Rightarrow> Event" where
  "reassign_uid u e = e\<lparr>ev_InvolvedObject := (ev_InvolvedObject e)\<lparr>or_UID := u e\<rparr>\<rparr>"

lemma reassign_uid_fields [simp]:
  "ev_Reason (reassign_uid u e) = ev_Reason e" "ev_Message (reassign_uid u e) = ev_Message e"
  "ev_UID (reassign_uid u e) = ev_UID e" "eventTimestamp (reassign_uid u e) = eventTimestamp e"
  "ev_ReportingController (reassign_uid u e) = ev_ReportingController e"
  "ev_SourceComponent (reassign_uid u e) = ev_SourceComponent e"
  by (simp_all add: reassign_uid_def eventTimestamp_def)

lemma latestEventLoop_reassign:
  "latestEventLoop reason (map_option (reassign_uid u) acc) (map (reassign_uid u) events) =
     map_option (reassign_uid u) (latestEventLoop reason acc events)"
proof (induction events arbitrary: acc)
  case (Cons e es)
  show ?case
    using Cons.IH [of acc] Cons.IH [of "Some e"] by (cases acc) simp_all
qed simp

lemma latestEventWithReason_reassign:
  "latestEventWithReason (map (reassign_uid u) events) reason =
     map_option (reassign_uid u) (latestEventWithReason events reason)"
  using latestEventLoop_reassign [of reason u None events] by (simp add: latestEventWithReason_def)

lemma derive_parts_reassign:
  "eventMessage (map_option (reassign_uid u) ev) = eventMessage ev"
  "set_event_uid (map_option (reassign_uid u) ev) t = set_event_uid ev t"
  "decisionTimestamp now cond (map_option (reassign_uid u) ev) = decisionTimestamp now cond ev"
  "schedulerNameFor (map_option (reassign_uid u) ev) pod found = schedulerNameFor ev pod found"
  by (cases ev; simp add: eventMessage_def set_event_uid_def decisionTimestamp_def schedulerNameFor_def)+

lemma derive_results_reassign:
  "identityFromPod pod (map_option (reassign_uid u) ev) = identityFromPod pod ev"
  "transitionFromScheduled now pod cond (map_option (reassign_uid u) ev) = transitionFromScheduled now pod cond ev"
  "transitionFromFailedScheduling now pod cond (map_option (reassign_uid u) ev) =
     transitionFromFailedScheduling now pod cond ev"
  by (simp_all add: identityFromPod_def transitionFromScheduled_def transitionFromFailedScheduling_def
      derive_parts_reassign)

lemma preemption_reassign:
  "identityAndTransitionFromPreemption pod True (reassign_uid u ev) = identityAndTransitionFromPreemption pod True ev"
  using derive_parts_reassign(2,4) [of u "Some ev"]
  by (simp add: identityAndTransitionFromPreemption_def Let_def)

lemma candidateNodesFrom_reassign:
  "candidateNodesFrom (map (reassign_uid u) events) = candidateNodesFrom events"
  by (simp add: candidateNodesFrom_def latestEventWithReason_reassign split: option.split)

text \<open>
  C38: while a Pod of that name exists, \<open>deriveTransition\<close> is blind to which Pod an Event is about:
  rewriting the UIDs of the involved objects changes nothing. In particular a Preempted Event
  of an earlier Pod with the same name makes the new Pod's record say Preempted, whatever its
  own condition is.
\<close>

theorem deriveTransition_uid_blind:
  "deriveTransition now pod True (map (reassign_uid u) events) = deriveTransition now pod True events"
proof -
  have sched: "identityFromPod pod (Some (reassign_uid u e)) = identityFromPod pod (Some e)"
    "transitionFromScheduled now pod cond (Some (reassign_uid u e)) = transitionFromScheduled now pod cond (Some e)"
    "transitionFromFailedScheduling now pod cond (Some (reassign_uid u e)) =
       transitionFromFailedScheduling now pod cond (Some e)" for e cond
    using derive_results_reassign [where u = u and ev = "Some e"] by simp_all
  show ?thesis
    by (simp add: deriveTransition_def deriveFromCondition_def deriveFromEvents_def Let_def sched
        latestEventWithReason_reassign preemption_reassign candidateNodesFrom_reassign
        derive_results_reassign split: option.split)
qed

section \<open>Recorded statuses\<close>

text \<open>The status fields mirror the last transition of the history; no history, no outcome.\<close>

definition status_mirrors :: "SchedulingDecisionStatus \<Rightarrow> bool" where
  "status_mirrors st =
     (if st_Transitions st = [] then st = zero_Status
      else let l = last (st_Transitions st) in
        st_Outcome st = tr_Outcome l \<and> st_ChosenNode st = tr_ChosenNode l \<and>
        st_ReasonSummary st = tr_ReasonSummary l \<and>
        st_DecisionTimestamp st = tr_DecisionTimestamp l \<and>
        st_SchedulingLatencyMs st = tr_SchedulingLatencyMs l)"

lemma applyTransition_Transitions [simp]:
  "st_Transitions (applyTransition st t) = st_Transitions st @ [t]"
  by (simp add: applyTransition_def)

lemma applyTransition_mirrors [simp, intro]: "status_mirrors (applyTransition st t)"
  by (simp add: status_mirrors_def applyTransition_def)

lemma foldl_applyTransition:
  "st_Transitions (foldl applyTransition st ts) = st_Transitions st @ ts"
  by (induction ts arbitrary: st) simp_all

lemma status_mirrors_zero [simp]: "status_mirrors zero_Status"
  by (simp add: status_mirrors_def zero_Status_def)

lemma status_ext:
  "st_Transitions a = st_Transitions b \<Longrightarrow> status_mirrors a \<Longrightarrow> status_mirrors b \<Longrightarrow> a = b"
  by (cases "st_Transitions b = []")
    (auto simp: status_mirrors_def Let_def intro: SchedulingDecisionStatus.equality)

text \<open>
  C27: a status is the replay of its history. Applying any list of transitions to the empty status
  with \<open>applyTransition\<close> gives a status whose history is that list and whose outcome fields
  mirror its last entry, and every status with that mirror property is obtained this way.
\<close>

theorem status_is_replay:
  "status_mirrors st \<longleftrightarrow> st = foldl applyTransition zero_Status (st_Transitions st)"
proof
  have replay: "status_mirrors (foldl applyTransition zero_Status ts)" for ts
    by (cases ts rule: rev_cases) simp_all
  show "st = foldl applyTransition zero_Status (st_Transitions st)" if "status_mirrors st"
    by (rule status_ext [OF _ that replay]) (simp add: foldl_applyTransition zero_Status_def)
  show "status_mirrors st" if "st = foldl applyTransition zero_Status (st_Transitions st)"
    by (subst that) (rule replay)
qed

lemma transitionsEqual_refl [simp]: "transitionsEqual t t"
  by (simp add: transitionsEqual_def)

lemma decisionName_inj [simp]: "decisionName u = decisionName u' \<longleftrightarrow> u = u'"
  by (simp add: decisionName_def)

end
