(* ===== verification/Watch.thy ===== *)
theory Watch
  imports Decision
begin

text \<open>
  Constants of \<open>controllers/schedulingdecision_controller.go\<close> and the event routing that
  \<open>SetupWithManager\<close> registers: the field index on Events, the watch predicate and the mapping
  from an Event to a reconcile request. The theorem says that the three agree: an Event that
  passes the predicate is found again by the reconcile it triggers.
\<close>

definition podUIDLabel :: string where
  "podUIDLabel = ''scheduling.purestorage.io/pod-uid''"

text \<open>72 hours in nanoseconds.\<close>

definition DefaultRetentionWindow :: int where
  "DefaultRetentionWindow = 72 * 3600 * 1000000000"

definition relevantEventReasons :: "string list" where
  "relevantEventReasons = [eventReasonScheduled, eventReasonFailedScheduling,
     eventReasonPreempted, eventReasonCandidateNodes]"

text \<open>The index function of \<open>SetupWithManager\<close>: the values an Event is indexed under.\<close>

definition eventInvolvedObjectIndexer :: "Event \<Rightarrow> string list" where
  "eventInvolvedObjectIndexer event =
     (if or_Kind (ev_InvolvedObject event) \<noteq> podKind then []
      else [or_Namespace (ev_InvolvedObject event) @ ''/'' @ or_Name (ev_InvolvedObject event)])"

definition mapEventToPodRequest :: "Event \<Rightarrow> NamespacedName list" where
  "mapEventToPodRequest event =
     [\<lparr>nn_Namespace = or_Namespace (ev_InvolvedObject event),
       nn_Name = or_Name (ev_InvolvedObject event)\<rparr>]"

definition relevantEventPredicate :: "Event \<Rightarrow> bool" where
  "relevantEventPredicate event =
     (if or_Kind (ev_InvolvedObject event) \<noteq> podKind then False
      else ev_Reason event \<in> set relevantEventReasons)"

text \<open>The loop of \<open>listRelevantEvents\<close> that keeps the Events with a known reason.\<close>

definition keepRelevant :: "Event list \<Rightarrow> Event list" where
  "keepRelevant items = filter (\<lambda>e. ev_Reason e \<in> set relevantEventReasons) items"

text \<open>
  What a List with \<open>InNamespace\<close> and \<open>MatchingFields\<close> selects from the Events of the cache.
\<close>

definition indexed_events :: "Event list \<Rightarrow> string \<Rightarrow> string \<Rightarrow> Event list" where
  "indexed_events cache ns key =
     filter (\<lambda>e. ev_Namespace e = ns \<and> key \<in> set (eventInvolvedObjectIndexer e)) cache"

lemma keepRelevant_latest:
  assumes "reason \<in> set relevantEventReasons"
  shows "latestEventWithReason (keepRelevant events) reason = latestEventWithReason events reason"
  unfolding latestEventWithReason_def keepRelevant_def
  using latestEventLoop_filter [of "\<lambda>r. r \<in> set relevantEventReasons" reason None events] assms
  by simp

lemma reasons_relevant:
  "eventReasonScheduled \<in> set relevantEventReasons"
  "eventReasonFailedScheduling \<in> set relevantEventReasons"
  "eventReasonPreempted \<in> set relevantEventReasons"
  "eventReasonCandidateNodes \<in> set relevantEventReasons"
  by (simp_all add: relevantEventReasons_def)

lemmas keepRelevant_latests = reasons_relevant [THEN keepRelevant_latest]

lemma keepRelevant_derive:
  "deriveTransition now pod podFound (keepRelevant events) = deriveTransition now pod podFound events"
  unfolding deriveTransition_def deriveFromCondition_def deriveFromEvents_def
    candidateNodesFrom_def keepRelevant_latests ..

text \<open>
  The filter of \<open>listRelevantEvents\<close> loses nothing: deriving the transition from the
  filtered Events gives exactly what deriving it from all of the Pod's Events would give.
\<close>

theorem keepRelevant_lossless:
  "deriveTransition now pod podFound (keepRelevant events) = deriveTransition now pod podFound events"
  by (rule keepRelevant_derive)

text \<open>
  C31: watch and index agree. When every Event lies in the namespace of the object it involves (as
  the API server requires), a cached Event passes the watch predicate exactly when the reconcile
  of the request it is mapped to finds it through the field index and keeps it.
\<close>

theorem watch_index_coherent:
  assumes "\<forall>e\<in>set cache. ev_Namespace e = or_Namespace (ev_InvolvedObject e)"
    and "mapEventToPodRequest event = [req]" and "event \<in> set cache"
  shows "relevantEventPredicate event \<longleftrightarrow>
    event \<in> set (keepRelevant (indexed_events cache (nn_Namespace req) (nn_string req)))"
  using assms
  by (auto simp: relevantEventPredicate_def keepRelevant_def indexed_events_def
      eventInvolvedObjectIndexer_def mapEventToPodRequest_def nn_string_def)

theorem watch_index_coherent_witness:
  "relevantEventPredicate (sample_event ''Scheduled'' 5 ''m'') \<and>
   sample_event ''Scheduled'' 5 ''m'' \<in> set (keepRelevant (indexed_events
     [sample_event ''Pulled'' 4 ''m'', sample_event ''Scheduled'' 5 ''m''] ''ns'' ''ns/web'')) \<and>
   \<not> relevantEventPredicate (sample_event ''Pulled'' 4 ''m'')"
proof -
  let ?req = "\<lparr>nn_Namespace = ''ns'', nn_Name = ''web''\<rparr>"
    and ?s = "sample_event ''Scheduled'' 5 ''m''" and ?p = "sample_event ''Pulled'' 4 ''m''"
  have "relevantEventPredicate ?s" "\<not> relevantEventPredicate ?p"
    by (simp_all add: relevantEventPredicate_def sample_defs podKind_def relevantEventReasons_def
        reason_defs)
  with watch_index_coherent [of "[?p, ?s]" ?s ?req] show ?thesis
    by (simp add: sample_defs mapEventToPodRequest_def nn_string_def)
qed

end
