(* ===== verification/Volume_Context.thy ===== *)
theory Volume_Context
  imports Kube_Api
begin

text \<open>
  \<open>controllers/volumecontext.go\<close>: the volume context of a Pod, from its volumes over the
  claim and its storage class to the provisioner's driver label. The two methods that call the
  API take the environment and the world and return the result with the next world.
\<close>

definition provisionerDriverLabels :: "string \<rightharpoonup> string" where
  "provisionerDriverLabels = map_of
     [(''csi.purestorage.com'', ''FADA''),
      (''pxd.portworx.com'', ''PX-CSI''),
      (''csi.vsphere.vmware.com'', ''vsphere-csi''),
      (''kubernetes.io/aws-ebs'', ''aws-ebs''),
      (''ebs.csi.aws.com'', ''aws-ebs-csi''),
      (''disk.csi.azure.com'', ''azure-disk-csi''),
      (''pd.csi.storage.gke.io'', ''gce-pd-csi'')]"

definition driverLabelForProvisioner :: "string \<Rightarrow> string" where
  "driverLabelForProvisioner provisioner =
     (case provisionerDriverLabels provisioner of Some label \<Rightarrow> label | None \<Rightarrow> provisioner)"

definition summarizeTopology :: "TopologySelectorTerm list \<Rightarrow> string" where
  "summarizeTopology terms =
     str_join ''; ''
       (concat (map (\<lambda>term. map (\<lambda>expr. tq_Key expr @ '' in ('' @ str_join '','' (tq_Values expr) @ '')'')
                                (ts_MatchLabelExpressions term)) terms))"

definition volumeContextFromPVC ::
    "'w env \<Rightarrow> PersistentVolumeClaim \<Rightarrow> 'w \<Rightarrow> (go_error, VolumeContext) result \<times> 'w" where
  "volumeContextFromPVC E pvc w =
     (let volCtx = \<lparr>vc_PVCName = pvc_Name pvc, vc_StorageClass = '''', vc_DriverType = '''',
                    vc_BindingMode = '''', vc_TopologyConstraint = ''''\<rparr>
      in case pvc_StorageClassName pvc of
           None \<Rightarrow> (Inr volCtx, w)
         | Some className \<Rightarrow>
             if className = '''' then (Inr volCtx, w)
             else
               (let volCtx = volCtx\<lparr>vc_StorageClass := className\<rparr>
                in case GetStorageClass E className w of
                     (Inl err, w') \<Rightarrow>
                       if err = NotFound then (Inr volCtx, w')
                       else (Inl (Wrapf (''getting StorageClass '' @ className) (ApiErr err)), w')
                   | (Inr sc, w') \<Rightarrow>
                       (let volCtx = volCtx\<lparr>vc_DriverType := driverLabelForProvisioner (sc_Provisioner sc)\<rparr>;
                            volCtx = (case sc_VolumeBindingMode sc of
                                        None \<Rightarrow> volCtx
                                      | Some mode \<Rightarrow> volCtx\<lparr>vc_BindingMode := mode\<rparr>)
                        in (Inr (volCtx\<lparr>vc_TopologyConstraint :=
                                    summarizeTopology (sc_AllowedTopologies sc)\<rparr>), w'))))"

text \<open>The loop over the Pod's volumes.\<close>

fun resolveVolumeLoop ::
    "'w env \<Rightarrow> Pod \<Rightarrow> Volume list \<Rightarrow> 'w \<Rightarrow> (go_error, VolumeContext option) result \<times> 'w" where
  "resolveVolumeLoop E pod [] w = (Inr None, w)"
| "resolveVolumeLoop E pod (vol # vols) w =
     (case vol_PersistentVolumeClaim vol of
        None \<Rightarrow> resolveVolumeLoop E pod vols w
      | Some claimName \<Rightarrow>
          (let pvcKey = \<lparr>nn_Namespace = pod_Namespace pod, nn_Name = claimName\<rparr>
           in case GetPVC E pvcKey w of
                (Inl err, w') \<Rightarrow>
                  if err = NotFound then resolveVolumeLoop E pod vols w'
                  else (Inl (Wrapf (''getting PVC '' @ nn_string pvcKey) (ApiErr err)), w')
              | (Inr pvc, w') \<Rightarrow>
                  (case volumeContextFromPVC E pvc w' of
                     (Inl err, w'') \<Rightarrow> (Inl err, w'')
                   | (Inr volCtx, w'') \<Rightarrow> (Inr (Some volCtx), w''))))"

definition resolveVolumeContext ::
    "'w env \<Rightarrow> Pod \<Rightarrow> 'w \<Rightarrow> (go_error, VolumeContext option) result \<times> 'w" where
  "resolveVolumeContext E pod w = resolveVolumeLoop E pod (pod_Volumes pod) w"

section \<open>Resolution\<close>

text \<open>The claims of a Pod, in volume order, as the keys the loop looks up.\<close>

definition claim_keys :: "Pod \<Rightarrow> NamespacedName list" where
  "claim_keys pod =
     map (\<lambda>c. \<lparr>nn_Namespace = pod_Namespace pod, nn_Name = c\<rparr>)
       (List.map_filter vol_PersistentVolumeClaim (pod_Volumes pod))"

lemma resolveVolumeLoop_find:
  assumes "\<And>k w. GetPVC E k w = (pvcs k, w)"
  shows "resolveVolumeLoop E pod vols w =
    (case find (\<lambda>k. pvcs k \<noteq> Inl NotFound)
            (map (\<lambda>c. \<lparr>nn_Namespace = pod_Namespace pod, nn_Name = c\<rparr>)
               (List.map_filter vol_PersistentVolumeClaim vols)) of
       None \<Rightarrow> (Inr None, w)
     | Some k \<Rightarrow>
         (case pvcs k of
            Inl err \<Rightarrow> (Inl (Wrapf (''getting PVC '' @ nn_string k) (ApiErr err)), w)
          | Inr pvc \<Rightarrow> map_prod (map_sum id Some) id (volumeContextFromPVC E pvc w)))"
  by (induction vols)
    (auto simp: assms Let_def List.map_filter_def map_prod_def split: option.split sum.split prod.split)

text \<open>
  C32: \<open>resolveVolumeContext\<close> uses the first claim, in volume order, that is not reported missing:
  it is the one whose context (or whose API error) is returned; a Pod whose claims are all
  missing, or that has none, gets no context and no error. The claims skipped over may well be
  claims of the Pod: a missing first claim makes a later one count.
\<close>

theorem resolveVolumeContext_first_existing:
  assumes "\<And>k w. GetPVC E k w = (pvcs k, w)"
  shows "resolveVolumeContext E pod w =
    (case find (\<lambda>k. pvcs k \<noteq> Inl NotFound) (claim_keys pod) of
       None \<Rightarrow> (Inr None, w)
     | Some k \<Rightarrow>
         (case pvcs k of
            Inl err \<Rightarrow> (Inl (Wrapf (''getting PVC '' @ nn_string k) (ApiErr err)), w)
          | Inr pvc \<Rightarrow> map_prod (map_sum id Some) id (volumeContextFromPVC E pvc w)))"
  unfolding resolveVolumeContext_def claim_keys_def by (rule resolveVolumeLoop_find) (rule assms)

theorem resolveVolumeContext_first_existing_witness:
  "\<exists>E :: unit env. fst (resolveVolumeContext E sample_pod ()) =
     Inr (Some \<lparr>vc_PVCName = ''data'', vc_StorageClass = '''', vc_DriverType = '''',
                vc_BindingMode = '''', vc_TopologyConstraint = ''''\<rparr>)"
proof -
  define pvcs :: "NamespacedName \<Rightarrow> (api_error, PersistentVolumeClaim) result" where
    "pvcs = (\<lambda>k. if nn_Name k = ''data''
       then Inr \<lparr>pvc_Namespace = ''ns'', pvc_Name = ''data'', pvc_StorageClassName = None\<rparr>
       else Inl NotFound)"
  define E :: "unit env" where "E = down_env\<lparr>GetPVC := \<lambda>k w. (pvcs k, w)\<rparr>"
  have "GetPVC E k w = (pvcs k, w)" for k w by (simp add: E_def)
  from resolveVolumeContext_first_existing [of E pvcs sample_pod "()", OF this] show ?thesis
    by (intro exI [of _ E])
      (simp add: claim_keys_def sample_pod_def List.map_filter_def pvcs_def volumeContextFromPVC_def)
qed

text \<open>
  Resolving a claim fails exactly when its storage class is named and the lookup fails with an
  error other than NotFound, and the error names the class; an unnamed or missing class
  is no error.
\<close>

theorem volumeContextFromPVC_error_iff:
  "fst (volumeContextFromPVC E pvc w) = Inl err \<longleftrightarrow>
    (\<exists>c e. pvc_StorageClassName pvc = Some c \<and> c \<noteq> '''' \<and> fst (GetStorageClass E c w) = Inl e \<and>
       e \<noteq> NotFound \<and> err = Wrapf (''getting StorageClass '' @ c) (ApiErr e))"
  by (auto simp: volumeContextFromPVC_def Let_def split: option.splits prod.splits sum.splits)

text \<open>
  Exactly the provisioners of the table are relabelled, every other one is reported as it is,
  and no two provisioners of the table share a label.
\<close>

theorem driverLabelForProvisioner_spec:
  "{p. driverLabelForProvisioner p \<noteq> p} = dom provisionerDriverLabels \<and>
   inj_on driverLabelForProvisioner (dom provisionerDriverLabels)"
proof
  have labels: "provisionerDriverLabels p = Some l \<Longrightarrow> l \<noteq> p" for p l
    by (auto simp: provisionerDriverLabels_def split: if_splits)
  then show "{p. driverLabelForProvisioner p \<noteq> p} = dom provisionerDriverLabels"
    by (auto simp: driverLabelForProvisioner_def dom_def split: option.split)
  show "inj_on driverLabelForProvisioner (dom provisionerDriverLabels)"
    by (simp add: driverLabelForProvisioner_def provisionerDriverLabels_def)
qed

end
