(* ===== verification/Decision_Store.thy ===== *)
theory Decision_Store
  imports Watch Volume_Context
begin

text \<open>
  The contract between the program and the API server about SchedulingDecision objects. The
  server is seen through an abstract store: the live objects by name, and every version of an
  object the server ever accepted, by name and resource version. Reads may be stale (any past
  version), writes are checked against the resource version, a write that fails may still have
  taken effect (its answer may have been lost), and other actors may change the
  store between two calls as long as they respect the relation \<open>rely\<close>: from a store that
  satisfies the invariant they keep it and forget no accepted version, and unless deletions are
  allowed (\<open>del\<close>) they keep every live object and only extend its history. Deletions are what
  the retention sweep does. The locale \<open>shared_env\<close> is that contract; \<open>quiet_env\<close> adds to its
  instance without deletions that nobody else is active, that reads are current and that every
  call on decisions is answered: a get of a live decision, the creation of a missing one and an
  update of the live version succeed. (\<open>sole_env\<close> of \<open>Refinement\<close> does without the latter.) The
  reconciler is proved against these locales, and itself guarantees \<open>rely\<close>, so any number of
  its replicas can run together.
\<close>

section \<open>Retrying\<close>

text \<open>
  The documented behaviour of \<open>retry.OnError\<close> with a backoff of \<open>n\<close> steps: the function runs
  until it succeeds, fails with an error that is not retriable, or has run \<open>n\<close> times; the last
  error is returned.
\<close>

fun retry_attempts ::
    "nat \<Rightarrow> ('e \<Rightarrow> bool) \<Rightarrow> ('w \<Rightarrow> 'e option \<times> 'w) \<Rightarrow> 'w \<Rightarrow> 'e option \<times> 'w" where
  "retry_attempts 0 p f w = (None, w)"
| "retry_attempts (Suc n) p f w =
     (case f w of
        (None, w') \<Rightarrow> (None, w')
      | (Some e, w') \<Rightarrow> if p e \<and> 0 < n then retry_attempts n p f w' else (Some e, w'))"

locale retry_env =
  fixes E :: "'w env" and steps :: nat
  assumes steps_pos: "0 < steps"
    and OnError_attempts: "OnError E p f w = retry_attempts steps p f w"

text \<open>A reflexive and transitive relation that every attempt respects is respected by the retries.\<close>

lemma retry_attempts_rel:
  assumes "\<And>w. R w w" and "\<And>a b c. R a b \<Longrightarrow> R b c \<Longrightarrow> R a c" and "\<And>w. R w (snd (f w))"
  shows "R w (snd (retry_attempts n p f w))"
proof (induction n arbitrary: w)
  case 0
  then show ?case by (simp add: assms(1))
next
  case (Suc n)
  obtain r w' where f: "f w = (r, w')" by force
  with assms(3) [of w] have step: "R w w'" by simp
  show ?case using f step Suc.IH [of w'] by (auto split: option.split intro: assms(2))
qed

text \<open>A successful retry ends with a successful attempt, in a world the relation leads to.\<close>

lemma retry_attempts_success:
  assumes "\<And>w. R w w" and "\<And>a b c. R a b \<Longrightarrow> R b c \<Longrightarrow> R a c" and "\<And>w. R w (snd (f w))"
    and "0 < n" and "retry_attempts n p f w = (None, w')"
  shows "\<exists>w1. R w w1 \<and> f w1 = (None, w')"
  using assms(4,5)
proof (induction n arbitrary: w)
  case 0
  then show ?case by simp
next
  case (Suc n)
  obtain r w2 where f: "f w = (r, w2)" by force
  with assms(3) [of w] have step: "R w w2" by simp
  show ?case
  proof (cases r)
    case None
    with f Suc.prems show ?thesis using assms(1) by auto
  next
    case (Some e)
    with f Suc.prems have "0 < n" and "retry_attempts n p f w2 = (None, w')"
      by (auto split: if_splits)
    from Suc.IH [OF this] step show ?thesis using assms(2) by blast
  qed
qed

text \<open>The world after \<open>k\<close> calls of an attempt.\<close>

definition after_attempts :: "('w \<Rightarrow> 'e option \<times> 'w) \<Rightarrow> nat \<Rightarrow> 'w \<Rightarrow> 'w" where
  "after_attempts f k w = ((\<lambda>w. snd (f w)) ^^ k) w"

lemma after_attempts_simps [simp]:
  "after_attempts f 0 w = w"
  "after_attempts f (Suc k) w = after_attempts f k (snd (f w))"
  by (simp_all add: after_attempts_def funpow_Suc_right del: funpow.simps(2))

text \<open>The first attempt that does not fail retriably decides, if it is within the limit.\<close>

lemma retry_attempts_decides:
  assumes "k < n" and "\<And>j. j < k \<Longrightarrow> \<exists>e. fst (f (after_attempts f j w)) = Some e \<and> p e"
    and "k = n - 1 \<or> (\<forall>e. fst (f (after_attempts f k w)) = Some e \<longrightarrow> \<not> p e)"
  shows "retry_attempts n p f w = f (after_attempts f k w)"
  using assms
proof (induction n arbitrary: k w)
  case 0
  then show ?case by simp
next
  case (Suc n)
  obtain res w1 where f: "f w = (res, w1)" by force
  show ?case
  proof (cases k)
    case 0
    with Suc.prems(3) f show ?thesis by (auto split: option.split)
  next
    case (Suc k')
    with Suc.prems(2) [of 0] f obtain e where "res = Some e" "p e" by auto
    moreover have "retry_attempts n p f w1 = f (after_attempts f k' w1)"
    proof (rule Suc.IH)
      show "\<exists>e. fst (f (after_attempts f j w1)) = Some e \<and> p e" if "j < k'" for j
        using Suc.prems(2) [of "Suc j"] that Suc f by simp
    qed (use Suc.prems Suc f in auto)
    ultimately show ?thesis using f Suc Suc.prems(1) by simp
  qed
qed

section \<open>What the server stores of a written object\<close>

text \<open>
  Timestamps go over the wire in the format of \<open>metav1.Time\<close>; \<open>ptime\<close> is what is left of a
  time after that.
\<close>

definition persist_transition :: "(gotime \<Rightarrow> gotime) \<Rightarrow> SchedulingTransition \<Rightarrow> SchedulingTransition" where
  "persist_transition ptime t = t\<lparr>tr_DecisionTimestamp := ptime (tr_DecisionTimestamp t)\<rparr>"

definition persist_status :: "(gotime \<Rightarrow> gotime) \<Rightarrow> SchedulingDecisionStatus \<Rightarrow> SchedulingDecisionStatus" where
  "persist_status ptime st =
     st\<lparr>st_DecisionTimestamp := ptime (st_DecisionTimestamp st),
        st_Transitions := map (persist_transition ptime) (st_Transitions st)\<rparr>"

definition with_version :: "string \<Rightarrow> SchedulingDecision \<Rightarrow> SchedulingDecision" where
  "with_version v d = d\<lparr>sd_ObjectMeta := (sd_ObjectMeta d)\<lparr>om_ResourceVersion := v\<rparr>\<rparr>"

lemma with_version_fields [simp]:
  "decision_name_of (with_version v d) = decision_name_of d"
  "labels_of (with_version v d) = labels_of d"
  "version_of (with_version v d) = v"
  "sd_Spec (with_version v d) = sd_Spec d"
  "sd_Status (with_version v d) = sd_Status d"
  by (simp_all add: with_version_def)

lemma persist_transition_fields [simp]:
  "tr_Outcome (persist_transition ptime t) = tr_Outcome t"
  "tr_ChosenNode (persist_transition ptime t) = tr_ChosenNode t"
  "tr_ReasonSummary (persist_transition ptime t) = tr_ReasonSummary t"
  "tr_DecisionTimestamp (persist_transition ptime t) = ptime (tr_DecisionTimestamp t)"
  "tr_SchedulingLatencyMs (persist_transition ptime t) = tr_SchedulingLatencyMs t"
  by (simp_all add: persist_transition_def)

lemma persist_status_Transitions [simp]:
  "st_Transitions (persist_status ptime st) = map (persist_transition ptime) (st_Transitions st)"
  by (simp add: persist_status_def)

lemma persist_status_mirrors:
  "status_mirrors st \<Longrightarrow> st_Transitions st \<noteq> [] \<Longrightarrow> status_mirrors (persist_status ptime st)"
  by (simp add: status_mirrors_def persist_status_def Let_def last_map)

section \<open>The versioned store\<close>

record vstore =
  vs_live :: "string \<rightharpoonup> SchedulingDecision"
  vs_past :: "string \<times> string \<rightharpoonup> SchedulingDecision"

definition vs_commit :: "SchedulingDecision \<Rightarrow> vstore \<Rightarrow> vstore" where
  "vs_commit d s =
     s\<lparr>vs_live := (vs_live s)(decision_name_of d \<mapsto> d),
       vs_past := (vs_past s)((decision_name_of d, version_of d) \<mapsto> d)\<rparr>"

text \<open>A transition fit for the history: its outcome is set and only a Scheduled one names a node.\<close>

definition sound_transition :: "SchedulingTransition \<Rightarrow> bool" where
  "sound_transition t \<longleftrightarrow> tr_Outcome t \<noteq> OutcomeUnset \<and>
     (tr_ChosenNode t = '''' \<or> tr_Outcome t = SchedulingOutcomeScheduled)"

text \<open>The invariant of one object and of the store.\<close>

definition decision_inv :: "(gotime \<Rightarrow> gotime) \<Rightarrow> string \<Rightarrow> SchedulingDecision \<Rightarrow> bool" where
  "decision_inv ptime n d \<longleftrightarrow>
     decision_name_of d = n \<and> n = decisionName (sp_PodUID (sd_Spec d)) \<and>
     labels_of d podUIDLabel = Some (sp_PodUID (sd_Spec d)) \<and>
     (\<exists>x. int64 x \<and> labels_of d ExpiresAtLabel = Some (format_int x)) \<and>
     status_mirrors (sd_Status d) \<and>
     (\<forall>t\<in>set (history_of d). sound_transition t \<and> ptime (tr_DecisionTimestamp t) = tr_DecisionTimestamp t)"

text \<open>One object followed by a later version of it, and by one with exactly one more transition.\<close>

definition succeeds :: "SchedulingDecision \<Rightarrow> SchedulingDecision \<Rightarrow> bool" where
  "succeeds d d' \<longleftrightarrow> decision_name_of d' = decision_name_of d \<and> labels_of d' = labels_of d \<and>
     sd_Spec d' = sd_Spec d \<and> prefix (history_of d) (history_of d')"

definition one_step :: "SchedulingDecision \<Rightarrow> SchedulingDecision \<Rightarrow> bool" where
  "one_step d d' \<longleftrightarrow> succeeds d d' \<and> length (history_of d') = Suc (length (history_of d))"

text \<open>
  The invariant of the store: live objects are known versions, every version is well formed, and
  every version has a lineage: it was created empty, or adds one transition to a known version.
\<close>

definition vstore_inv :: "(gotime \<Rightarrow> gotime) \<Rightarrow> vstore \<Rightarrow> bool" where
  "vstore_inv ptime s \<longleftrightarrow>
     (\<forall>n d. vs_live s n = Some d \<longrightarrow> vs_past s (n, version_of d) = Some d) \<and>
     (\<forall>n v d. vs_past s (n, v) = Some d \<longrightarrow> version_of d = v \<and> decision_inv ptime n d \<and>
        (history_of d = [] \<or> (\<exists>u d0. vs_past s (n, u) = Some d0 \<and> one_step d0 d)))"

text \<open>The store followed by a later store, with or without deletions.\<close>

definition evolves :: "bool \<Rightarrow> vstore \<Rightarrow> vstore \<Rightarrow> bool" where
  "evolves del s s' \<longleftrightarrow> vs_past s \<subseteq>\<^sub>m vs_past s' \<and>
     (del \<or> (\<forall>n d. vs_live s n = Some d \<longrightarrow> (\<exists>d'. vs_live s' n = Some d' \<and> succeeds d d')))"

definition rely :: "bool \<Rightarrow> (gotime \<Rightarrow> gotime) \<Rightarrow> vstore \<Rightarrow> vstore \<Rightarrow> bool" where
  "rely del ptime s s' \<longleftrightarrow> (vstore_inv ptime s \<longrightarrow> evolves del s s' \<and> vstore_inv ptime s')"

lemma succeeds_refl [simp]: "succeeds d d"
  by (simp add: succeeds_def)

lemma succeeds_trans: "succeeds a b \<Longrightarrow> succeeds b c \<Longrightarrow> succeeds a c"
  by (auto simp: succeeds_def intro: prefix_order.trans)

lemma evolves_refl [simp]: "evolves del s s"
  by (simp add: evolves_def)

lemma evolves_trans: "evolves del a b \<Longrightarrow> evolves del b c \<Longrightarrow> evolves del a c"
  unfolding evolves_def by (meson map_le_trans succeeds_trans)

lemma rely_refl [simp, intro]: "rely del ptime s s"
  by (simp add: rely_def)

lemma rely_trans [trans]: "rely del ptime a b \<Longrightarrow> rely del ptime b c \<Longrightarrow> rely del ptime a c"
  unfolding rely_def by (meson evolves_trans)

lemma evolves_past: "evolves del s s' \<Longrightarrow> vs_past s k = Some d \<Longrightarrow> vs_past s' k = Some d"
  unfolding evolves_def map_le_def by (metis domI)

lemma relyD: "rely del ptime s s' \<Longrightarrow> vstore_inv ptime s \<Longrightarrow> evolves del s s' \<and> vstore_inv ptime s'"
  by (simp add: rely_def)

lemma rely_past:
  "rely del ptime s s' \<Longrightarrow> vstore_inv ptime s \<Longrightarrow> vs_past s k = Some d \<Longrightarrow> vs_past s' k = Some d"
  by (blast dest: relyD evolves_past)

lemma vstore_inv_commit:
  assumes "vstore_inv ptime s" and "decision_inv ptime (decision_name_of d) d"
    and fresh: "vs_past s (decision_name_of d, version_of d) = None"
    and "history_of d = [] \<or> (\<exists>u d0. vs_past s (decision_name_of d, u) = Some d0 \<and> one_step d0 d)"
  shows "vstore_inv ptime (vs_commit d s)"
proof -
  have keep: "vs_past (vs_commit d s) (n, u) = Some d0" if "vs_past s (n, u) = Some d0" for n u d0
    using that fresh by (auto simp: vs_commit_def)
  show ?thesis
    unfolding vstore_inv_def
  proof (intro conjI allI impI)
    show "vs_past (vs_commit d s) (n, version_of e) = Some e" if "vs_live (vs_commit d s) n = Some e" for n e
      using that assms(1) keep by (auto simp: vs_commit_def vstore_inv_def split: if_splits)
  next
    fix n v e assume e: "vs_past (vs_commit d s) (n, v) = Some e"
    show "version_of e = v" "decision_inv ptime n e"
      using e assms(1,2) by (auto simp: vs_commit_def vstore_inv_def split: if_splits)
    show "history_of e = [] \<or> (\<exists>u d0. vs_past (vs_commit d s) (n, u) = Some d0 \<and> one_step d0 e)"
    proof (cases "(n, v) = (decision_name_of d, version_of d)")
      case True
      with e have "e = d" "n = decision_name_of d" by (simp_all add: vs_commit_def)
      with assms(4) keep show ?thesis by blast
    next
      case False
      with e have "vs_past s (n, v) = Some e" by (auto simp: vs_commit_def)
      with assms(1) keep show ?thesis unfolding vstore_inv_def by blast
    qed
  qed
qed

text \<open>Committing a new object, or a successor of the live one, under a fresh version.\<close>

lemma rely_commit:
  assumes "vs_past s (decision_name_of d, version_of d) = None"
    and "\<And>cur. vstore_inv ptime s \<Longrightarrow> vs_live s (decision_name_of d) = Some cur \<Longrightarrow> succeeds cur d"
    and "vstore_inv ptime s \<Longrightarrow> decision_inv ptime (decision_name_of d) d"
    and "vstore_inv ptime s \<Longrightarrow>
      history_of d = [] \<or> (\<exists>u d0. vs_past s (decision_name_of d, u) = Some d0 \<and> one_step d0 d)"
  shows "rely del ptime s (vs_commit d s)"
  unfolding rely_def
proof (intro impI conjI)
  assume inv: "vstore_inv ptime s"
  from inv assms(1,2) show "evolves del s (vs_commit d s)"
    unfolding evolves_def vs_commit_def map_le_def by (auto simp: domIff)
  from inv assms show "vstore_inv ptime (vs_commit d s)" by (simp add: vstore_inv_commit)
qed

text \<open>Following the lineage of a version back to the creation of its object.\<close>

lemma vstore_lineage:
  assumes "vstore_inv ptime s" and "vs_past s (n, v) = Some d" and "k \<le> length (history_of d)"
  shows "\<exists>u d0. vs_past s (n, u) = Some d0 \<and> succeeds d0 d \<and> history_of d0 = take k (history_of d)"
  using assms(2,3)
proof (induction "length (history_of d) - k" arbitrary: d v)
  case 0
  then show ?case by (intro exI [of _ v] exI [of _ d]) simp
next
  case (Suc j)
  from assms(1) Suc.prems(1) Suc.hyps(2) obtain u d1
    where d1: "vs_past s (n, u) = Some d1" "one_step d1 d"
    unfolding vstore_inv_def by fastforce
  then have len: "length (history_of d) = Suc (length (history_of d1))" by (simp add: one_step_def)
  with Suc.hyps(2) have "j = length (history_of d1) - k" "k \<le> length (history_of d1)" by simp_all
  from Suc.hyps(1) [OF this(1) d1(1) this(2)] obtain u0 d0 where
    d0: "vs_past s (n, u0) = Some d0" "succeeds d0 d1" "history_of d0 = take k (history_of d1)"
    by blast
  from d0(2) d1(2) have "succeeds d0 d" by (auto simp: one_step_def intro: succeeds_trans)
  moreover have "take k (history_of d1) = take k (history_of d)"
    using d1(2) \<open>k \<le> length (history_of d1)\<close> by (auto simp: one_step_def succeeds_def prefix_def)
  ultimately show ?case using d0 by auto
qed

section \<open>The contracts\<close>

text \<open>
  The effect of a create and of a status update: others may act before it, then the new version is
  committed, a create under a name that is free, an update against the version it carries. A write
  that reports an error may have taken effect all the same (the answer was lost).
\<close>

definition created :: "bool \<Rightarrow> (gotime \<Rightarrow> gotime) \<Rightarrow> SchedulingDecision \<Rightarrow> vstore \<Rightarrow> vstore \<Rightarrow> bool" where
  "created del ptime d s0 s' \<longleftrightarrow>
     (\<exists>s v. rely del ptime s0 s \<and> vs_live s (decision_name_of d) = None \<and>
        vs_past s (decision_name_of d, v) = None \<and>
        s' = vs_commit (with_version v (d\<lparr>sd_Status := zero_Status\<rparr>)) s)"

definition updated :: "bool \<Rightarrow> (gotime \<Rightarrow> gotime) \<Rightarrow> SchedulingDecision \<Rightarrow> vstore \<Rightarrow> vstore \<Rightarrow> bool" where
  "updated del ptime d s0 s' \<longleftrightarrow>
     (\<exists>s cur v. rely del ptime s0 s \<and> vs_live s (decision_name_of d) = Some cur \<and>
        version_of cur = version_of d \<and> vs_past s (decision_name_of d, v) = None \<and>
        s' = vs_commit (with_version v (cur\<lparr>sd_Status := persist_status ptime (sd_Status d)\<rparr>)) s)"

lemma created_after: "rely del ptime s0 s1 \<Longrightarrow> created del ptime d s1 s' \<Longrightarrow> created del ptime d s0 s'"
  unfolding created_def by (blast intro: rely_trans)

lemma updated_after: "rely del ptime s0 s1 \<Longrightarrow> updated del ptime d s1 s' \<Longrightarrow> updated del ptime d s0 s'"
  unfolding updated_def by (blast intro: rely_trans)

text \<open>Without deletions is a special case of with deletions.\<close>

lemma rely_weaken: "rely del ptime s s' \<Longrightarrow> rely True ptime s s'"
  by (auto simp: rely_def evolves_def)

lemma created_weaken: "created del ptime d s s' \<Longrightarrow> created True ptime d s s'"
  unfolding created_def by (blast intro: rely_weaken)

lemma updated_weaken: "updated del ptime d s s' \<Longrightarrow> updated True ptime d s s'"
  unfolding updated_def by (blast intro: rely_weaken)

locale shared_api =
  fixes E :: "'w env"
    and vs :: "'w \<Rightarrow> vstore"
    and ptime :: "gotime \<Rightarrow> gotime"
    and del :: bool
  assumes ptime_idem: "ptime (ptime t) = ptime t"
    and list_events_rely: "rely del ptime (vs w) (vs (snd (ListEvents E ns key w)))"
    and get_pod_rely: "rely del ptime (vs w) (vs (snd (GetPod E k w)))"
    and get_pvc_rely: "rely del ptime (vs w) (vs (snd (GetPVC E k w)))"
    and get_sc_rely: "rely del ptime (vs w) (vs (snd (GetStorageClass E c w)))"
    and get_rely: "rely del ptime (vs w) (vs (snd (GetDecision E n w)))"
    and get_known: "GetDecision E n w = (Inr d, w') \<Longrightarrow>
      decision_name_of d = n \<and> vs_past (vs w') (n, version_of d) = Some d"
    and create_ok: "CreateDecision E d w = (None, w') \<Longrightarrow> created del ptime d (vs w) (vs w')"
    and create_err: "CreateDecision E d w = (Some e, w') \<Longrightarrow>
      rely del ptime (vs w) (vs w') \<or> created del ptime d (vs w) (vs w')"
    and update_ok: "UpdateStatus E d w = (None, w') \<Longrightarrow> updated del ptime d (vs w) (vs w')"
    and update_err: "UpdateStatus E d w = (Some e, w') \<Longrightarrow>
      rely del ptime (vs w) (vs w') \<or> updated del ptime d (vs w) (vs w')"

locale shared_env = shared_api E vs ptime del + retry_env E steps
  for E :: "'w env" and vs ptime del steps

text \<open>What a client can compare of two objects apart from their versions.\<close>

definition content :: "SchedulingDecision \<Rightarrow>
    (string \<rightharpoonup> string) \<times> SchedulingDecisionSpec \<times> SchedulingDecisionStatus" where
  "content d = (labels_of d, sd_Spec d, sd_Status d)"

definition contents :: "vstore \<Rightarrow> string \<rightharpoonup>
    (string \<rightharpoonup> string) \<times> SchedulingDecisionSpec \<times> SchedulingDecisionStatus" where
  "contents s n = map_option content (vs_live s n)"

text \<open>Two worlds in which the objects the program only reads look the same.\<close>

definition same_view :: "'w env \<Rightarrow> 'w \<Rightarrow> 'w \<Rightarrow> bool" where
  "same_view E w w' \<longleftrightarrow>
     (\<forall>ns key. fst (ListEvents E ns key w') = fst (ListEvents E ns key w)) \<and>
     (\<forall>k. fst (GetPod E k w') = fst (GetPod E k w)) \<and>
     (\<forall>k. fst (GetPVC E k w') = fst (GetPVC E k w)) \<and>
     (\<forall>c. fst (GetStorageClass E c w') = fst (GetStorageClass E c w))"

locale quiet_env = shared_env E vs ptime False steps
  for E :: "'w env" and vs ptime steps +
  assumes quiet_list: "snd (ListEvents E ns key w) = w"
    and quiet_pod: "snd (GetPod E k w) = w"
    and quiet_pvc: "snd (GetPVC E k w) = w"
    and quiet_sc: "snd (GetStorageClass E c w) = w"
    and get_live: "GetDecision E n w =
      ((case vs_live (vs w) n of None \<Rightarrow> Inl NotFound | Some d \<Rightarrow> Inr d), w)"
    and create_live: "vs_live (vs w) (decision_name_of d) = None \<Longrightarrow>
      \<exists>w'. CreateDecision E d w = (None, w') \<and> same_view E w w' \<and>
        contents (vs w') = (contents (vs w))(decision_name_of d \<mapsto> (labels_of d, sd_Spec d, zero_Status))"
    and update_live: "vs_live (vs w) (decision_name_of d) = Some cur \<Longrightarrow>
      version_of cur = version_of d \<Longrightarrow>
      \<exists>w'. UpdateStatus E d w = (None, w') \<and> same_view E w w' \<and>
        contents (vs w') = (contents (vs w))(decision_name_of d \<mapsto>
          (labels_of cur, sd_Spec cur, persist_status ptime (sd_Status d)))"

lemma same_view_refl [simp]: "same_view E w w"
  by (simp add: same_view_def)

lemma same_view_trans: "same_view E a b \<Longrightarrow> same_view E b c \<Longrightarrow> same_view E a c"
  by (simp add: same_view_def)

end
