(* ===== verification/Reconciler.thy ===== *)
theory Reconciler
  imports Decision_Store
begin

text \<open>
  The reconciler of \<open>controllers/schedulingdecision_controller.go\<close>. Each method takes the
  environment and the world and returns its error (\<open>None\<close> for nil) and the next world; the
  empty \<open>ctrl.Result\<close> is left out, and so is log output. \<open>time.Now\<close> reads the clock of the
  current world. The proofs are in two parts: against \<open>shared_env\<close>, where reads may be stale
  and others may write or delete, every method keeps the store invariant and only extends histories; and
  against \<open>quiet_env\<close>, where the effect of a whole reconcile is computed.
\<close>

record SchedulingDecisionReconciler =
  RetentionWindow :: int

definition retentionWindow :: "SchedulingDecisionReconciler \<Rightarrow> int" where
  "retentionWindow r = (if RetentionWindow r > 0 then RetentionWindow r else DefaultRetentionWindow)"

definition listRelevantEvents ::
    "'w env \<Rightarrow> NamespacedName \<Rightarrow> 'w \<Rightarrow> (api_error, Event list) result \<times> 'w" where
  "listRelevantEvents E podKey w =
     (case ListEvents E (nn_Namespace podKey) (nn_Namespace podKey @ ''/'' @ nn_Name podKey) w of
        (Inl err, w') \<Rightarrow> (Inl err, w')
      | (Inr items, w') \<Rightarrow> (Inr (keepRelevant items), w'))"

text \<open>The object literal of \<open>ensureDecisionCreated\<close>, with its volume context filled in.\<close>

definition newDecision ::
    "int \<Rightarrow> string \<Rightarrow> podIdentity \<Rightarrow> VolumeContext option \<Rightarrow> SchedulingDecision" where
  "newDecision expiresAt name identity volCtx =
     \<lparr>sd_ObjectMeta =
        \<lparr>om_Name = name,
         om_Labels = [podUIDLabel \<mapsto> pi_UID identity, ExpiresAtLabel \<mapsto> format_int expiresAt],
         om_ResourceVersion = ''''\<rparr>,
      sd_Spec =
        \<lparr>sp_PodName = pi_Name identity, sp_PodNamespace = pi_Namespace identity,
         sp_PodUID = pi_UID identity, sp_SchedulerName = pi_SchedulerName identity,
         sp_VolumeContext = volCtx\<rparr>,
      sd_Status = zero_Status\<rparr>"

definition ensureDecisionCreated ::
    "'w env \<Rightarrow> SchedulingDecisionReconciler \<Rightarrow> string \<Rightarrow> podIdentity \<Rightarrow> bool \<Rightarrow> Pod \<Rightarrow> 'w \<Rightarrow>
     go_error option \<times> 'w" where
  "ensureDecisionCreated E r name identity podFound pod w =
     (case GetDecision E name w of
        (Inr existing, w1) \<Rightarrow> (None, w1)
      | (Inl err, w1) \<Rightarrow>
          if err \<noteq> NotFound
          then (Some (Wrapf (''getting SchedulingDecision '' @ name) (ApiErr err)), w1)
          else
            (let expiresAt = time_unix (time_add (Now E w1) (retentionWindow r));
                 (volCtx, w2) =
                   (if podFound
                    then (case resolveVolumeContext E pod w1 of
                            (Inl err, w2) \<Rightarrow> (None, w2)
                          | (Inr v, w2) \<Rightarrow> (v, w2))
                    else (None, w1))
             in case CreateDecision E (newDecision expiresAt name identity volCtx) w2 of
                  (None, w3) \<Rightarrow> (None, w3)
                | (Some err, w3) \<Rightarrow>
                    if err = AlreadyExists then (None, w3)
                    else (Some (Wrapf (''creating SchedulingDecision '' @ name) (ApiErr err)), w3)))"

definition retriable :: "api_error \<Rightarrow> bool" where
  "retriable err \<longleftrightarrow> err = Conflict \<or> err = NotFound"

text \<open>The function literal that \<open>appendTransitionWithRetry\<close> passes to \<open>retry.OnError\<close>.\<close>

definition appendAttempt ::
    "'w env \<Rightarrow> string \<Rightarrow> SchedulingTransition \<Rightarrow> 'w \<Rightarrow> api_error option \<times> 'w" where
  "appendAttempt E name transition w =
     (case GetDecision E name w of
        (Inl err, w1) \<Rightarrow> (Some err, w1)
      | (Inr decision, w1) \<Rightarrow>
          if history_of decision \<noteq> [] \<and> transitionsEqual (last (history_of decision)) transition
          then (None, w1)
          else UpdateStatus E
                 (decision\<lparr>sd_Status := applyTransition (sd_Status decision) transition\<rparr>) w1)"

definition appendTransitionWithRetry ::
    "'w env \<Rightarrow> string \<Rightarrow> SchedulingTransition \<Rightarrow> 'w \<Rightarrow> go_error option \<times> 'w" where
  "appendTransitionWithRetry E name transition w =
     (case OnError E retriable (appendAttempt E name transition) w of
        (None, w') \<Rightarrow> (None, w')
      | (Some err, w') \<Rightarrow>
          (Some (Wrapf (''updating status for SchedulingDecision '' @ name) (ApiErr err)), w'))"

definition recordTransition ::
    "'w env \<Rightarrow> SchedulingDecisionReconciler \<Rightarrow> podIdentity \<Rightarrow> SchedulingTransition \<Rightarrow> bool \<Rightarrow> Pod \<Rightarrow>
     'w \<Rightarrow> go_error option \<times> 'w" where
  "recordTransition E r identity transition podFound pod w =
     (let name = decisionName (pi_UID identity)
      in case ensureDecisionCreated E r name identity podFound pod w of
           (Some err, w') \<Rightarrow> (Some err, w')
         | (None, w') \<Rightarrow> appendTransitionWithRetry E name transition w')"

definition Reconcile ::
    "'w env \<Rightarrow> SchedulingDecisionReconciler \<Rightarrow> NamespacedName \<Rightarrow> 'w \<Rightarrow> go_error option \<times> 'w" where
  "Reconcile E r req w =
     (case listRelevantEvents E req w of
        (Inl err, w1) \<Rightarrow>
          (Some (Wrapf (''listing events for pod '' @ nn_string req) (ApiErr err)), w1)
      | (Inr events, w1) \<Rightarrow>
          (case GetPod E req w1 of
             (Inl err, w2) \<Rightarrow>
               if err \<noteq> NotFound
               then (Some (Wrapf (''getting pod '' @ nn_string req) (ApiErr err)), w2)
               else (case deriveTransition (Now E w2) zero_Pod False events of
                       None \<Rightarrow> (None, w2)
                     | Some (identity, transition) \<Rightarrow>
                         recordTransition E r identity transition False zero_Pod w2)
           | (Inr pod, w2) \<Rightarrow>
               (case deriveTransition (Now E w2) pod True events of
                  None \<Rightarrow> (None, w2)
                | Some (identity, transition) \<Rightarrow>
                    recordTransition E r identity transition True pod w2)))"

section \<open>Under interference: every method respects the store\<close>

lemma retentionWindow_pos: "0 < retentionWindow r"
  by (simp add: retentionWindow_def DefaultRetentionWindow_def)

lemma newDecision_fields [simp]:
  "decision_name_of (newDecision x name i v) = name"
  "sd_Spec (newDecision x name i v) =
     \<lparr>sp_PodName = pi_Name i, sp_PodNamespace = pi_Namespace i, sp_PodUID = pi_UID i,
      sp_SchedulerName = pi_SchedulerName i, sp_VolumeContext = v\<rparr>"
  "sd_Status (newDecision x name i v) = zero_Status"
  "labels_of (newDecision x name i v) =
     [podUIDLabel \<mapsto> pi_UID i, ExpiresAtLabel \<mapsto> format_int x]"
  by (simp_all add: newDecision_def)

lemma podUIDLabel_neq [simp]: "podUIDLabel \<noteq> ExpiresAtLabel" "ExpiresAtLabel \<noteq> podUIDLabel"
  by (simp_all add: podUIDLabel_def ExpiresAtLabel_def)

lemma newDecision_inv:
  assumes "int64 x"
  shows "decision_inv ptime (decisionName (pi_UID i))
     (with_version v (newDecision x (decisionName (pi_UID i)) i vol))"
  using assms by (auto simp: decision_inv_def zero_Status_def status_mirrors_def)

lemma deriveTransition_sound:
  "deriveTransition now pod podFound events = Some (i, t) \<Longrightarrow> sound_transition t"
  using deriveTransition_fields_lemma by (auto simp: sound_transition_def split: if_splits)

text \<open>Appending to a known version and persisting the result.\<close>

lemma append_succeeds:
  assumes "decision_inv ptime n d"
  shows "succeeds d (with_version v
     (d\<lparr>sd_Status := persist_status ptime (applyTransition (sd_Status d) t)\<rparr>))"
  using assms
  by (simp add: succeeds_def decision_inv_def with_version_def map_idI persist_transition_def)

lemma append_one_step:
  assumes "decision_inv ptime n d"
  shows "one_step d (with_version v
     (d\<lparr>sd_Status := persist_status ptime (applyTransition (sd_Status d) t)\<rparr>))"
  using append_succeeds [OF assms, of v t] by (simp add: one_step_def)

lemma append_inv:
  assumes "decision_inv ptime n d" and "sound_transition t" and "ptime (ptime (tr_DecisionTimestamp t)) = ptime (tr_DecisionTimestamp t)"
  shows "decision_inv ptime n (with_version v
     (d\<lparr>sd_Status := persist_status ptime (applyTransition (sd_Status d) t)\<rparr>))"
  using assms
  by (auto simp: decision_inv_def with_version_def persist_transition_def sound_transition_def
      intro!: persist_status_mirrors)

lemma newDecision_rely:
  assumes "created del ptime (newDecision (time_unix t) (decisionName (pi_UID i)) i v) s0 s'"
  shows "rely del ptime s0 s'"
proof -
  let ?d = "newDecision (time_unix t) (decisionName (pi_UID i)) i v" and ?n = "decisionName (pi_UID i)"
  have "?d\<lparr>sd_Status := zero_Status\<rparr> = ?d" by (simp add: newDecision_def)
  with assms obtain s ver where s: "rely del ptime s0 s"
    and fresh: "vs_live s ?n = None" "vs_past s (?n, ver) = None"
    and s': "s' = vs_commit (with_version ver ?d) s"
    by (auto simp: created_def)
  have "decision_inv ptime ?n (with_version ver ?d)"
    by (rule newDecision_inv) (simp add: time_unix_def)
  with fresh have "rely del ptime s s'" unfolding s' by (intro rely_commit) (simp_all add: zero_Status_def)
  with s show ?thesis by (rule rely_trans)
qed

context shared_env
begin

lemma rely_step: "rely del ptime (vs w) (vs w1) \<Longrightarrow> rely del ptime (vs w1) (vs w2) \<Longrightarrow> rely del ptime (vs w) (vs w2)"
  by (rule rely_trans)

lemma volumeContextFromPVC_rely: "rely del ptime (vs w) (vs (snd (volumeContextFromPVC E pvc w)))"
proof -
  have "rely del ptime (vs w) (vs w')" if "GetStorageClass E c w = (x, w')" for c x w'
    using get_sc_rely [of w c] that by simp
  then show ?thesis
    by (auto simp: volumeContextFromPVC_def Let_def split: option.split prod.split sum.split)
qed

lemma resolveVolumeLoop_rely: "rely del ptime (vs w) (vs (snd (resolveVolumeLoop E pod vols w)))"
proof (induction vols arbitrary: w)
  case Nil
  then show ?case by simp
next
  case (Cons vol vols)
  have pvc: "rely del ptime (vs w) (vs w')" if "GetPVC E k w = (x, w')" for k x w'
    using get_pvc_rely [of w k] that by simp
  have ctx: "rely del ptime (vs w) (vs w')" if "volumeContextFromPVC E p w = (x, w')" for p x w w'
    using volumeContextFromPVC_rely [of w p] that by simp
  show ?case
    using Cons.IH pvc ctx
    by (auto simp: Let_def split: option.split prod.split sum.split) (blast intro: rely_trans)+
qed

lemma ensureDecisionCreated_rely:
  assumes "name = decisionName (pi_UID i)"
  shows "rely del ptime (vs w) (vs (snd (ensureDecisionCreated E r name i podFound pod w)))"
proof -
  have get: "rely del ptime (vs w) (vs w1)" if "GetDecision E name w = (x, w1)" for x w1
    using get_rely [of w name] that by simp
  have vol: "rely del ptime (vs w) (vs w2)" if "resolveVolumeContext E pod w = (x, w2)" for x w w2
    using resolveVolumeLoop_rely [of w pod "pod_Volumes pod"] that
    by (simp add: resolveVolumeContext_def)
  have create: "rely del ptime (vs w2) (vs w3)"
    if "CreateDecision E (newDecision (time_unix t) name i v) w2 = (res, w3)" for t v w2 res w3
  proof -
    have "rely del ptime (vs w2) (vs w3)" if "created del ptime (newDecision (time_unix t) name i v) (vs w2) (vs w3)"
      using that assms by (auto intro: newDecision_rely)
    with that show ?thesis by (cases res) (auto dest: create_ok create_err)
  qed
  show ?thesis
    using get vol create
    by (auto simp: ensureDecisionCreated_def Let_def split: prod.split sum.split option.split)
      (blast intro: rely_trans)+
qed

text \<open>
  A status write that takes effect commits the next version of the very object that was read, however
  stale the read was: the resource version decides.
\<close>

lemma update_commits_successor:
  assumes inv: "vstore_inv ptime (vs w)"
    and known: "decision_name_of d = n" "vs_past (vs w) (n, version_of d) = Some d"
    and upd: "updated del ptime (d\<lparr>sd_Status := applyTransition (sd_Status d) t\<rparr>) (vs w) (vs w')"
    and sound: "sound_transition t"
  obtains d' where "d' = d\<lparr>sd_Status := persist_status ptime (applyTransition (sd_Status d) t)\<rparr>"
    and "rely del ptime (vs w) (vs w')"
    and "\<exists>v. vs_past (vs w') (n, v) = Some (with_version v d')"
proof -
  let ?d' = "d\<lparr>sd_Status := persist_status ptime (applyTransition (sd_Status d) t)\<rparr>"
  from upd known(1) obtain s cur v where s: "rely del ptime (vs w) s"
    and cur: "vs_live s n = Some cur" "version_of cur = version_of d"
    and fresh: "vs_past s (n, v) = None"
    and w': "vs w' = vs_commit (with_version v
      (cur\<lparr>sd_Status := persist_status ptime (applyTransition (sd_Status d) t)\<rparr>)) s"
    by (auto simp: updated_def)
  from s inv have inv_s: "vstore_inv ptime s" by (blast dest: relyD)
  with cur have "vs_past s (n, version_of d) = Some cur" unfolding vstore_inv_def by metis
  moreover from rely_past [OF s inv known(2)] have "vs_past s (n, version_of d) = Some d" .
  ultimately have [simp]: "cur = d" by simp
  from inv_s cur have d_inv: "decision_inv ptime n d" unfolding vstore_inv_def by fastforce
  have "rely del ptime s (vs w')" unfolding w'
    using fresh cur known append_succeeds [OF d_inv, of v t] append_one_step [OF d_inv, of v t]
      rely_past [OF s inv known(2)] append_inv [OF d_inv sound ptime_idem, of v]
    by (intro rely_commit) (auto simp: with_version_def)
  with s have "rely del ptime (vs w) (vs w')" by (rule rely_trans)
  moreover have "vs_past (vs w') (n, v) = Some (with_version v ?d')"
    using known unfolding w' by (simp add: vs_commit_def with_version_def)
  ultimately show thesis using that by blast
qed

lemma appendAttempt_rely:
  assumes sound: "sound_transition t"
  shows "rely del ptime (vs w) (vs (snd (appendAttempt E n t w)))"
  unfolding rely_def
proof
  assume inv: "vstore_inv ptime (vs w)"
  obtain g w1 where get: "GetDecision E n w = (g, w1)" by force
  with get_rely [of w n] have w1: "rely del ptime (vs w) (vs w1)" by simp
  with inv have inv1: "vstore_inv ptime (vs w1)" by (blast dest: relyD)
  have "rely del ptime (vs w) (vs (snd (appendAttempt E n t w)))"
  proof (cases g)
    case (Inl e)
    with get w1 show ?thesis by (simp add: appendAttempt_def)
  next
    case (Inr d)
    with get have known: "decision_name_of d = n" "vs_past (vs w1) (n, version_of d) = Some d"
      using get_known by blast+
    obtain res w2 where upd:
      "UpdateStatus E (d\<lparr>sd_Status := applyTransition (sd_Status d) t\<rparr>) w1 = (res, w2)" by force
    have "rely del ptime (vs w1) (vs w2)"
      if "updated del ptime (d\<lparr>sd_Status := applyTransition (sd_Status d) t\<rparr>) (vs w1) (vs w2)"
      using update_commits_successor [OF inv1 known that sound] by blast
    with upd have "rely del ptime (vs w1) (vs w2)"
      by (cases res) (auto dest: update_ok update_err)
    with w1 have "rely del ptime (vs w) (vs w2)" by (rule rely_trans)
    with get Inr upd w1 show ?thesis by (simp add: appendAttempt_def)
  qed
  with inv show "evolves del (vs w) (vs (snd (appendAttempt E n t w))) \<and>
      vstore_inv ptime (vs (snd (appendAttempt E n t w)))"
    by (rule relyD [rotated])
qed

lemma append_rely:
  assumes "sound_transition t"
  shows "rely del ptime (vs w) (vs (snd (appendTransitionWithRetry E n t w)))"
proof -
  have "rely del ptime (vs w) (vs (snd (OnError E retriable (appendAttempt E n t) w)))"
    unfolding OnError_attempts
    by (rule retry_attempts_rel [where R = "\<lambda>a b. rely del ptime (vs a) (vs b)"])
      (auto intro: rely_step appendAttempt_rely [OF assms])
  then show ?thesis
    by (auto simp: appendTransitionWithRetry_def split: prod.split option.split)
qed

lemma recordTransition_rely:
  assumes "sound_transition t"
  shows "rely del ptime (vs w) (vs (snd (recordTransition E r i t podFound pod w)))"
proof -
  let ?n = "decisionName (pi_UID i)"
  obtain res w1 where ens: "ensureDecisionCreated E r ?n i podFound pod w = (res, w1)" by force
  with ensureDecisionCreated_rely [OF refl, where i = i and w = w and r = r and podFound = podFound and pod = pod] have "rely del ptime (vs w) (vs w1)"
    by simp
  then show ?thesis
    using ens append_rely [OF assms, of w1 ?n]
    by (auto simp: recordTransition_def split: option.split intro: rely_trans)
qed

lemma Reconcile_rely: "rely del ptime (vs w) (vs (snd (Reconcile E r req w)))"
proof -
  have list: "rely del ptime (vs w) (vs w1)" if "listRelevantEvents E req w = (x, w1)" for x w1
    using list_events_rely [of w "nn_Namespace req" "nn_Namespace req @ ''/'' @ nn_Name req"] that
    by (auto simp: listRelevantEvents_def split: prod.splits sum.splits)
  have pod: "rely del ptime (vs w1) (vs w2)" if "GetPod E req w1 = (x, w2)" for x w1 w2
    using get_pod_rely [of w1 req] that by simp
  have rec: "rely del ptime (vs w2) (vs (snd (recordTransition E r i t found p w2)))"
    if "deriveTransition now p found events = Some (i, t)" for now p found events i t w2
    using that by (intro recordTransition_rely) (rule deriveTransition_sound)
  show ?thesis
    using list pod rec
    by (auto simp: Reconcile_def split: prod.split sum.split option.split) (blast intro: rely_trans)+
qed

text \<open>A reported success means that some accepted version ends with the transition as stored.\<close>

lemma appendAttempt_recorded:
  assumes inv: "vstore_inv ptime (vs w)" and sound: "sound_transition t"
    and ok: "appendAttempt E n t w = (None, w')"
  shows "\<exists>v d. vs_past (vs w') (n, v) = Some d \<and> history_of d \<noteq> [] \<and>
     transitionsEqual (last (history_of d)) (persist_transition ptime t)"
proof -
  obtain g w1 where get: "GetDecision E n w = (g, w1)" by force
  with get_rely [of w n] inv have inv1: "vstore_inv ptime (vs w1)" by (auto dest: relyD)
  from ok get obtain d where g: "g = Inr d" by (cases g) (auto simp: appendAttempt_def)
  with get have known: "decision_name_of d = n" "vs_past (vs w1) (n, version_of d) = Some d"
    using get_known by blast+
  show ?thesis
  proof (cases "history_of d \<noteq> [] \<and> transitionsEqual (last (history_of d)) t")
    case True
    with ok get g have "w' = w1" by (simp add: appendAttempt_def)
    from inv1 known have "decision_inv ptime n d" unfolding vstore_inv_def by blast
    with True have "transitionsEqual (last (history_of d)) (persist_transition ptime t)"
      by (auto simp: transitionsEqual_def decision_inv_def) (metis last_in_set)
    with known True \<open>w' = w1\<close> show ?thesis by blast
  next
    case False
    with ok get g
    have "UpdateStatus E (d\<lparr>sd_Status := applyTransition (sd_Status d) t\<rparr>) w1 = (None, w')"
      by (auto simp: appendAttempt_def)
    then obtain v where "vs_past (vs w') (n, v) = Some (with_version v
        (d\<lparr>sd_Status := persist_status ptime (applyTransition (sd_Status d) t)\<rparr>))"
      using update_commits_successor [OF inv1 known update_ok sound] by metis
    then show ?thesis by (intro exI conjI, assumption) (simp_all add: with_version_def)
  qed
qed

lemma append_recorded:
  assumes inv: "vstore_inv ptime (vs w)" and sound: "sound_transition t"
    and ok: "appendTransitionWithRetry E n t w = (None, w')"
  shows "\<exists>v d. vs_past (vs w') (n, v) = Some d \<and> history_of d \<noteq> [] \<and>
     transitionsEqual (last (history_of d)) (persist_transition ptime t)"
proof -
  from ok have "retry_attempts steps retriable (appendAttempt E n t) w = (None, w')"
    by (auto simp: appendTransitionWithRetry_def OnError_attempts split: prod.splits option.splits)
  from retry_attempts_success
    [where R = "\<lambda>a b. rely del ptime (vs a) (vs b)", OF _ _ _ steps_pos this]
  obtain w1 where "rely del ptime (vs w) (vs w1)" "appendAttempt E n t w1 = (None, w')"
    using appendAttempt_rely [OF sound] rely_step by blast
  with inv sound show ?thesis by (blast intro: appendAttempt_recorded dest: relyD)
qed

lemma recordTransition_recorded:
  assumes inv: "vstore_inv ptime (vs w)" and sound: "sound_transition t"
    and ok: "recordTransition E r i t podFound pod w = (None, w')"
  shows "\<exists>v d. vs_past (vs w') (decisionName (pi_UID i), v) = Some d \<and> history_of d \<noteq> [] \<and>
     transitionsEqual (last (history_of d)) (persist_transition ptime t)"
proof -
  let ?n = "decisionName (pi_UID i)"
  obtain res w1 where ens: "ensureDecisionCreated E r ?n i podFound pod w = (res, w1)" by force
  with ensureDecisionCreated_rely [OF refl, where i = i and w = w and r = r and podFound = podFound and pod = pod] inv
  have "vstore_inv ptime (vs w1)" by (auto dest: relyD)
  moreover from ok ens have "appendTransitionWithRetry E ?n t w1 = (None, w')"
    by (cases res) (auto simp: recordTransition_def)
  ultimately show ?thesis using sound by (intro append_recorded)
qed

end

end
