(* ===== verification/Reconciler_Quiet.thy ===== *)
theory Reconciler_Quiet
  imports Reconciler
begin

text \<open>
  What a whole reconcile computes when nobody else is active (\<open>quiet_env\<close>): an abstract
  specification on the contents of the store, the refinement proof, and what follows from it for
  repeated reconciles.
\<close>

section \<open>Specification\<close>

type_synonym contents_map =
  "string \<rightharpoonup> (string \<rightharpoonup> string) \<times> SchedulingDecisionSpec \<times> SchedulingDecisionStatus"

text \<open>Filing one transition: create the entry if it is missing, append unless it is a repeat.\<close>

definition record_spec :: "(gotime \<Rightarrow> gotime) \<Rightarrow> (string \<rightharpoonup> string) \<times> SchedulingDecisionSpec \<Rightarrow>
    string \<Rightarrow> SchedulingTransition \<Rightarrow> contents_map \<Rightarrow> contents_map" where
  "record_spec ptime new n t cs =
     (case (case cs n of Some c \<Rightarrow> c | None \<Rightarrow> (fst new, snd new, zero_Status)) of
        (l, sp, st) \<Rightarrow>
          cs(n \<mapsto> (l, sp,
            if st_Transitions st \<noteq> [] \<and> transitionsEqual (last (st_Transitions st)) t then st
            else persist_status ptime (applyTransition st t))))"

text \<open>Labels and spec of a decision created in world \<open>w\<close>.\<close>

definition new_content :: "'w env \<Rightarrow> SchedulingDecisionReconciler \<Rightarrow> podIdentity \<Rightarrow> bool \<Rightarrow> Pod \<Rightarrow> 'w \<Rightarrow>
    (string \<rightharpoonup> string) \<times> SchedulingDecisionSpec" where
  "new_content E r i podFound pod w =
     ([podUIDLabel \<mapsto> pi_UID i,
       ExpiresAtLabel \<mapsto> format_int (time_unix (time_add (Now E w) (retentionWindow r)))],
      \<lparr>sp_PodName = pi_Name i, sp_PodNamespace = pi_Namespace i, sp_PodUID = pi_UID i,
       sp_SchedulerName = pi_SchedulerName i,
       sp_VolumeContext =
         (if podFound
          then (case fst (resolveVolumeContext E pod w) of Inl _ \<Rightarrow> None | Inr v \<Rightarrow> v)
          else None)\<rparr>)"

text \<open>What a reconcile of \<open>req\<close> sees: the Pod (if it exists) and its Events, or an error.\<close>

definition observation :: "'w env \<Rightarrow> NamespacedName \<Rightarrow> 'w \<Rightarrow> (go_error, bool \<times> Pod \<times> Event list) result" where
  "observation E req w =
     (case fst (ListEvents E (nn_Namespace req) (nn_string req) w) of
        Inl e \<Rightarrow> Inl (Wrapf (''listing events for pod '' @ nn_string req) (ApiErr e))
      | Inr items \<Rightarrow>
          (case fst (GetPod E req w) of
             Inl e \<Rightarrow> if e = NotFound then Inr (False, zero_Pod, items)
                      else Inl (Wrapf (''getting pod '' @ nn_string req) (ApiErr e))
           | Inr pod \<Rightarrow> Inr (True, pod, items)))"

definition reconcile_spec :: "(gotime \<Rightarrow> gotime) \<Rightarrow> 'w env \<Rightarrow> SchedulingDecisionReconciler \<Rightarrow>
    NamespacedName \<Rightarrow> 'w \<Rightarrow> contents_map \<Rightarrow> contents_map" where
  "reconcile_spec ptime E r req w cs =
     (case observation E req w of
        Inl _ \<Rightarrow> cs
      | Inr (found, pod, items) \<Rightarrow>
          (case deriveTransition (Now E w) pod found items of
             None \<Rightarrow> cs
           | Some (i, t) \<Rightarrow>
               record_spec ptime (new_content E r i found pod w) (decisionName (pi_UID i)) t cs))"

section \<open>Refinement\<close>

lemma same_view_observation: "same_view E w w' \<Longrightarrow> observation E req w' = observation E req w"
  by (simp add: same_view_def observation_def split: sum.split)

context quiet_env
begin

lemma volumeContextFromPVC_quiet: "snd (volumeContextFromPVC E pvc w) = w"
proof -
  have "w' = w" if "GetStorageClass E c w = (x, w')" for c x w'
    using quiet_sc [of c w] that by simp
  then show ?thesis
    by (auto simp: volumeContextFromPVC_def Let_def split: option.split prod.split sum.split)
qed

lemma resolveVolumeContext_quiet: "snd (resolveVolumeContext E pod w) = w"
proof -
  have pvc: "w' = w" if "GetPVC E k w = (x, w')" for k x w'
    using quiet_pvc [of k w] that by simp
  have ctx: "w' = w" if "volumeContextFromPVC E p w = (x, w')" for p x w'
    using volumeContextFromPVC_quiet [of p w] that by simp
  have "snd (resolveVolumeLoop E pod vols w) = w" for vols
    by (induction vols)
      (auto simp: Let_def split: option.split prod.split sum.split dest: pvc ctx)
  then show ?thesis by (simp add: resolveVolumeContext_def)
qed

lemma live_named: "vs_live (vs w) n = Some d \<Longrightarrow> decision_name_of d = n"
  using get_known [of n w d w] by (simp add: get_live)

lemma ensure_quiet:
  defines "n i \<equiv> decisionName (pi_UID i)"
  shows "\<exists>w'. ensureDecisionCreated E r (n i) i podFound pod w = (None, w') \<and> same_view E w w' \<and>
    contents (vs w') = (contents (vs w))(n i \<mapsto>
      (case contents (vs w) (n i) of Some c \<Rightarrow> c
       | None \<Rightarrow> (fst (new_content E r i podFound pod w), snd (new_content E r i podFound pod w), zero_Status)))"
proof (cases "vs_live (vs w) (n i)")
  case (Some d)
  then show ?thesis
    by (auto simp: ensureDecisionCreated_def get_live contents_def fun_upd_idem)
next
  case None
  obtain x where vol: "resolveVolumeContext E pod w = (x, w)"
    using resolveVolumeContext_quiet by (metis prod.collapse)
  define v where "v = (if podFound then (case x of Inl _ \<Rightarrow> None | Inr y \<Rightarrow> y) else None)"
  define d where "d = newDecision (time_unix (time_add (Now E w) (retentionWindow r))) (n i) i v"
  have "ensureDecisionCreated E r (n i) i podFound pod w =
      (case CreateDecision E d w of (None, w3) \<Rightarrow> (None, w3)
       | (Some err, w3) \<Rightarrow> if err = AlreadyExists then (None, w3)
           else (Some (Wrapf (''creating SchedulingDecision '' @ n i) (ApiErr err)), w3))"
    using None by (cases x) (simp_all add: ensureDecisionCreated_def get_live vol d_def v_def)
  moreover obtain w' where "CreateDecision E d w = (None, w')" "same_view E w w'"
    "contents (vs w') = (contents (vs w))(n i \<mapsto> (labels_of d, sd_Spec d, zero_Status))"
    using create_live [of w d] None by (auto simp: d_def)
  moreover have "labels_of d = fst (new_content E r i podFound pod w)"
    and "sd_Spec d = snd (new_content E r i podFound pod w)"
    by (simp_all add: d_def new_content_def v_def vol)
  ultimately show ?thesis using None by (simp add: contents_def)
qed

lemma attempt_quiet:
  assumes "contents (vs w) n = Some (l, sp, st)"
  shows "\<exists>w'. appendAttempt E n t w = (None, w') \<and> same_view E w w' \<and>
    contents (vs w') = (contents (vs w))(n \<mapsto> (l, sp,
      if st_Transitions st \<noteq> [] \<and> transitionsEqual (last (st_Transitions st)) t then st
      else persist_status ptime (applyTransition st t)))"
proof -
  from assms obtain d where d: "vs_live (vs w) n = Some d" and [simp]: "content d = (l, sp, st)"
    by (auto simp: contents_def)
  then have [simp]: "labels_of d = l" "sd_Spec d = sp" "sd_Status d = st"
    by (simp_all add: content_def)
  from d have [simp]: "decision_name_of d = n" by (rule live_named)
  show ?thesis
  proof (cases "st_Transitions st \<noteq> [] \<and> transitionsEqual (last (st_Transitions st)) t")
    case True
    with d assms show ?thesis
      by (auto simp: appendAttempt_def get_live fun_upd_idem)
  next
    case False
    with d update_live [of w "d\<lparr>sd_Status := applyTransition st t\<rparr>" d] show ?thesis
      by (auto simp: appendAttempt_def get_live)
  qed
qed

lemma append_quiet:
  assumes "contents (vs w) n = Some (l, sp, st)"
  shows "\<exists>w'. appendTransitionWithRetry E n t w = (None, w') \<and> same_view E w w' \<and>
    contents (vs w') = (contents (vs w))(n \<mapsto> (l, sp,
      if st_Transitions st \<noteq> [] \<and> transitionsEqual (last (st_Transitions st)) t then st
      else persist_status ptime (applyTransition st t)))"
proof -
  obtain m where "steps = Suc m" using steps_pos by (cases steps) auto
  with attempt_quiet [OF assms, of t] show ?thesis
    by (auto simp: appendTransitionWithRetry_def OnError_attempts)
qed

lemma record_quiet:
  "\<exists>w'. recordTransition E r i t podFound pod w = (None, w') \<and> same_view E w w' \<and>
    contents (vs w') =
      record_spec ptime (new_content E r i podFound pod w) (decisionName (pi_UID i)) t (contents (vs w))"
proof -
  let ?n = "decisionName (pi_UID i)"
  let ?new = "new_content E r i podFound pod w"
  obtain w1 where ens: "ensureDecisionCreated E r ?n i podFound pod w = (None, w1)"
    and view: "same_view E w w1"
    and cs1: "contents (vs w1) = (contents (vs w))(?n \<mapsto>
      (case contents (vs w) ?n of Some c \<Rightarrow> c | None \<Rightarrow> (fst ?new, snd ?new, zero_Status)))"
    using ensure_quiet [of r i podFound pod w] by blast
  obtain l sp st where c: "(case contents (vs w) ?n of Some c \<Rightarrow> c
      | None \<Rightarrow> (fst ?new, snd ?new, zero_Status)) = (l, sp, st)"
    by (cases "case contents (vs w) ?n of Some c \<Rightarrow> c | None \<Rightarrow> (fst ?new, snd ?new, zero_Status)")
  with cs1 have "contents (vs w1) ?n = Some (l, sp, st)" by simp
  from append_quiet [OF this, of t] obtain w2
    where "appendTransitionWithRetry E ?n t w1 = (None, w2)" "same_view E w1 w2"
      "contents (vs w2) = (contents (vs w1))(?n \<mapsto> (l, sp,
        if st_Transitions st \<noteq> [] \<and> transitionsEqual (last (st_Transitions st)) t then st
        else persist_status ptime (applyTransition st t)))"
    by blast
  with ens view cs1 c show ?thesis
    by (auto simp: recordTransition_def record_spec_def intro: same_view_trans)
qed

lemma Reconcile_observation:
  "Reconcile E r req w =
    (case observation E req w of
       Inl e \<Rightarrow> (Some e, w)
     | Inr (found, pod, items) \<Rightarrow>
         (case deriveTransition (Now E w) pod found (keepRelevant items) of
            None \<Rightarrow> (None, w)
          | Some (i, t) \<Rightarrow> recordTransition E r i t found pod w))"
proof -
  obtain x where x: "ListEvents E (nn_Namespace req) (nn_string req) w = (x, w)"
    using quiet_list by (metis prod.collapse)
  obtain y where y: "GetPod E req w = (y, w)"
    using quiet_pod by (metis prod.collapse)
  show ?thesis
    using x y
    by (auto simp: Reconcile_def listRelevantEvents_def observation_def nn_string_def
        split: sum.split option.split)
qed

lemma Reconcile_refines:
  "\<exists>w'. Reconcile E r req w = ((case observation E req w of Inl e \<Rightarrow> Some e | Inr _ \<Rightarrow> None), w') \<and>
     same_view E w w' \<and> contents (vs w') = reconcile_spec ptime E r req w (contents (vs w))"
  using record_quiet
  by (auto simp: Reconcile_observation reconcile_spec_def keepRelevant_derive
      split: sum.split option.split)

end

section \<open>Repeated reconciles\<close>

definition reconcile_times :: "nat \<Rightarrow> 'w env \<Rightarrow> SchedulingDecisionReconciler \<Rightarrow> NamespacedName \<Rightarrow> 'w \<Rightarrow> 'w" where
  "reconcile_times k E r req w = ((\<lambda>w. snd (Reconcile E r req w)) ^^ k) w"

lemma reconcile_times_simps [simp]:
  "reconcile_times 0 E r req w = w"
  "reconcile_times (Suc k) E r req w = snd (Reconcile E r req (reconcile_times k E r req w))"
  by (simp_all add: reconcile_times_def)

text \<open>The history recorded under a name; empty when there is no such decision.\<close>

definition recorded_history :: "contents_map \<Rightarrow> string \<Rightarrow> SchedulingTransition list" where
  "recorded_history cs n = (case cs n of None \<Rightarrow> [] | Some (l, sp, st) \<Rightarrow> st_Transitions st)"

lemma recorded_history_record_spec:
  "recorded_history (record_spec ptime new n t cs) n =
     (let h = recorded_history cs n in
      if h \<noteq> [] \<and> transitionsEqual (last h) t then h
      else map (persist_transition ptime) (h @ [t]))"
  by (auto simp: recorded_history_def record_spec_def zero_Status_def Let_def split: option.split)

lemma record_spec_again:
  assumes "ptime (tr_DecisionTimestamp t) = tr_DecisionTimestamp t" and "transitionsEqual t t'"
  shows "record_spec ptime new' n t' (record_spec ptime new n t cs) = record_spec ptime new n t cs"
proof -
  obtain l sp st where c: "(case cs n of Some c \<Rightarrow> c | None \<Rightarrow> (fst new, snd new, zero_Status)) = (l, sp, st)"
    by (cases "case cs n of Some c \<Rightarrow> c | None \<Rightarrow> (fst new, snd new, zero_Status)")
  have "transitionsEqual (persist_transition ptime t) t'"
    and "transitionsEqual u t \<Longrightarrow> transitionsEqual u t'" for u
    using assms by (auto simp: transitionsEqual_def)
  with c show ?thesis by (simp add: record_spec_def)
qed

lemmas record_spec_idem = record_spec_again [OF _ transitionsEqual_refl]

context quiet_env
begin

lemma times_view: "same_view E w (reconcile_times k E r req w)"
proof (induction k)
  case (Suc k)
  obtain w' where "snd (Reconcile E r req (reconcile_times k E r req w)) = w'"
    "same_view E (reconcile_times k E r req w) w'"
    using Reconcile_refines [of r req "reconcile_times k E r req w"] by auto
  with Suc show ?case by (auto intro: same_view_trans)
qed simp

text \<open>Every reconcile after the first derives the same transition, if it does not need the clock.\<close>

lemma times_step:
  assumes "observation E req w = Inr (found, pod, items)" and "timestamp_settled pod items"
    and "deriveTransition (Now E w) pod found items = Some (i, t)"
  shows "\<exists>new. contents (vs (reconcile_times (Suc k) E r req w)) =
     record_spec ptime new (decisionName (pi_UID i)) t (contents (vs (reconcile_times k E r req w)))"
proof -
  let ?w = "reconcile_times k E r req w"
  have "observation E req ?w = Inr (found, pod, items)"
    using same_view_observation [OF times_view] assms(1) by simp
  moreover have "deriveTransition (Now E ?w) pod found items = Some (i, t)"
    using deriveTransition_clock_free [OF assms(2), of "Now E ?w" found "Now E w"] assms(3) by simp
  ultimately have "reconcile_spec ptime E r req ?w (contents (vs ?w)) =
      record_spec ptime (new_content E r i found pod ?w) (decisionName (pi_UID i)) t (contents (vs ?w))"
    by (simp add: reconcile_spec_def)
  moreover have "contents (vs (reconcile_times (Suc k) E r req w)) =
      reconcile_spec ptime E r req ?w (contents (vs ?w))"
    using Reconcile_refines [of r req ?w] by auto
  ultimately show ?thesis by metis
qed

lemma times_idempotent:
  assumes "observation E req w = Inr (found, pod, items)" and "timestamp_settled pod items"
    and "deriveTransition (Now E w) pod found items = Some (i, t)"
    and "ptime (tr_DecisionTimestamp t) = tr_DecisionTimestamp t"
  shows "contents (vs (reconcile_times (Suc k) E r req w)) = contents (vs (reconcile_times 1 E r req w))"
proof (induction k)
  case 0
  then show ?case by simp
next
  case (Suc k)
  let ?n = "decisionName (pi_UID i)"
  from times_step [OF assms(1-3), of "Suc k" r] obtain new where
    "contents (vs (reconcile_times (Suc (Suc k)) E r req w)) =
       record_spec ptime new ?n t (contents (vs (reconcile_times (Suc k) E r req w)))" by blast
  moreover from times_step [OF assms(1-3), of 0 r] obtain new' where
    "contents (vs (reconcile_times 1 E r req w)) = record_spec ptime new' ?n t (contents (vs w))"
    by (auto simp del: reconcile_times_simps(2) simp add: One_nat_def)
  ultimately show ?case using Suc by (simp add: record_spec_idem [where ptime = ptime and t = t, OF assms(4)] del: reconcile_times_simps)
qed

lemma times_inv: "vstore_inv ptime (vs w) \<Longrightarrow> vstore_inv ptime (vs (reconcile_times k E r req w))"
  by (induction k) (auto dest: relyD [OF Reconcile_rely])

lemma inv_history_persisted:
  assumes "vstore_inv ptime (vs w)" and "u \<in> set (recorded_history (contents (vs w)) n)"
  shows "ptime (tr_DecisionTimestamp u) = tr_DecisionTimestamp u"
proof -
  from assms(2) obtain d where d: "vs_live (vs w) n = Some d" and u: "u \<in> set (history_of d)"
    by (cases "vs_live (vs w) n") (auto simp: recorded_history_def contents_def content_def)
  from assms(1) d have "decision_inv ptime n d" unfolding vstore_inv_def by blast
  with u show ?thesis by (auto simp: decision_inv_def)
qed

lemma times_duplicates:
  fixes r
  assumes "vstore_inv ptime (vs w)" and "observation E req w = Inr (found, pod, items)"
    and "timestamp_settled pod items"
    and "deriveTransition (Now E w) pod found items = Some (i, t)"
    and fine: "ptime (tr_DecisionTimestamp t) \<noteq> tr_DecisionTimestamp t"
  defines "hist k \<equiv> recorded_history (contents (vs (reconcile_times k E r req w))) (decisionName (pi_UID i))"
  shows "hist k = hist 0 @ replicate k (persist_transition ptime t)"
proof (induction k)
  case 0
  then show ?case by simp
next
  case (Suc k)
  let ?w = "reconcile_times k E r req w" and ?n = "decisionName (pi_UID i)"
  have old: "ptime (tr_DecisionTimestamp u) = tr_DecisionTimestamp u" if "u \<in> set (hist k)" for u
    using inv_history_persisted [OF times_inv [OF assms(1)]] that unfolding hist_def .
  then have "\<not> (hist k \<noteq> [] \<and> transitionsEqual (last (hist k)) t)"
    using fine by (auto simp: transitionsEqual_def) (metis last_in_set)
  moreover have "map (persist_transition ptime) (hist k) = hist k"
    using old by (intro map_idI) (simp add: persist_transition_def)
  moreover obtain new where
    "contents (vs (reconcile_times (Suc k) E r req w)) = record_spec ptime new ?n t (contents (vs ?w))"
    using times_step [OF assms(2-4)] by blast
  ultimately have "hist (Suc k) = hist k @ [persist_transition ptime t]"
    unfolding hist_def
    by (simp only: recorded_history_record_spec Let_def if_False map_append list.map)
  with Suc show ?case by (simp add: replicate_append_same)
qed

end

end
