(* ===== verification/Sweep.thy ===== *)
theory Sweep
  imports Kube_Api
begin

text \<open>
  \<open>cmd/sweep/main.go\<close>: the one-shot retention sweep. \<open>sweep\<close> returns how the process ends:
  with the error that \<open>main\<close> logs fatally, with exit code 1 when a deletion failed, or normally;
  the counters are those of its summary line.
\<close>

datatype expiry_error = MissingLabel | ParseError string num_error

definition isExpired :: "(string \<rightharpoonup> string) \<Rightarrow> gotime \<Rightarrow> (expiry_error, bool) result" where
  "isExpired labels now =
     (case labels ExpiresAtLabel of
        None \<Rightarrow> Inl MissingLabel
      | Some value \<Rightarrow>
          (case parse_int value of
             Inl err \<Rightarrow> Inl (ParseError value err)
           | Inr expiresAt \<Rightarrow> Inr (\<not> now < unix_time expiresAt)))"

record sweep_counts =
  sw_deleted :: nat
  sw_skipped :: nat
  sw_failed :: nat

fun sweepLoop :: "'w env \<Rightarrow> gotime \<Rightarrow> SchedulingDecision list \<Rightarrow> sweep_counts \<Rightarrow> 'w \<Rightarrow> sweep_counts \<times> 'w" where
  "sweepLoop E now [] c w = (c, w)"
| "sweepLoop E now (decision # ds) c w =
     (case isExpired (labels_of decision) now of
        Inl err \<Rightarrow> sweepLoop E now ds (c\<lparr>sw_skipped := Suc (sw_skipped c)\<rparr>) w
      | Inr expired \<Rightarrow>
          if \<not> expired then sweepLoop E now ds c w
          else (case DeleteDecision E decision w of
                  (Some err, w') \<Rightarrow>
                    if err \<noteq> NotFound then sweepLoop E now ds (c\<lparr>sw_failed := Suc (sw_failed c)\<rparr>) w'
                    else sweepLoop E now ds (c\<lparr>sw_deleted := Suc (sw_deleted c)\<rparr>) w'
                | (None, w') \<Rightarrow> sweepLoop E now ds (c\<lparr>sw_deleted := Suc (sw_deleted c)\<rparr>) w'))"

datatype sweep_end = SweepError go_error | SweepExit1 sweep_counts | SweepDone sweep_counts

definition sweep :: "'w env \<Rightarrow> gotime \<Rightarrow> 'w \<Rightarrow> sweep_end \<times> 'w" where
  "sweep E now w =
     (case ListDecisions E w of
        (Inl err, w') \<Rightarrow> (SweepError (Wrapf ''listing SchedulingDecisions'' (ApiErr err)), w')
      | (Inr list, w') \<Rightarrow>
          (case sweepLoop E now (dl_Items list) \<lparr>sw_deleted = 0, sw_skipped = 0, sw_failed = 0\<rparr> w' of
             (c, w'') \<Rightarrow> (if sw_failed c > 0 then SweepExit1 c else SweepDone c, w'')))"

section \<open>The expiry label\<close>

interpretation expiry_label: wire_codec format_int parse_int int64
  by unfold_locales (simp add: int64_def parse_int_format_int)

text \<open>The latest Unix second that \<open>time.Unix\<close> can represent without wrapping around.\<close>

definition last_unix_second :: int where
  "last_unix_second = 9223372036854775807 - unix_epoch"

declare last_unix_second_def [time_bounds]

lemma isExpired_format:
  assumes "labels ExpiresAtLabel = Some (format_int x)" and "int64 x"
  shows "isExpired labels now = Inr (\<not> now < unix_time x)"
  using assms by (simp add: isExpired_def expiry_label.dec_enc)

lemma isExpired_in_range:
  assumes "labels ExpiresAtLabel = Some (format_int x)"
    and "- 9223372036854775808 \<le> x" and "x \<le> last_unix_second" and "wf_time now"
  shows "isExpired labels now = Inr (x + unix_epoch \<le> tsec now)"
proof -
  from assms(2,3) have "int64 x" by (simp add: time_bounds)
  moreover from assms(2,3) have "unix_time x = Time (x + unix_epoch) 0"
    by (simp add: unix_time_def time_bounds)
  ultimately show ?thesis
    using isExpired_format [of labels x now] not_before_whole_second assms(1,4) by simp
qed

text \<open>
  C29: what the sweep makes of a label the controller wrote. For every expiry up to the last second
  \<open>time.Unix\<close> can represent, \<open>isExpired\<close> parses the label without error and answers whether the
  clock has reached that second.
\<close>

theorem isExpired_written_label:
  assumes "labels ExpiresAtLabel = Some (format_int x)"
    and "- 9223372036854775808 \<le> x" and "x \<le> last_unix_second" and "wf_time now"
  shows "isExpired labels now = Inr (x + unix_epoch \<le> tsec now)"
  using assms by (rule isExpired_in_range)

theorem isExpired_written_label_witness:
  "isExpired [ExpiresAtLabel \<mapsto> format_int 1700000000] (Time (1700000000 + 62135596800) 0) = Inr True \<and>
   isExpired [ExpiresAtLabel \<mapsto> format_int 1700000000] (Time (1699999999 + 62135596800) 999999999) = Inr False"
  using isExpired_written_label [of "[ExpiresAtLabel \<mapsto> format_int 1700000000]" 1700000000]
  by (simp add: time_bounds)

text \<open>
  C40: beyond that second the conversion wraps around: an expiry in the far future, still a valid
  64-bit label, is reported as already expired at every time from year 1 on.
\<close>

theorem isExpired_far_future_wraps:
  assumes "labels ExpiresAtLabel = Some (format_int x)"
    and "last_unix_second < x" and "x \<le> 9223372036854775807"
    and "wf_time now" and "0 \<le> tsec now"
  shows "isExpired labels now = Inr True"
proof -
  from assms(2,3) have "int64 x" by (simp add: time_bounds)
  moreover from assms(2,3) have "wrap64 (x + unix_epoch) = x + unix_epoch - 18446744073709551616"
    by (intro wrap64_above) (simp_all add: time_bounds)
  with assms(3) have "tsec (unix_time x) < 0"
    by (simp add: unix_time_def unix_epoch_def)
  ultimately show ?thesis
    using isExpired_format [of labels x now] assms(1,4,5)
    by (simp add: less_gotime_def)
qed

theorem isExpired_far_future_wraps_witness:
  "isExpired [ExpiresAtLabel \<mapsto> format_int 9223372036854775807] (Time 63900000000 0) = Inr True"
  using isExpired_far_future_wraps
    [of "[ExpiresAtLabel \<mapsto> format_int 9223372036854775807]" 9223372036854775807 "Time 63900000000 0"]
  by (simp add: time_bounds)

section \<open>The sweep\<close>

text \<open>
  The contract of the API for the sweep's uncached client: a current list, deletion by name. A
  deletion that is reported as failed may have taken effect (its answer was lost).
\<close>

locale sweep_api =
  fixes E :: "'w env" and live :: "'w \<Rightarrow> string \<rightharpoonup> SchedulingDecision"
  assumes list_live: "ListDecisions E w = (Inr list, w') \<Longrightarrow>
      live w' = live w \<and> (\<forall>d. d \<in> set (dl_Items list) \<longleftrightarrow> live w (decision_name_of d) = Some d)"
    and live_name: "live w n = Some d \<Longrightarrow> decision_name_of d = n"
    and list_fail: "ListDecisions E w = (Inl e, w') \<Longrightarrow> live w' = live w"
    and delete_ok: "DeleteDecision E d w = (None, w') \<Longrightarrow> live w' = (live w)(decision_name_of d := None)"
    and delete_gone: "DeleteDecision E d w = (Some NotFound, w') \<Longrightarrow>
      live w' = live w \<and> live w (decision_name_of d) = None"
    and delete_fail: "DeleteDecision E d w = (Some e, w') \<Longrightarrow>
      live w' = live w \<or> live w' = (live w)(decision_name_of d := None)"

definition is_expired_decision :: "gotime \<Rightarrow> SchedulingDecision \<Rightarrow> bool" where
  "is_expired_decision now d \<longleftrightarrow> isExpired (labels_of d) now = Inr True"

definition is_unreadable :: "gotime \<Rightarrow> SchedulingDecision \<Rightarrow> bool" where
  "is_unreadable now d \<longleftrightarrow> (\<exists>e. isExpired (labels_of d) now = Inl e)"

text \<open>
  The reference for the loop: delete a list of decisions in order, each in the world the one before
  has left, and collect the answers; an answer is a failure unless the object was deleted or gone.
\<close>

fun delete_all :: "'w env \<Rightarrow> SchedulingDecision list \<Rightarrow> 'w \<Rightarrow> api_error option list \<times> 'w" where
  "delete_all E [] w = ([], w)"
| "delete_all E (d # ds) w =
     (case DeleteDecision E d w of (r, w1) \<Rightarrow> case delete_all E ds w1 of (rs, w2) \<Rightarrow> (r # rs, w2))"

definition delete_failed :: "api_error option \<Rightarrow> bool" where
  "delete_failed r \<longleftrightarrow> r \<noteq> None \<and> r \<noteq> Some NotFound"

lemma sweepLoop_delete_all:
  "sweepLoop E now ds c w =
     (case delete_all E (filter (is_expired_decision now) ds) w of (rs, w') \<Rightarrow>
        (\<lparr>sw_deleted = sw_deleted c + length (filter (\<lambda>r. \<not> delete_failed r) rs),
          sw_skipped = sw_skipped c + length (filter (is_unreadable now) ds),
          sw_failed = sw_failed c + length (filter delete_failed rs)\<rparr>, w'))"
proof (induction ds arbitrary: c w)
  case (Cons d ds)
  obtain r w1 where del: "DeleteDecision E d w = (r, w1)" by force
  show ?case
  proof (cases "isExpired (labels_of d) now")
    case (Inr expired)
    with del Cons.IH show ?thesis
      by (cases expired)
        (auto simp: is_expired_decision_def is_unreadable_def delete_failed_def split: prod.split option.split)
  qed (auto simp: is_expired_decision_def is_unreadable_def Cons.IH split: prod.split)
qed simp

text \<open>
  C30: what a sweep does, and how it ends. It lists once and ends with the wrapped error when that
  fails. Otherwise it deletes exactly the expired decisions of the list, in the order of the list and
  each once; its counters are the numbers of deletions that were answered with success or not found,
  of labels it could not read, and of deletions that were answered with another error; and it exits
  with status 1 exactly when there was such an error. A failed deletion does not keep it from the rest.
\<close>

theorem sweep_accounts:
  "sweep E now w =
     (case ListDecisions E w of
        (Inl e, w1) \<Rightarrow> (SweepError (Wrapf ''listing SchedulingDecisions'' (ApiErr e)), w1)
      | (Inr l, w1) \<Rightarrow>
          (case delete_all E (filter (is_expired_decision now) (dl_Items l)) w1 of (rs, w2) \<Rightarrow>
             let c = \<lparr>sw_deleted = length (filter (\<lambda>r. \<not> delete_failed r) rs),
                      sw_skipped = length (filter (is_unreadable now) (dl_Items l)),
                      sw_failed = length (filter delete_failed rs)\<rparr>
             in (if list_ex delete_failed rs then SweepExit1 c else SweepDone c, w2)))"
proof -
  have "0 < length (filter delete_failed rs) \<longleftrightarrow> list_ex delete_failed rs" for rs
    by (auto simp: list_ex_iff filter_empty_conv)
  then show ?thesis
    by (simp add: sweep_def sweepLoop_delete_all Let_def split: prod.split sum.split)
qed

text \<open>What every deletion preserves, the sweep preserves.\<close>

lemma sweepLoop_preserves:
  assumes "\<And>d w. P w \<Longrightarrow> P (snd (DeleteDecision E d w))" and "P w"
  shows "P (snd (sweepLoop E now ds c w))"
  using assms(2)
proof (induction ds arbitrary: c w)
  case Nil
  then show ?case by simp
next
  case (Cons d ds)
  obtain res w1 where del: "DeleteDecision E d w = (res, w1)" by force
  with assms(1) [OF Cons.prems, of d] have "P w1" by simp
  with Cons del show ?case by (auto split: sum.split option.split)
qed

lemma sweep_preserves:
  assumes "\<And>d w. P w \<Longrightarrow> P (snd (DeleteDecision E d w))"
    and "\<And>w. P w \<Longrightarrow> P (snd (ListDecisions E w))" and "P w"
  shows "P (snd (sweep E now w))"
proof -
  obtain x w1 where l: "ListDecisions E w = (x, w1)" by force
  with assms(2) [OF assms(3)] have "P w1" by simp
  then have "P (snd (sweepLoop E now ds c w1))" for ds c
    using sweepLoop_preserves [where P = P and E = E, OF assms(1)] by blast
  with l \<open>P w1\<close> show ?thesis by (cases x) (simp_all add: sweep_def case_prod_beta)
qed

lemma is_expired_mono: "is_expired_decision now d \<Longrightarrow> now \<le> now' \<Longrightarrow> is_expired_decision now' d"
  by (auto simp: is_expired_decision_def isExpired_def split: option.splits sum.splits)

context sweep_api
begin

lemma delete_result:
  assumes "DeleteDecision E d w = (res, w')"
  shows "live w' = live w \<or> live w' = (live w)(decision_name_of d := None)"
    and "\<not> delete_failed res \<Longrightarrow> live w' = (live w)(decision_name_of d := None)"
  using assms by (cases res; auto simp: delete_failed_def fun_eq_iff dest: delete_ok delete_gone delete_fail)+

lemma sweepLoop_live:
  assumes "sweepLoop E now ds c w = (c', w')"
  shows "(\<forall>n. live w' n = live w n \<or>
        live w' n = None \<and> (\<exists>d\<in>set ds. decision_name_of d = n \<and> is_expired_decision now d)) \<and>
    (sw_failed c' = sw_failed c \<longrightarrow>
       (\<forall>d\<in>set ds. is_expired_decision now d \<longrightarrow> live w' (decision_name_of d) = None)) \<and>
    sw_failed c \<le> sw_failed c'"
  using assms
proof (induction ds arbitrary: c w)
  case Nil
  then show ?case by simp
next
  case (Cons d ds)
  show ?case
  proof (cases "is_expired_decision now d")
    case False
    then obtain c1 where "sweepLoop E now ds c1 w = (c', w')" "sw_failed c1 = sw_failed c"
      using Cons.prems
      by (cases "isExpired (labels_of d) now") (auto simp: is_expired_decision_def split: if_splits)
    with Cons.IH [of c1 w] False show ?thesis by (auto 0 3)
  next
    case True
    obtain res w1 where del: "DeleteDecision E d w = (res, w1)" by force
    from True del Cons.prems obtain c1 where run: "sweepLoop E now ds c1 w1 = (c', w')"
      and c1: "sw_failed c1 = (if delete_failed res then Suc (sw_failed c) else sw_failed c)"
      by (auto simp: is_expired_decision_def delete_failed_def split: option.splits if_splits)
    note IH = Cons.IH [OF run]
    then have later: "live w' n = live w1 n \<or> live w' n = None \<and> (\<exists>x\<in>set ds. decision_name_of x = n \<and> is_expired_decision now x)" for n
      by blast
    have "live w' n = live w n \<or>
        live w' n = None \<and> (\<exists>x\<in>set (d # ds). decision_name_of x = n \<and> is_expired_decision now x)" for n
    proof (cases "decision_name_of d = n")
      case True
      with delete_result(1) [OF del] have "live w1 n = live w n \<or> live w1 n = None" by auto
      with later [of n] True \<open>is_expired_decision now d\<close> show ?thesis by auto
    next
      case False
      with delete_result(1) [OF del] have "live w1 n = live w n" by auto
      with later [of n] show ?thesis by auto
    qed
    moreover have "live w' (decision_name_of d) = None" if "\<not> delete_failed res"
    proof -
      have "live w1 (decision_name_of d) = None" using delete_result(2) [OF del that] by simp
      with later show ?thesis by metis
    qed
    ultimately show ?thesis using IH c1 by (auto split: if_splits)
  qed
qed

lemma sweep_live:
  assumes "sweep E now w = (SweepDone c, w')"
  shows "live w' n = (case live w n of None \<Rightarrow> None
     | Some d \<Rightarrow> if is_expired_decision now d then None else Some d)"
proof -
  from assms obtain l w1 where l: "ListDecisions E w = (Inr l, w1)"
    and run: "sweepLoop E now (dl_Items l) \<lparr>sw_deleted = 0, sw_skipped = 0, sw_failed = 0\<rparr> w1 = (c, w')"
    and c: "sw_failed c = 0"
    by (auto simp: sweep_def split: prod.splits sum.splits if_splits)
  from list_live [OF l] have w1: "live w1 = live w"
    and items: "\<And>d. d \<in> set (dl_Items l) \<longleftrightarrow> live w (decision_name_of d) = Some d" by auto
  have keep: "live w' n = live w n \<or>
      live w' n = None \<and> (\<exists>d. live w n = Some d \<and> is_expired_decision now d)"
    using sweepLoop_live [OF run] w1 items by auto
  have gone: "live w n = Some d \<Longrightarrow> is_expired_decision now d \<Longrightarrow> live w' n = None" for d
    using sweepLoop_live [OF run] c items [of d] live_name [of w n d] by auto
  show ?thesis
  proof (cases "live w n")
    case None
    with keep show ?thesis by auto
  next
    case (Some d)
    with keep gone show ?thesis by auto
  qed
qed

lemma sweep_keeps:
  assumes "live w n = Some d" and "\<not> is_expired_decision now d"
  shows "live (snd (sweep E now w)) n = Some d"
proof (cases "ListDecisions E w")
  case (Pair x w1)
  show ?thesis
  proof (cases x)
    case (Inl e)
    with Pair assms list_fail show ?thesis by (auto simp: sweep_def)
  next
    case (Inr l)
    with Pair have w1: "live w1 = live w"
      and items: "\<And>d. d \<in> set (dl_Items l) \<longleftrightarrow> live w (decision_name_of d) = Some d"
      using list_live by auto
    obtain c w2 where run:
      "sweepLoop E now (dl_Items l) \<lparr>sw_deleted = 0, sw_skipped = 0, sw_failed = 0\<rparr> w1 = (c, w2)" by force
    have "live w2 n = live w n \<or> (\<exists>d'. live w n = Some d' \<and> is_expired_decision now d')"
      using sweepLoop_live [OF run] w1 items by auto
    with assms have "live w2 n = Some d" by auto
    with Pair Inr run show ?thesis by (simp add: sweep_def)
  qed
qed

end

end
