(* ===== verification/Rfc3339.thy ===== *)
theory Rfc3339
  imports Go_Strings Go_Time
begin

text \<open>
  The text form of a time in the objects the program writes: RFC 3339 in UTC without fractional
  seconds, as \<open>metav1.Time\<close> formats it, for the years 1 to 9999. Days are numbered from January
  1 of year 1 like the seconds of \<open>gotime\<close>; the year is found by 400-, 100-, 4- and 1-year
  cycles. The result is that reading a written time gives the time cut to whole seconds, which is
  the function \<open>whole_seconds\<close> that the store models use for the effect of a write.
\<close>

definition whole_seconds :: "gotime \<Rightarrow> gotime" where
  "whole_seconds t = Time (tsec t) 0"

section \<open>The calendar\<close>

definition leap_year :: "nat \<Rightarrow> bool" where
  "leap_year y \<longleftrightarrow> y mod 4 = 0 \<and> (y mod 100 \<noteq> 0 \<or> y mod 400 = 0)"

definition month_lengths :: "nat \<Rightarrow> nat list" where
  "month_lengths y = [31, if leap_year y then 29 else 28, 31, 30, 31, 30, 31, 31, 30, 31, 30, 31]"

definition days_before_year :: "nat \<Rightarrow> nat" where
  "days_before_year y = (let k = y - 1 in 365 * k + k div 4 + k div 400 - k div 100)"

text \<open>The year of a day and the number of the day in it.\<close>

definition year_yday :: "nat \<Rightarrow> nat \<times> nat" where
  "year_yday n =
     (let e = n div 146097; n1 = n mod 146097;
          c = min 3 (n1 div 36524); n2 = n1 - 36524 * c;
          q = n2 div 1461; n3 = n2 mod 1461;
          y = min 3 (n3 div 365)
      in (400 * e + 100 * c + 4 * q + y + 1, n3 - 365 * y))"

text \<open>The position of a day in consecutive months: how many months before it, how many days.\<close>

fun month_day :: "nat list \<Rightarrow> nat \<Rightarrow> nat \<times> nat" where
  "month_day [] d = (0, d)"
| "month_day (m # ms) d = (if d < m then (0, d) else case month_day ms (d - m) of (k, r) \<Rightarrow> (Suc k, r))"

definition civil_date :: "nat \<Rightarrow> nat \<times> nat \<times> nat" where
  "civil_date n =
     (case year_yday n of (y, d) \<Rightarrow> case month_day (month_lengths y) d of (m, r) \<Rightarrow> (y, m + 1, r + 1))"

definition day_number :: "nat \<Rightarrow> nat \<Rightarrow> nat \<Rightarrow> nat" where
  "day_number y m d = days_before_year y + sum_list (take (m - 1) (month_lengths y)) + (d - 1)"

lemma month_day_sum:
  "month_day ms d = (k, r) \<Longrightarrow> d < sum_list ms \<Longrightarrow> k < length ms \<and> sum_list (take k ms) + r = d \<and> r < ms ! k"
proof (induction ms d arbitrary: k r rule: month_day.induct)
  case (2 m ms d)
  show ?case
  proof (cases "d < m")
    case False
    with 2 obtain k' where "month_day ms (d - m) = (k', r)" "k = Suc k'" by (auto split: prod.splits)
    with 2 False show ?thesis by fastforce
  qed (use 2 in auto)
qed simp

lemma sum_month_lengths: "sum_list (month_lengths y) = (if leap_year y then 366 else 365)"
  by (simp add: month_lengths_def)

lemma days_before_year_cycles:
  assumes "c \<le> 3" and "q \<le> 24" and "y \<le> 3"
  shows "days_before_year (400 * e + 100 * c + 4 * q + y + 1) = 146097 * e + 36524 * c + 1461 * q + 365 * y"
proof -
  let ?k = "400 * e + 100 * c + 4 * q + y"
  have "?k div 4 = 100 * e + 25 * c + q" "?k div 100 = 4 * e + c" "?k div 400 = e"
    using assms by linarith+
  then show ?thesis by (simp add: days_before_year_def Let_def)
qed

text \<open>Counting back gives the day, and a day past the 365th only exists in a leap year.\<close>

lemma year_yday_inverse:
  assumes "year_yday n = (y, d)"
  shows "days_before_year y + d = n \<and> d < (if leap_year y then 366 else 365) \<and> 0 < y"
proof -
  define e n1 where "e = n div 146097" and "n1 = n mod 146097"
  define c n2 where "c = min 3 (n1 div 36524)" and "n2 = n1 - 36524 * c"
  define q n3 where "q = n2 div 1461" and "n3 = n2 mod 1461"
  define k where "k = min 3 (n3 div 365)"
  from assms have y: "y = 400 * e + 100 * c + 4 * q + k + 1" and d: "d = n3 - 365 * k"
    by (simp_all add: year_yday_def Let_def e_def n1_def c_def n2_def q_def n3_def k_def)
  have n1: "n = 146097 * e + n1" "n1 < 146097" by (simp_all add: e_def n1_def)
  have n2: "n1 = 36524 * c + n2" "c \<le> 3" "n2 < 36524 \<or> c = 3 \<and> n2 = 36524"
    using n1(2) by (auto simp: c_def n2_def min_def)
  have n3: "n2 = 1461 * q + n3" "n3 < 1461" by (simp_all add: q_def n3_def)
  with n2(3) have q: "q \<le> 24" "q = 24 \<Longrightarrow> n3 = 1460 \<Longrightarrow> c = 3" by auto
  have k: "k \<le> 3" "n3 = 365 * k + d" "d < 365 \<or> k = 3 \<and> n3 = 1460 \<and> d = 365"
    using n3(2) by (auto simp: d k_def min_def)
  have "days_before_year y + d = n"
    unfolding y using days_before_year_cycles [OF n2(2) q(1) k(1), of e] n1 n2 n3 k by simp
  moreover have "leap_year y" if "d \<noteq> 365 \<longrightarrow> 365 < d"
  proof -
    from that k have "k = 3" "n3 = 1460" by auto
    show ?thesis
    proof (cases "q = 24")
      case True
      with q(2) \<open>n3 = 1460\<close> \<open>k = 3\<close> have "y = 400 * (e + 1)" by (simp add: y)
      then show ?thesis by (simp add: leap_year_def)
    next
      case False
      with q(1) have "q + 1 < 25" by simp
      have y4: "y = 4 * (q + 1 + 25 * (4 * e + c))" "y = 4 * (q + 1) + 100 * (4 * e + c)"
        using \<open>k = 3\<close> by (simp_all add: y)
      then have "y mod 4 = 0" by simp
      moreover have "y mod 100 = 4 * (q + 1)"
        unfolding y4(2) mod_mult_self2 using \<open>q + 1 < 25\<close> by simp
      ultimately show ?thesis by (simp add: leap_year_def)
    qed
  qed
  ultimately show ?thesis using k y by auto
qed

lemma civil_date_inverse:
  assumes "civil_date n = (y, m, d)"
  shows "day_number y m d = n" and "1 \<le> m" "m \<le> 12" "1 \<le> d" "d \<le> month_lengths y ! (m - 1)" "0 < y"
proof -
  from assms obtain yd k r where yd: "year_yday n = (y, yd)"
    and kr: "month_day (month_lengths y) yd = (k, r)" "m = k + 1" "d = r + 1"
    by (auto simp: civil_date_def split: prod.splits)
  note inv = year_yday_inverse [OF yd]
  with month_day_sum [OF kr(1)] have "k < 12" "sum_list (take k (month_lengths y)) + r = yd"
    "r < month_lengths y ! k" by (simp_all add: sum_month_lengths) (simp add: month_lengths_def)
  with inv kr show "day_number y m d = n" and "1 \<le> m" "m \<le> 12" "1 \<le> d" "d \<le> month_lengths y ! (m - 1)" "0 < y"
    by (auto simp: day_number_def)
qed

lemma civil_year_bound:
  assumes "civil_date n = (y, m, d)" and "n < 3652059"
  shows "y \<le> 9999"
proof (rule ccontr)
  assume "\<not> y \<le> 9999"
  then obtain j where y: "y = 10000 + j" using le_Suc_ex [of 10000 y] by auto
  have "days_before_year y \<le> n" using civil_date_inverse(1) [OF assms(1)] by (simp add: day_number_def)
  moreover have "3652059 \<le> days_before_year y"
  proof -
    let ?k = "9999 + j"
    have "25 * (?k div 100) \<le> ?k div 4" by linarith
    then have "?k div 100 + 2400 \<le> ?k div 4" by linarith
    moreover have "24 \<le> ?k div 400" by linarith
    ultimately show ?thesis unfolding y days_before_year_def Let_def by simp
  qed
  ultimately show False using assms(2) by simp
qed

section \<open>Writing and reading\<close>

definition fmt2 :: "nat \<Rightarrow> string" where
  "fmt2 n = [digit_char (n div 10), digit_char (n mod 10)]"

definition fmt4 :: "nat \<Rightarrow> string" where
  "fmt4 n = fmt2 (n div 100) @ fmt2 (n mod 100)"

definition format_rfc3339 :: "gotime \<Rightarrow> string" where
  "format_rfc3339 t =
     (let n = nat (tsec t); s = n mod 86400 in
      case civil_date (n div 86400) of (y, m, d) \<Rightarrow>
        fmt4 y @ ''-'' @ fmt2 m @ ''-'' @ fmt2 d @ ''T'' @
        fmt2 (s div 3600) @ '':'' @ fmt2 (s div 60 mod 60) @ '':'' @ fmt2 (s mod 60) @ ''Z'')"

definition two_digits :: "char \<Rightarrow> char \<Rightarrow> nat" where
  "two_digits a b = 10 * digit_val a + digit_val b"

text \<open>
  Reading accepts exactly the written form with fields in range. (The library reads offsets and
  fractions too; the program's own objects never have them.)
\<close>

definition parse_rfc3339 :: "string \<Rightarrow> gotime option" where
  "parse_rfc3339 s =
     (case s of
        [y1, y2, y3, y4, p1, m1, m2, p2, d1, d2, p3, h1, h2, p4, i1, i2, p5, s1, s2, p6] \<Rightarrow>
          (let y = 100 * two_digits y1 y2 + two_digits y3 y4; m = two_digits m1 m2; d = two_digits d1 d2;
               h = two_digits h1 h2; i = two_digits i1 i2; c = two_digits s1 s2
           in if [p1, p2, p3, p4, p5, p6] = ''--T::Z'' \<and>
                 list_all is_digit [y1, y2, y3, y4, m1, m2, d1, d2, h1, h2, i1, i2, s1, s2] \<and>
                 1 \<le> y \<and> 1 \<le> m \<and> m \<le> 12 \<and> 1 \<le> d \<and> d \<le> month_lengths y ! (m - 1) \<and>
                 h < 24 \<and> i < 60 \<and> c < 60
              then Some (Time (int (86400 * day_number y m d + 3600 * h + 60 * i + c)) 0)
              else None)
      | _ \<Rightarrow> None)"

text \<open>The times with a four-digit year from year 1 on.\<close>

definition json_time :: "gotime \<Rightarrow> bool" where
  "json_time t \<longleftrightarrow> 0 \<le> tsec t \<and> tsec t < 315537897600"

lemma digits_read [simp]:
  "n < 100 \<Longrightarrow> two_digits (digit_char (n div 10)) (digit_char (n mod 10)) = n"
  "n < 100 \<Longrightarrow> is_digit (digit_char (n div 10))" "is_digit (digit_char (n mod 10))"
  by (simp_all add: two_digits_def less_mult_imp_div_less)

lemma parse_written:
  assumes "1 \<le> y" "y \<le> 9999" "1 \<le> m" "m \<le> 12" "1 \<le> d" "d \<le> month_lengths y ! (m - 1)" "d < 100"
    and "h < 24" "i < 60" "c < 60"
  shows "parse_rfc3339 (fmt4 y @ ''-'' @ fmt2 m @ ''-'' @ fmt2 d @ ''T'' @ fmt2 h @ '':'' @ fmt2 i @ '':'' @ fmt2 c @ ''Z'') =
    Some (Time (int (86400 * day_number y m d + 3600 * h + 60 * i + c)) 0)"
proof -
  have hi: "y div 100 < 100" "y mod 100 < 100" using assms(2) by simp_all
  have yy: "100 * (y div 100) + y mod 100 = y" by simp
  have small: "m < 100" "h < 100" "i < 100" "c < 100" using assms by simp_all
  show ?thesis
    unfolding parse_rfc3339_def fmt4_def fmt2_def append.simps list.case Let_def
      digits_read(1) [OF hi(1)] digits_read(1) [OF hi(2)] digits_read(1) [OF assms(7)]
      digits_read(1) [OF small(1)] digits_read(1) [OF small(2)] digits_read(1) [OF small(3)]
      digits_read(1) [OF small(4)] yy
    using assms hi small by simp
qed

lemma month_lengths_31: "m \<le> 12 \<Longrightarrow> 1 \<le> m \<Longrightarrow> month_lengths y ! (m - 1) \<le> 31"
  unfolding month_lengths_def
  by (auto simp: nth_Cons split: nat.split)

lemma seconds_of_day:
  assumes "s < (86400 :: nat)"
  shows "s div 3600 < 24" and "3600 * (s div 3600) + 60 * (s div 60 mod 60) + s mod 60 = s"
proof -
  show "s div 3600 < 24" using assms by linarith
  have "s div 3600 = s div 60 div 60" by (simp flip: div_mult2_eq)
  then show "3600 * (s div 3600) + 60 * (s div 60 mod 60) + s mod 60 = s"
    using div_mult_mod_eq [of "s div 60" 60] div_mult_mod_eq [of s 60] by linarith
qed

theorem parse_format_rfc3339:
  assumes "json_time t"
  shows "parse_rfc3339 (format_rfc3339 t) = Some (whole_seconds t)"
proof -
  define n where "n = nat (tsec t)"
  define s where "s = n mod 86400"
  obtain y m d where ymd: "civil_date (n div 86400) = (y, m, d)" by (metis prod_cases3)
  note date = civil_date_inverse [OF ymd]
  from assms have n: "int n = tsec t" "n < 315537897600" by (auto simp: n_def json_time_def)
  then have "n div 86400 < 3652059" by linarith
  with civil_year_bound [OF ymd] have y: "y \<le> 9999" by simp
  have s: "s < 86400" by (simp add: s_def)
  note sec = seconds_of_day [OF s]
  from date month_lengths_31 [of m y] have "d < 100" by simp
  have "86400 * day_number y m d + 3600 * (s div 3600) + 60 * (s div 60 mod 60) + s mod 60 = n"
    using sec(2) mult_div_mod_eq [of 86400 n] unfolding date(1) s_def by linarith
  then have val: "int (86400 * day_number y m d + 3600 * (s div 3600) + 60 * (s div 60 mod 60) + s mod 60) = tsec t"
    using n(1) by simp
  have "format_rfc3339 t = fmt4 y @ ''-'' @ fmt2 m @ ''-'' @ fmt2 d @ ''T'' @
      fmt2 (s div 3600) @ '':'' @ fmt2 (s div 60 mod 60) @ '':'' @ fmt2 (s mod 60) @ ''Z''"
    using ymd by (simp add: format_rfc3339_def Let_def n_def s_def)
  moreover have "parse_rfc3339 \<dots> = Some (Time (int (86400 * day_number y m d + 3600 * (s div 3600) +
      60 * (s div 60 mod 60) + s mod 60)) 0)"
    using date y \<open>d < 100\<close> sec(1) by (intro parse_written) simp_all
  ultimately show ?thesis using val by (simp add: whole_seconds_def)
qed

lemma format_rfc3339_zero: "format_rfc3339 zero_time = ''0001-01-01T00:00:00Z''"
  by code_simp

end
