(* ===== verification/Mem_Api.thy ===== *)
theory Mem_Api
  imports Reconciler_Quiet Sweep Rfc3339
begin

text \<open>
  One environment for which the contracts hold: an API server that keeps its Pods, Events, claims
  and classes in lists and its SchedulingDecisions as a log of accepted writes, newest first. A
  write gets a resource version longer than every version of the log, an update is accepted only
  against the live version, and times are kept to the second. The interpretation shows that the
  hypotheses of the reconciler's properties can hold together; the witnesses run the program
  in this environment.
\<close>

datatype log_entry = Put SchedulingDecision | Del string

fun entry_name :: "log_entry \<Rightarrow> string" where
  "entry_name (Put d) = decision_name_of d"
| "entry_name (Del n) = n"

fun entry_version :: "log_entry \<Rightarrow> string" where
  "entry_version (Put d) = version_of d"
| "entry_version (Del n) = ''''"

fun log_live :: "log_entry list \<Rightarrow> string \<Rightarrow> SchedulingDecision option" where
  "log_live [] n = None"
| "log_live (Put d # es) n = (if decision_name_of d = n then Some d else log_live es n)"
| "log_live (Del m # es) n = (if m = n then None else log_live es n)"

fun log_past :: "log_entry list \<Rightarrow> string \<times> string \<Rightarrow> SchedulingDecision option" where
  "log_past [] k = None"
| "log_past (Put d # es) k = (if (decision_name_of d, version_of d) = k then Some d else log_past es k)"
| "log_past (Del m # es) k = log_past es k"

definition fresh_version :: "log_entry list \<Rightarrow> string" where
  "fresh_version es = CHR ''v'' # concat (map entry_version es)"

record mem =
  m_pods :: "Pod list"
  m_events :: "Event list"
  m_pvcs :: "PersistentVolumeClaim list"
  m_scs :: "StorageClass list"
  m_log :: "log_entry list"
  m_clock :: gotime

definition or_not_found :: "'a option \<Rightarrow> (api_error, 'a) result" where
  "or_not_found x = (case x of None \<Rightarrow> Inl NotFound | Some y \<Rightarrow> Inr y)"

definition mem_create :: "SchedulingDecision \<Rightarrow> mem \<Rightarrow> api_error option \<times> mem" where
  "mem_create d m =
     (case log_live (m_log m) (decision_name_of d) of
        Some _ \<Rightarrow> (Some AlreadyExists, m)
      | None \<Rightarrow> (None, m\<lparr>m_log := Put (with_version (fresh_version (m_log m)) (d\<lparr>sd_Status := zero_Status\<rparr>)) # m_log m\<rparr>))"

definition mem_update :: "(gotime \<Rightarrow> gotime) \<Rightarrow> SchedulingDecision \<Rightarrow> mem \<Rightarrow> api_error option \<times> mem" where
  "mem_update ptime d m =
     (case log_live (m_log m) (decision_name_of d) of
        None \<Rightarrow> (Some NotFound, m)
      | Some cur \<Rightarrow>
          if version_of cur \<noteq> version_of d then (Some Conflict, m)
          else (None, m\<lparr>m_log := Put (with_version (fresh_version (m_log m))
                  (cur\<lparr>sd_Status := persist_status ptime (sd_Status d)\<rparr>)) # m_log m\<rparr>))"

definition mem_delete :: "SchedulingDecision \<Rightarrow> mem \<Rightarrow> api_error option \<times> mem" where
  "mem_delete d m =
     (case log_live (m_log m) (decision_name_of d) of
        None \<Rightarrow> (Some NotFound, m)
      | Some _ \<Rightarrow> (None, m\<lparr>m_log := Del (decision_name_of d) # m_log m\<rparr>))"

definition mem_list :: "mem \<Rightarrow> SchedulingDecision list" where
  "mem_list m = List.map_filter (log_live (m_log m)) (remdups (map entry_name (m_log m)))"

text \<open>The classic Event timestamps are \<open>metav1.Time\<close> too; \<open>eventTime\<close> keeps microseconds.\<close>

definition persist_event :: "(gotime \<Rightarrow> gotime) \<Rightarrow> Event \<Rightarrow> Event" where
  "persist_event ptime e =
     e\<lparr>ev_FirstTimestamp := ptime (ev_FirstTimestamp e), ev_LastTimestamp := ptime (ev_LastTimestamp e)\<rparr>"

definition mem_env :: "nat \<Rightarrow> (gotime \<Rightarrow> gotime) \<Rightarrow> mem env" where
  "mem_env steps ptime =
     \<lparr>ListEvents = (\<lambda>ns key m. (Inr (indexed_events (m_events m) ns key), m)),
      GetPod = (\<lambda>k m. (or_not_found (find (\<lambda>p. pod_Namespace p = nn_Namespace k \<and> pod_Name p = nn_Name k) (m_pods m)), m)),
      GetPVC = (\<lambda>k m. (or_not_found (find (\<lambda>p. pvc_Namespace p = nn_Namespace k \<and> pvc_Name p = nn_Name k) (m_pvcs m)), m)),
      GetStorageClass = (\<lambda>n m. (or_not_found (find (\<lambda>s. sc_Name s = n) (m_scs m)), m)),
      GetDecision = (\<lambda>n m. (or_not_found (log_live (m_log m) n), m)),
      ListDecisions = (\<lambda>m. (Inr \<lparr>dl_Items = mem_list m\<rparr>, m)),
      CreateDecision = mem_create,
      UpdateStatus = mem_update ptime,
      DeleteDecision = mem_delete,
      CreateEvent = (\<lambda>e m. (None, m\<lparr>m_events := m_events m @ [persist_event ptime e]\<rparr>)),
      Now = m_clock,
      OnError = retry_attempts steps\<rparr>"

definition mem_vs :: "mem \<Rightarrow> vstore" where
  "mem_vs m = \<lparr>vs_live = log_live (m_log m), vs_past = log_past (m_log m)\<rparr>"

section \<open>The laws hold\<close>

lemma log_live_past: "log_live es n = Some d \<Longrightarrow> decision_name_of d = n \<and> log_past es (n, version_of d) = Some d"
  by (induction es n rule: log_live.induct) (auto split: if_splits)

lemma log_past_version: "log_past es (n, v) = Some d \<Longrightarrow> length v \<le> length (concat (map entry_version es))"
  by (induction es "(n, v)" rule: log_past.induct) (auto split: if_splits)

lemma log_past_fresh [simp]: "log_past es (n, fresh_version es) = None"
  using log_past_version [of es n "fresh_version es"]
  by (cases "log_past es (n, fresh_version es)") (auto simp: fresh_version_def)

lemma log_commit:
  "\<lparr>vs_live = log_live (Put d # es), vs_past = log_past (Put d # es)\<rparr> =
     vs_commit d \<lparr>vs_live = log_live es, vs_past = log_past es\<rparr>"
  by (simp add: vs_commit_def fun_eq_iff)

lemmas mem_defs = mem_env_def mem_vs_def mem_create_def mem_update_def or_not_found_def

interpretation mem_api: quiet_env "mem_env 4 whole_seconds" mem_vs whole_seconds 4
proof (unfold_locales, goal_cases)
  case (7 n w d w')
  then show ?case by (auto simp: mem_defs split: option.splits dest: log_live_past)
next
  case (8 d w w')
  then show ?case
    unfolding created_def
    by (intro exI [of _ "mem_vs w"] exI [of _ "fresh_version (m_log w)"])
      (auto simp: mem_defs log_commit split: option.splits)
next
  case (10 d w w')
  then show ?case
    unfolding updated_def
    by (cases "log_live (m_log w) (decision_name_of d)")
      (auto simp: mem_defs log_commit split: if_splits intro!: exI [of _ "mem_vs w"] exI [of _ "fresh_version (m_log w)"])
next
  case (19 w d)
  then show ?case
    by (auto simp: mem_defs same_view_def contents_def content_def fun_eq_iff split: option.splits)
next
  case (20 w d cur)
  then show ?case
    using log_live_past [of "m_log w" "decision_name_of d" cur]
    by (auto simp: mem_defs same_view_def contents_def content_def fun_eq_iff)
qed (auto simp: mem_defs whole_seconds_def split: option.splits if_splits)

section \<open>The sweep's contract\<close>

lemma log_live_entry: "log_live es n = Some d \<Longrightarrow> n \<in> entry_name ` set es"
  by (induction es n rule: log_live.induct) (auto split: if_splits)

lemma set_mem_list:
  "d \<in> set (mem_list m) \<longleftrightarrow> log_live (m_log m) (decision_name_of d) = Some d"
proof
  assume "d \<in> set (mem_list m)"
  then obtain n where "log_live (m_log m) n = Some d"
    by (auto simp: mem_list_def in_set_map_filter)
  with log_live_past [OF this] show "log_live (m_log m) (decision_name_of d) = Some d" by simp
next
  assume live: "log_live (m_log m) (decision_name_of d) = Some d"
  with log_live_entry [OF this] show "d \<in> set (mem_list m)"
    by (auto simp: mem_list_def in_set_map_filter)
qed

interpretation mem_sweep: sweep_api "mem_env 4 whole_seconds" "\<lambda>m. log_live (m_log m)"
  by unfold_locales
    (auto simp: mem_env_def mem_delete_def set_mem_list fun_eq_iff log_live_past split: option.splits if_splits)

end
