(* ===== verification/Busy_Api.thy ===== *)
theory Busy_Api
  imports Mem_Api
begin

text \<open>
  A second environment for the controller's contract, with what makes its life hard: the first
  reads of a decision are served from an outdated cache, and before each status write another
  replica of the controller may append a transition of its own. The interpretation shows that
  \<open>shared_env\<close> holds there; \<open>quiet_env\<close> does not.
\<close>

record busy =
  b_mem :: mem
  b_script :: "(string \<times> SchedulingTransition) list"
  b_stale :: nat

text \<open>The oldest version of an object in the log: what a cache that is far behind returns.\<close>

fun oldest_version :: "log_entry list \<Rightarrow> string \<Rightarrow> string option" where
  "oldest_version [] n = None"
| "oldest_version (Put d # es) n =
     (case oldest_version es n of Some v \<Rightarrow> Some v
      | None \<Rightarrow> if decision_name_of d = n then Some (version_of d) else None)"
| "oldest_version (Del m # es) n = oldest_version es n"

definition stale_decision :: "log_entry list \<Rightarrow> string \<Rightarrow> SchedulingDecision option" where
  "stale_decision es n = (case oldest_version es n of None \<Rightarrow> None | Some v \<Rightarrow> log_past es (n, v))"

definition busy_get :: "string \<Rightarrow> busy \<Rightarrow> (api_error, SchedulingDecision) result \<times> busy" where
  "busy_get n b =
     (if b_stale b = 0 then (or_not_found (log_live (m_log (b_mem b)) n), b)
      else (or_not_found (stale_decision (m_log (b_mem b)) n), b\<lparr>b_stale := b_stale b - 1\<rparr>))"

text \<open>One step of the other replica.\<close>

definition interfere :: "busy \<Rightarrow> busy" where
  "interfere b =
     (case b_script b of
        [] \<Rightarrow> b
      | (n, t) # rest \<Rightarrow>
          b\<lparr>b_script := rest,
            b_mem := (if sound_transition t then snd (appendAttempt (mem_env 4 whole_seconds) n t (b_mem b))
                      else b_mem b)\<rparr>)"

definition busy_update :: "SchedulingDecision \<Rightarrow> busy \<Rightarrow> api_error option \<times> busy" where
  "busy_update d b =
     (let b1 = interfere b in
      case mem_update whole_seconds d (b_mem b1) of (e, m) \<Rightarrow> (e, b1\<lparr>b_mem := m\<rparr>))"

definition busy_env :: "busy env" where
  "busy_env =
     \<lparr>ListEvents = (\<lambda>ns key b. (Inr (indexed_events (m_events (b_mem b)) ns key), b)),
      GetPod = (\<lambda>k b. (fst (GetPod (mem_env 4 whole_seconds) k (b_mem b)), b)),
      GetPVC = (\<lambda>k b. (fst (GetPVC (mem_env 4 whole_seconds) k (b_mem b)), b)),
      GetStorageClass = (\<lambda>n b. (fst (GetStorageClass (mem_env 4 whole_seconds) n (b_mem b)), b)),
      GetDecision = busy_get,
      ListDecisions = (\<lambda>b. (Inr \<lparr>dl_Items = mem_list (b_mem b)\<rparr>, b)),
      CreateDecision = (\<lambda>d b. case mem_create d (b_mem b) of (e, m) \<Rightarrow> (e, b\<lparr>b_mem := m\<rparr>)),
      UpdateStatus = busy_update,
      DeleteDecision = (\<lambda>d b. case mem_delete d (b_mem b) of (e, m) \<Rightarrow> (e, b\<lparr>b_mem := m\<rparr>)),
      CreateEvent = (\<lambda>e b. (None, b\<lparr>b_mem := (b_mem b)\<lparr>m_events := m_events (b_mem b) @ [persist_event whole_seconds e]\<rparr>\<rparr>)),
      Now = (\<lambda>b. m_clock (b_mem b)),
      OnError = retry_attempts 4\<rparr>"

definition busy_vs :: "busy \<Rightarrow> vstore" where
  "busy_vs b = mem_vs (b_mem b)"

lemma log_past_key: "log_past es (n, v) = Some d \<Longrightarrow> decision_name_of d = n \<and> version_of d = v"
  by (induction es "(n, v)" rule: log_past.induct) (auto split: if_splits)

lemma stale_decision_known:
  "stale_decision es n = Some d \<Longrightarrow> decision_name_of d = n \<and> log_past es (n, version_of d) = Some d"
  by (auto simp: stale_decision_def split: option.splits dest: log_past_key)

lemma interfere_rely: "rely False whole_seconds (busy_vs b) (busy_vs (interfere b))"
  using mem_api.appendAttempt_rely
  by (auto simp: interfere_def busy_vs_def split: list.split)

lemma busy_get_world: "b_mem (snd (busy_get n b)) = b_mem b"
  by (simp add: busy_get_def)

lemma mem_env_calls:
  "CreateDecision (mem_env k p) = mem_create" "UpdateStatus (mem_env k p) = mem_update p"
  by (simp_all add: mem_env_def)

lemma busy_update_mem:
  "busy_update d b = (res, b') \<Longrightarrow> mem_update whole_seconds d (b_mem (interfere b)) = (res, b_mem b')"
  by (auto simp: busy_update_def Let_def split: prod.splits)

interpretation busy_api: shared_env busy_env busy_vs whole_seconds False 4
proof (unfold_locales, goal_cases)
  case (7 n w d w')
  then show ?case
    using stale_decision_known log_live_past
    by (auto simp: busy_env_def busy_get_def busy_vs_def mem_vs_def or_not_found_def
        split: if_splits option.splits)
next
  case (8 d w w')
  then have "mem_create d (b_mem w) = (None, b_mem w')"
    by (auto simp: busy_env_def split: prod.splits)
  with mem_api.create_ok [of d "b_mem w" "b_mem w'"] show ?case by (simp add: mem_env_calls busy_vs_def)
next
  case (9 d w e w')
  then have "mem_create d (b_mem w) = (Some e, b_mem w')"
    by (auto simp: busy_env_def split: prod.splits)
  with mem_api.create_err [of d "b_mem w" e "b_mem w'"] show ?case by (simp add: mem_env_calls busy_vs_def)
next
  case (10 d w w')
  then have "mem_update whole_seconds d (b_mem (interfere w)) = (None, b_mem w')"
    by (intro busy_update_mem) (simp add: busy_env_def)
  with mem_api.update_ok [of d "b_mem (interfere w)" "b_mem w'"] show ?case
    using updated_after [OF interfere_rely [of w]] by (simp add: mem_env_calls busy_vs_def)
next
  case (11 d w e w')
  then have "mem_update whole_seconds d (b_mem (interfere w)) = (Some e, b_mem w')"
    by (intro busy_update_mem) (simp add: busy_env_def)
  with mem_api.update_err [of d "b_mem (interfere w)" e "b_mem w'"] show ?case
    using updated_after [OF interfere_rely [of w]] rely_trans [OF interfere_rely [of w]]
    by (auto simp: mem_env_calls busy_vs_def)
qed (auto simp: busy_env_def busy_vs_def whole_seconds_def busy_get_world)

end
