(* ===== verification/Interleaving.thy ===== *)
theory Interleaving
  imports Busy_Api
begin

text \<open>
  The binaries interleaved at the granularity of API calls. \<open>interleave\<close> turns an environment
  into one in which other actors take a step before each call, following a script; the locale
  \<open>actors\<close> shows that this satisfies the contract \<open>shared_env\<close> with deletions, whatever the
  script, as soon as every actor respects \<open>rely\<close>. The interpretation \<open>team\<close> is the one of this
  repository: the actors are runs of the retention sweep and reconciles of other replicas.
\<close>

definition next_act :: "('a \<Rightarrow> 'w \<Rightarrow> 'w) \<Rightarrow> 'a list \<times> 'w \<Rightarrow> 'a list \<times> 'w" where
  "next_act act w = (case w of ([], m) \<Rightarrow> ([], m) | (a # rest, m) \<Rightarrow> (rest, act a m))"

definition woven_call ::
    "('a \<Rightarrow> 'w \<Rightarrow> 'w) \<Rightarrow> ('w \<Rightarrow> 'r \<times> 'w) \<Rightarrow> 'a list \<times> 'w \<Rightarrow> 'r \<times> 'a list \<times> 'w" where
  "woven_call act call w =
     (case next_act act w of (rest, m) \<Rightarrow> case call m of (x, m') \<Rightarrow> (x, rest, m'))"

definition interleave :: "nat \<Rightarrow> ('a \<Rightarrow> 'w \<Rightarrow> 'w) \<Rightarrow> 'w env \<Rightarrow> ('a list \<times> 'w) env" where
  "interleave steps act E =
     \<lparr>ListEvents = (\<lambda>ns key. woven_call act (ListEvents E ns key)),
      GetPod = (\<lambda>k. woven_call act (GetPod E k)),
      GetPVC = (\<lambda>k. woven_call act (GetPVC E k)),
      GetStorageClass = (\<lambda>n. woven_call act (GetStorageClass E n)),
      GetDecision = (\<lambda>n. woven_call act (GetDecision E n)),
      ListDecisions = woven_call act (ListDecisions E),
      CreateDecision = (\<lambda>d. woven_call act (CreateDecision E d)),
      UpdateStatus = (\<lambda>d. woven_call act (UpdateStatus E d)),
      DeleteDecision = (\<lambda>d. woven_call act (DeleteDecision E d)),
      CreateEvent = (\<lambda>e. woven_call act (CreateEvent E e)),
      Now = (\<lambda>w. Now E (snd w)),
      OnError = retry_attempts steps\<rparr>"

lemma woven_call_eq:
  "woven_call act call w = (x, w') \<longleftrightarrow> call (snd (next_act act w)) = (x, snd w') \<and> fst w' = fst (next_act act w)"
  by (auto simp: woven_call_def split: prod.split)

locale actors = shared_env E vs ptime del steps
  for E :: "'w env" and vs ptime del steps +
  fixes act :: "'a \<Rightarrow> 'w \<Rightarrow> 'w"
  assumes act_rely: "rely True ptime (vs w) (vs (act a w))"
begin

lemma next_act_rely: "rely True ptime (vs (snd w)) (vs (snd (next_act act w)))"
  using act_rely by (auto simp: next_act_def split: list.split prod.split)

lemma woven_call_rely:
  assumes "\<And>m. rely del ptime (vs m) (vs (snd (call m)))"
  shows "rely True ptime (vs (snd w)) (vs (snd (snd (woven_call act call w))))"
proof -
  have "snd (snd (woven_call act call w)) = snd (call (snd (next_act act w)))"
    by (simp add: woven_call_def split: prod.split)
  then show ?thesis
    using rely_trans [OF next_act_rely rely_weaken [OF assms]] by metis
qed

end

sublocale actors \<subseteq> woven: shared_env "interleave steps act E" "\<lambda>w. vs (snd w)" ptime True steps
proof (unfold_locales, goal_cases)
  case 1
  show ?case by (rule ptime_idem)
next
  case (7 n w d w')
  then show ?case using get_known by (auto simp: interleave_def woven_call_eq)
next
  case (8 d w w')
  then have "CreateDecision E d (snd (next_act act w)) = (None, snd w')"
    by (simp add: interleave_def woven_call_eq)
  from create_ok [OF this] show ?case by (rule created_after [OF next_act_rely created_weaken])
next
  case (9 d w e w')
  then have "CreateDecision E d (snd (next_act act w)) = (Some e, snd w')"
    by (simp add: interleave_def woven_call_eq)
  from create_err [OF this] show ?case
    using created_after [OF next_act_rely [of w] created_weaken] rely_trans [OF next_act_rely [of w] rely_weaken] by blast
next
  case (10 d w w')
  then have "UpdateStatus E d (snd (next_act act w)) = (None, snd w')"
    by (simp add: interleave_def woven_call_eq)
  from update_ok [OF this] show ?case by (rule updated_after [OF next_act_rely updated_weaken])
next
  case (11 d w e w')
  then have "UpdateStatus E d (snd (next_act act w)) = (Some e, snd w')"
    by (simp add: interleave_def woven_call_eq)
  from update_err [OF this] show ?case
    using updated_after [OF next_act_rely [of w] updated_weaken] rely_trans [OF next_act_rely [of w] rely_weaken] by blast
next
  case 12
  show ?case by (rule steps_pos)
qed (auto simp: interleave_def intro!: woven_call_rely list_events_rely get_pod_rely get_pvc_rely get_sc_rely get_rely)

section \<open>Sweeps and replicas\<close>

datatype actor =
    Idle
  | RunSweep gotime
  | RunReconcile SchedulingDecisionReconciler NamespacedName

fun team_act :: "actor \<Rightarrow> mem \<Rightarrow> mem" where
  "team_act Idle m = m"
| "team_act (RunSweep now) m = snd (sweep (mem_env 4 whole_seconds) now m)"
| "team_act (RunReconcile r req) m = snd (Reconcile (mem_env 4 whole_seconds) r req m)"

text \<open>Deleting an object forgets no version of it.\<close>

lemma mem_delete_rely: "rely True ptime (mem_vs m) (mem_vs (snd (mem_delete d m)))"
proof -
  have "log_past (Del n # es) = log_past es" for n es by (simp add: fun_eq_iff)
  then show ?thesis
    unfolding rely_def evolves_def vstore_inv_def mem_vs_def mem_delete_def
    by (auto split: option.split if_splits)
qed

lemma mem_sweep_rely: "rely True ptime (mem_vs m) (mem_vs (snd (sweep (mem_env k p) now m)))"
  by (rule sweep_preserves [where P = "\<lambda>w. rely True ptime (mem_vs m) (mem_vs w)"])
    (auto simp: mem_env_def intro: rely_trans mem_delete_rely)

lemma mem_sweep_inv: "vstore_inv ptime (mem_vs m) \<Longrightarrow> vstore_inv ptime (mem_vs (snd (sweep (mem_env k p) now m)))"
  using relyD [OF mem_sweep_rely] by blast

interpretation team: actors "mem_env 4 whole_seconds" mem_vs whole_seconds False 4 team_act
proof unfold_locales
  show "rely True whole_seconds (mem_vs m) (mem_vs (team_act a m))" for a m
    by (cases a) (auto intro: mem_sweep_rely rely_weaken [OF mem_api.Reconcile_rely])
qed

end
