(* ===== verification/Audit_Trail.thy ===== *)
theory Audit_Trail
  imports Interleaving
begin

text \<open>
  The properties of the reconciler, stated over its definitions with the API contracts as explicit
  hypotheses, and run on a concrete cluster. The proofs are the lemmas of the locales
  \<open>shared_env\<close> and \<open>quiet_env\<close>.
\<close>

section \<open>A concrete cluster\<close>

abbreviation sample_env :: "mem env" where
  "sample_env \<equiv> mem_env 4 whole_seconds"

definition sample_world :: "Event list \<Rightarrow> mem" where
  "sample_world events =
     \<lparr>m_pods = [sample_pod], m_events = events,
      m_pvcs = [\<lparr>pvc_Namespace = ''ns'', pvc_Name = ''data'', pvc_StorageClassName = None\<rparr>],
      m_scs = [], m_log = [], m_clock = Time 63900000010 0\<rparr>"

definition sample_req :: NamespacedName where
  "sample_req = \<lparr>nn_Namespace = ''ns'', nn_Name = ''web''\<rparr>"

definition sample_reconciler :: SchedulingDecisionReconciler where
  "sample_reconciler = \<lparr>RetentionWindow = 0\<rparr>"

declare sample_world_def [sample_defs] sample_req_def [sample_defs]

lemmas sample_quiet = mem_api.quiet_env_axioms
lemmas sample_reconcile = mem_api.shared_env_axioms
lemmas sample_retry = mem_api.retry_env_axioms

lemma sample_inv [simp]: "vstore_inv ptime (mem_vs (sample_world es))"
  by (simp add: vstore_inv_def mem_vs_def sample_world_def)

section \<open>A contended cluster\<close>

text \<open>The Pod's decision as one reconcile has recorded it.\<close>

definition sample_recorded :: mem where
  "sample_recorded = snd (Reconcile sample_env sample_reconciler sample_req (sample_world []))"

lemma sample_recorded_inv: "vstore_inv whole_seconds (mem_vs sample_recorded)"
  unfolding sample_recorded_def using relyD [OF mem_api.Reconcile_rely sample_inv] by blast

text \<open>
  Later the Pod is preempted, the cache still has the decision as it was created, and another
  replica writes just before the first status update of the reconcile.
\<close>

definition busy_world :: busy where
  "busy_world =
     \<lparr>b_mem = sample_recorded\<lparr>m_events := [sample_event ''Preempted'' 63900000005 ''m'']\<rparr>,
      b_script = [(''sdec-u1'', newTransition SchedulingOutcomeFailedScheduling (Time 63900000004 0))],
      b_stale = 2\<rparr>"

lemma busy_inv: "vstore_inv whole_seconds (busy_vs busy_world)"
  using sample_recorded_inv by (simp add: busy_world_def busy_vs_def mem_vs_def)

section \<open>Under interference\<close>

text \<open>
  C1: the audit trail is append-only and the store stays well formed. Whatever a reconcile sees
  (stale reads, API errors, conflicts, other writers that respect the same rule between its
  calls), every decision that was live before is live afterwards under the same name with the
  same labels and spec and a history that extends the old one, and every accepted version still
  mirrors its last transition and carries its Pod's UID and a readable expiry label.
\<close>

theorem Reconcile_append_only:
  assumes "shared_env E vs ptime False steps" and "vstore_inv ptime (vs w)"
  shows "vstore_inv ptime (vs (snd (Reconcile E r req w))) \<and>
    (\<forall>n d. vs_live (vs w) n = Some d \<longrightarrow>
       (\<exists>d'. vs_live (vs (snd (Reconcile E r req w))) n = Some d' \<and>
          decision_name_of d' = decision_name_of d \<and> labels_of d' = labels_of d \<and>
          sd_Spec d' = sd_Spec d \<and> prefix (history_of d) (history_of d')))"
  using relyD [OF shared_env.Reconcile_rely [OF assms(1)] assms(2)]
  unfolding evolves_def succeeds_def by blast

theorem Reconcile_append_only_witness:
  "\<exists>d d'. vs_live (busy_vs busy_world) ''sdec-u1'' = Some d \<and>
     vs_live (busy_vs (snd (Reconcile busy_env sample_reconciler sample_req busy_world))) ''sdec-u1'' = Some d' \<and>
     sd_Spec d' = sd_Spec d \<and> prefix (history_of d) (history_of d') \<and>
     map tr_Outcome (history_of d') =
       [SchedulingOutcomeScheduled, SchedulingOutcomeFailedScheduling, SchedulingOutcomePreempted]"
proof -
  let ?w = "snd (Reconcile busy_env sample_reconciler sample_req busy_world)"
  have "vs_live (busy_vs busy_world) ''sdec-u1'' \<noteq> None" by code_simp
  then obtain d where d: "vs_live (busy_vs busy_world) ''sdec-u1'' = Some d" by auto
  have "map_option (\<lambda>d. map tr_Outcome (history_of d)) (vs_live (busy_vs ?w) ''sdec-u1'') =
      Some [SchedulingOutcomeScheduled, SchedulingOutcomeFailedScheduling, SchedulingOutcomePreempted]"
    by code_simp
  then obtain d' where d': "vs_live (busy_vs ?w) ''sdec-u1'' = Some d'"
    "map tr_Outcome (history_of d') =
      [SchedulingOutcomeScheduled, SchedulingOutcomeFailedScheduling, SchedulingOutcomePreempted]" by auto
  from Reconcile_append_only [OF busy_api.shared_env_axioms busy_inv, of sample_reconciler sample_req] d
  obtain d'' where "vs_live (busy_vs ?w) ''sdec-u1'' = Some d''" "sd_Spec d'' = sd_Spec d"
    "prefix (history_of d) (history_of d'')" by blast
  with d d' show ?thesis by auto
qed

text \<open>
  C9: sweeps during a reconcile. When deletions may happen between any two calls, a reconcile still
  keeps the store well formed, forgets and changes no version the server ever accepted, and every
  history was built one transition at a time: each initial part of the history of an accepted
  version is the history of an accepted version of the same decision, with the same labels and
  spec, so a transition is never inserted, dropped or replaced behind a later one, and a decision
  that was deleted and created again starts from an empty history.
\<close>

theorem Reconcile_under_deletions:
  assumes "shared_env E vs ptime True steps" and "vstore_inv ptime (vs w)"
    and "w' = snd (Reconcile E r req w)"
  shows "vstore_inv ptime (vs w') \<and> vs_past (vs w) \<subseteq>\<^sub>m vs_past (vs w') \<and>
    (\<forall>n v d k. vs_past (vs w') (n, v) = Some d \<longrightarrow> k \<le> length (history_of d) \<longrightarrow>
       (\<exists>u d0. vs_past (vs w') (n, u) = Some d0 \<and> labels_of d0 = labels_of d \<and>
          sd_Spec d0 = sd_Spec d \<and> history_of d0 = take k (history_of d)))"
proof -
  from relyD [OF shared_env.Reconcile_rely [OF assms(1)] assms(2)] assms(3)
  have "evolves True (vs w) (vs w')" and inv: "vstore_inv ptime (vs w')" by simp_all
  moreover have "\<exists>u d0. vs_past (vs w') (n, u) = Some d0 \<and> labels_of d0 = labels_of d \<and>
      sd_Spec d0 = sd_Spec d \<and> history_of d0 = take k (history_of d)"
    if "vs_past (vs w') (n, v) = Some d" and "k \<le> length (history_of d)" for n v d k
    using vstore_lineage [OF inv that] unfolding succeeds_def by metis
  ultimately show ?thesis unfolding evolves_def by blast
qed

text \<open>
  The decision of the sample Pod expires while a reconcile is under way: after the reconcile has
  found it, a sweep deletes it, and before the second attempt another replica creates it again.
\<close>

definition swept_world :: "actor list \<times> mem" where
  "swept_world =
     ([Idle, Idle, Idle, RunSweep (Time 63900300000 0), RunReconcile sample_reconciler sample_req],
      sample_recorded\<lparr>m_events := [sample_event ''Preempted'' 63900000005 ''m'']\<rparr>)"

lemma swept_inv: "vstore_inv whole_seconds (mem_vs (snd swept_world))"
  using sample_recorded_inv by (simp add: swept_world_def mem_vs_def)

abbreviation team_env :: "(actor list \<times> mem) env" where
  "team_env \<equiv> interleave 4 team_act sample_env"

theorem Reconcile_under_deletions_witness:
  "\<exists>w'. Reconcile team_env sample_reconciler sample_req swept_world = (None, ([], w')) \<and>
     length (filter (\<lambda>e. case e of Put _ \<Rightarrow> False | Del n \<Rightarrow> n = ''sdec-u1'') (m_log w')) = 1 \<and>
     log_past (m_log (snd swept_world)) \<subseteq>\<^sub>m log_past (m_log w') \<and>
     map_option (\<lambda>d. map tr_Outcome (history_of d)) (log_live (m_log w') ''sdec-u1'') =
       Some [SchedulingOutcomePreempted]"
proof -
  let ?run = "Reconcile team_env sample_reconciler sample_req swept_world"
  have "case ?run of (e, script, w') \<Rightarrow> e = None \<and> script = [] \<and>
      length (filter (\<lambda>e. case e of Put _ \<Rightarrow> False | Del n \<Rightarrow> n = ''sdec-u1'') (m_log w')) = 1 \<and>
      map_option (\<lambda>d. map tr_Outcome (history_of d)) (log_live (m_log w') ''sdec-u1'') =
        Some [SchedulingOutcomePreempted]" by code_simp
  moreover from Reconcile_under_deletions [OF team.woven.shared_env_axioms swept_inv refl, of sample_reconciler sample_req]
  have "log_past (m_log (snd swept_world)) \<subseteq>\<^sub>m log_past (m_log (snd (snd ?run)))"
    by (simp add: mem_vs_def)
  ultimately show ?thesis by (cases ?run) auto
qed

text \<open>
  C8: no transition is lost. When \<open>recordTransition\<close> reports success, the server has accepted a
  version of the decision of that very Pod (its spec has the Pod's UID) whose last transition
  equals the one to be recorded, up to what the wire format keeps of its timestamp. This holds
  whether or not decisions are deleted meanwhile.
\<close>

theorem recordTransition_not_lost:
  assumes "shared_env E vs ptime del steps" and "vstore_inv ptime (vs w)"
    and "deriveTransition now pod podFound events = Some (i, t)"
    and "recordTransition E r i t podFound pod w = (None, w')"
  shows "\<exists>v d. vs_past (vs w') (decisionName (pi_UID i), v) = Some d \<and>
    sp_PodUID (sd_Spec d) = pi_UID i \<and> history_of d \<noteq> [] \<and>
    transitionsEqual (last (history_of d)) (persist_transition ptime t)"
proof -
  note sound = deriveTransition_sound [OF assms(3)]
  from shared_env.recordTransition_recorded [OF assms(1,2) sound assms(4)] obtain v d where
    d: "vs_past (vs w') (decisionName (pi_UID i), v) = Some d" "history_of d \<noteq> []"
      "transitionsEqual (last (history_of d)) (persist_transition ptime t)" by blast
  have "vstore_inv ptime (vs w')"
    using relyD [OF shared_env.recordTransition_rely [OF assms(1) sound] assms(2), of r i podFound pod]
      assms(4) by simp
  with d(1) have "decision_inv ptime (decisionName (pi_UID i)) d" unfolding vstore_inv_def by blast
  then have "sp_PodUID (sd_Spec d) = pi_UID i" by (auto simp: decision_inv_def)
  with d show ?thesis by blast
qed

theorem recordTransition_not_lost_witness:
  "\<exists>i t w' v d. recordTransition sample_env sample_reconciler i t True sample_pod (sample_world []) = (None, w') \<and>
     vs_past (mem_vs w') (decisionName (pi_UID i), v) = Some d \<and>
     transitionsEqual (last (history_of d)) (persist_transition whole_seconds t)"
proof -
  have "case deriveTransition zero_time sample_pod True [] of None \<Rightarrow> False
    | Some (i, t) \<Rightarrow> fst (recordTransition sample_env sample_reconciler i t True sample_pod (sample_world [])) = None"
    by code_simp
  then obtain i t where "deriveTransition zero_time sample_pod True [] = Some (i, t)"
    and "fst (recordTransition sample_env sample_reconciler i t True sample_pod (sample_world [])) = None"
    by (auto split: option.splits)
  with recordTransition_not_lost [OF sample_reconcile, of "sample_world []" zero_time sample_pod True "[]" i t sample_reconciler]
  show ?thesis by (metis prod.collapse sample_inv)
qed

text \<open>
  Retrying makes progress. When the first \<open>k\<close> attempts to append a transition fail with a
  conflict or a missing object and the next one succeeds, within the attempt limit,
  \<open>appendTransitionWithRetry\<close> succeeds with the effect of exactly those attempts.
\<close>

theorem append_retries:
  assumes "retry_env E steps" and "k < steps"
    and "\<And>j. j < k \<Longrightarrow> fst (appendAttempt E n t (after_attempts (appendAttempt E n t) j w)) \<in> {Some Conflict, Some NotFound}"
    and "appendAttempt E n t (after_attempts (appendAttempt E n t) k w) = (None, w')"
  shows "appendTransitionWithRetry E n t w = (None, w')"
proof -
  let ?f = "appendAttempt E n t"
  have "\<exists>e. fst (?f (after_attempts ?f j w)) = Some e \<and> retriable e" if "j < k" for j
    using assms(3) [OF that] by (auto simp: retriable_def)
  then have "retry_attempts steps retriable ?f w = (None, w')"
    using retry_attempts_decides [of k steps ?f w retriable] assms(2,4) by simp
  with retry_env.OnError_attempts [OF assms(1)] show ?thesis
    by (simp add: appendTransitionWithRetry_def)
qed

text \<open>A server that needs four attempts: twice not found, once a conflict, then success.\<close>

definition flaky_env :: "nat env" where
  "flaky_env = down_env
     \<lparr>GetDecision := \<lambda>n w. (if w < 2 then Inl NotFound
          else Inr (newDecision 0 n \<lparr>pi_UID = ''u1'', pi_Name = ''web'', pi_Namespace = ''ns'', pi_SchedulerName = ''''\<rparr> None), Suc w),
      UpdateStatus := \<lambda>d w. (if w < 4 then Some Conflict else None, Suc w),
      OnError := retry_attempts 5\<rparr>"

lemma flaky_retry: "retry_env flaky_env 5"
  by unfold_locales (simp_all add: flaky_env_def)

theorem append_retries_witness:
  "appendTransitionWithRetry flaky_env ''sdec-u1'' (newTransition SchedulingOutcomeScheduled zero_time) 0 = (None, 6)"
proof -
  let ?f = "appendAttempt flaky_env ''sdec-u1'' (newTransition SchedulingOutcomeScheduled zero_time)"
  have f: "?f 0 = (Some NotFound, 1)" "?f 1 = (Some NotFound, 2)" "?f 2 = (Some Conflict, 4)" "?f 4 = (None, 6)"
    by (simp_all add: appendAttempt_def flaky_env_def down_env_def newDecision_def zero_Status_def)
  show ?thesis
  proof (rule append_retries [OF flaky_retry])
    show "(3 :: nat) < 5" by simp
    show "fst (?f (after_attempts ?f j 0)) \<in> {Some Conflict, Some NotFound}" if "j < 3" for j
    proof -
      from that consider "j = 0" | "j = Suc 0" | "j = Suc (Suc 0)" by linarith
      then show ?thesis using f by cases simp_all
    qed
    show "?f (after_attempts ?f 3 0) = (None, 6)" using f by (simp add: numeral_3_eq_3)
  qed
qed

text \<open>
  An error that is neither a conflict nor a missing object is reported at once: one attempt,
  its error wrapped with the decision's name, its effect kept.
\<close>

theorem append_gives_up:
  assumes "retry_env E steps" and "appendAttempt E n t w = (Some e, w')" and "e \<notin> {Conflict, NotFound}"
  shows "appendTransitionWithRetry E n t w =
    (Some (Wrapf (''updating status for SchedulingDecision '' @ n) (ApiErr e)), w')"
proof -
  let ?f = "appendAttempt E n t"
  have "retry_attempts steps retriable ?f w = (Some e, w')"
    using retry_attempts_decides [of 0 steps ?f w retriable] assms(2,3) retry_env.steps_pos [OF assms(1)]
    by (auto simp: retriable_def)
  with retry_env.OnError_attempts [OF assms(1)] show ?thesis
    by (simp add: appendTransitionWithRetry_def)
qed

theorem append_gives_up_witness:
  "appendTransitionWithRetry (down_env\<lparr>OnError := retry_attempts 4\<rparr>) ''x'' (newTransition OutcomeUnset zero_time) () =
    (Some (Wrapf ''updating status for SchedulingDecision x'' (ApiErr (OtherError ''down''))), ())"
proof -
  have "retry_env (down_env\<lparr>OnError := retry_attempts 4\<rparr>) 4" by unfold_locales simp_all
  from append_gives_up [OF this, of "''x''" "newTransition OutcomeUnset zero_time" "()" "OtherError ''down''"]
  show ?thesis by (simp add: appendAttempt_def down_env_def)
qed

text \<open>
  Ensuring that a decision exists succeeds exactly when one is found, or none is found and the
  create succeeds or loses to a concurrent create. A failing volume lookup never blocks the
  record, and a decision that exists is left alone.
\<close>

theorem ensureDecisionCreated_succeeds_iff:
  "fst (ensureDecisionCreated E r name i podFound pod w) = None \<longleftrightarrow>
    (case GetDecision E name w of
       (Inr d, w1) \<Rightarrow> ensureDecisionCreated E r name i podFound pod w = (None, w1)
     | (Inl e, w1) \<Rightarrow> e = NotFound \<and>
         (let (v, w2) = (if podFound then resolveVolumeContext E pod w1 else (Inr None, w1));
              vol = (case v of Inl _ \<Rightarrow> None | Inr vc \<Rightarrow> vc);
              d = newDecision (time_unix (time_add (Now E w1) (retentionWindow r))) name i vol
          in fst (CreateDecision E d w2) \<in> {None, Some AlreadyExists}))"
  by (auto simp: ensureDecisionCreated_def Let_def split: prod.split sum.split option.split)

section \<open>Alone\<close>

text \<open>
  On a server that answers every call, with current reads and no other writer (\<open>quiet_env\<close>).
\<close>

text \<open>
  C13: idempotence. When the evidence fixes the decision's timestamp (a condition with a transition
  time, or a matching Event) and the timestamp survives the wire format, repeating a reconcile
  any number of times changes nothing any more after the first one.
\<close>

theorem Reconcile_idempotent:
  assumes "quiet_env E vs ptime steps" and "observation E req w = Inr (found, pod, items)"
    and "timestamp_settled pod items"
    and "deriveTransition (Now E w) pod found items = Some (i, t)"
    and "ptime (tr_DecisionTimestamp t) = tr_DecisionTimestamp t"
  shows "contents (vs (reconcile_times (Suc k) E r req w)) = contents (vs (snd (Reconcile E r req w)))"
  using quiet_env.times_idempotent [OF assms] by simp

theorem Reconcile_idempotent_witness:
  "contents (mem_vs (reconcile_times 7 sample_env sample_reconciler sample_req (sample_world []))) =
   contents (mem_vs (snd (Reconcile sample_env sample_reconciler sample_req (sample_world []))))"
proof -
  have obs: "observation sample_env sample_req (sample_world []) = Inr (True, sample_pod, [])" by code_simp
  have "case deriveTransition (Now sample_env (sample_world [])) sample_pod True [] of None \<Rightarrow> False
    | Some (i, t) \<Rightarrow> whole_seconds (tr_DecisionTimestamp t) = tr_DecisionTimestamp t" by code_simp
  then obtain i t where "deriveTransition (Now sample_env (sample_world [])) sample_pod True [] = Some (i, t)"
    and "whole_seconds (tr_DecisionTimestamp t) = tr_DecisionTimestamp t" by (auto split: option.splits)
  moreover have "timestamp_settled sample_pod []" by code_simp
  ultimately show ?thesis
    using Reconcile_idempotent [OF sample_quiet obs, of i t 6 sample_reconciler] by simp
qed

text \<open>
  C37: a timestamp that the wire format truncates breaks deduplication. When the derived timestamp
  has a sub-second part (an Event's \<open>eventTime\<close> has microseconds), the stored last transition
  never equals the derived one, and every further reconcile of unchanged evidence appends
  another copy.
\<close>

theorem Reconcile_duplicates:
  assumes "quiet_env E vs ptime steps" and "vstore_inv ptime (vs w)"
    and "observation E req w = Inr (found, pod, items)" and "timestamp_settled pod items"
    and "deriveTransition (Now E w) pod found items = Some (i, t)"
    and "ptime (tr_DecisionTimestamp t) \<noteq> tr_DecisionTimestamp t"
  shows "recorded_history (contents (vs (reconcile_times k E r req w))) (decisionName (pi_UID i)) =
    recorded_history (contents (vs w)) (decisionName (pi_UID i)) @ replicate k (persist_transition ptime t)"
  using quiet_env.times_duplicates [OF assms, of k r] by simp

definition micro_event :: Event where
  "micro_event = (sample_event ''Preempted'' 63900000002 ''m'')
     \<lparr>ev_LastTimestamp := zero_time, ev_EventTime := Time 63900000002 500000000\<rparr>"

theorem Reconcile_duplicates_witness:
  "length (recorded_history (contents (mem_vs
     (reconcile_times 3 sample_env sample_reconciler sample_req (sample_world [micro_event])))) ''sdec-u1'') = 3"
proof -
  let ?w = "sample_world [micro_event]"
  have obs: "observation sample_env sample_req ?w = Inr (True, sample_pod, [micro_event])" by code_simp
  have "case deriveTransition (Now sample_env ?w) sample_pod True [micro_event] of None \<Rightarrow> False
    | Some (i, t) \<Rightarrow> pi_UID i = ''u1'' \<and> whole_seconds (tr_DecisionTimestamp t) \<noteq> tr_DecisionTimestamp t"
    by code_simp
  then obtain i t where d: "deriveTransition (Now sample_env ?w) sample_pod True [micro_event] = Some (i, t)"
    and t: "whole_seconds (tr_DecisionTimestamp t) \<noteq> tr_DecisionTimestamp t" and i: "pi_UID i = ''u1''"
    by (auto split: option.splits)
  have "timestamp_settled sample_pod [micro_event]" by code_simp
  from Reconcile_duplicates [OF sample_quiet sample_inv obs this d t, of 3 sample_reconciler] i
  show ?thesis
    by (simp add: decisionName_def recorded_history_def contents_def mem_vs_def sample_world_def)
qed

text \<open>
  C39: candidates that arrive late are not stored when the timestamp survives the wire format. Once a
  transition with such a timestamp is recorded, on a server that answers every call and that nobody
  else writes to, recording the same transition with another list of candidate nodes leaves the store
  as it is, because the comparison with the last entry does not look at the candidates. (With a
  sub-second timestamp the comparison fails and another copy is appended, see
  \<open>Reconcile_duplicates\<close>.)
\<close>

theorem late_candidates_dropped:
  assumes "quiet_env E vs ptime steps" and "ptime (tr_DecisionTimestamp t) = tr_DecisionTimestamp t"
    and "w1 = snd (recordTransition E r i t podFound pod w)"
  shows "contents (vs (snd (recordTransition E r i (t\<lparr>tr_CandidateNodes := nodes\<rparr>) podFound pod w1))) =
    contents (vs w1)"
proof -
  have "transitionsEqual t (t\<lparr>tr_CandidateNodes := nodes\<rparr>)" by (simp add: transitionsEqual_def)
  note again = record_spec_again [where ptime = ptime and t = t, OF assms(2) this]
  obtain w2 where "recordTransition E r i (t\<lparr>tr_CandidateNodes := nodes\<rparr>) podFound pod w1 = (None, w2)"
    and "contents (vs w2) = record_spec ptime (new_content E r i podFound pod w1) (decisionName (pi_UID i))
      (t\<lparr>tr_CandidateNodes := nodes\<rparr>) (contents (vs w1))"
    using quiet_env.record_quiet [OF assms(1)] by metis
  moreover have "contents (vs w1) = record_spec ptime (new_content E r i podFound pod w)
      (decisionName (pi_UID i)) t (contents (vs w))"
    using quiet_env.record_quiet [OF assms(1), of r i t podFound pod w] assms(3) by auto
  ultimately show ?thesis by (simp add: again)
qed

theorem late_candidates_dropped_witness:
  "\<exists>i t w1. w1 = snd (recordTransition sample_env sample_reconciler i t True sample_pod (sample_world [])) \<and>
     tr_CandidateNodes t = [] \<and> deriveTransition zero_time sample_pod True [] = Some (i, t) \<and>
     contents (mem_vs (snd (recordTransition sample_env sample_reconciler i
       (t\<lparr>tr_CandidateNodes := [\<lparr>cn_Name = ''n1'', cn_FilterResult = [], cn_Score = None\<rparr>]\<rparr>) True sample_pod w1))) =
     contents (mem_vs w1)"
proof -
  have "case deriveTransition zero_time sample_pod True [] of None \<Rightarrow> False
    | Some (i, t) \<Rightarrow> whole_seconds (tr_DecisionTimestamp t) = tr_DecisionTimestamp t \<and> tr_CandidateNodes t = []"
    by code_simp
  then obtain i t where "deriveTransition zero_time sample_pod True [] = Some (i, t)"
    and "whole_seconds (tr_DecisionTimestamp t) = tr_DecisionTimestamp t" and "tr_CandidateNodes t = []"
    by (auto split: option.splits)
  with late_candidates_dropped [OF sample_quiet _ refl, of t] show ?thesis by blast
qed

end
