(* ===== verification/Extender.thy ===== *)
theory Extender
  imports Decision
begin

text \<open>
  \<open>cmd/extender/main.go\<close>: the scheduler extender that observes Filter calls. The decoder of the
  request body (\<open>encoding/json\<close> on the scheduler's \<open>ExtenderArgs\<close>) is an argument of the
  handler; a JSON response is the value that is encoded. Node objects are carried unread apart
  from their name.
\<close>

section \<open>HTTP responses\<close>

datatype 'a http_body = EmptyBody | TextBody string | JsonBody 'a

record 'a http_response =
  rs_Code :: nat
  rs_ContentType :: string
  rs_Body :: "'a http_body"

text \<open>\<open>http.Error\<close>: a plain text body that ends in a newline.\<close>

definition http_Error :: "string \<Rightarrow> nat \<Rightarrow> 'a http_response" where
  "http_Error msg code =
     \<lparr>rs_Code = code, rs_ContentType = ''text/plain; charset=utf-8'',
      rs_Body = TextBody (msg @ [CHR 0x0A])\<rparr>"

section \<open>The extender\<close>

record Node =
  node_Name :: string
  node_Object :: string

record ExtenderArgs =
  ea_Pod :: "Pod option"
  ea_Nodes :: "Node list option"
  ea_NodeNames :: "string list option"

record ExtenderFilterResult =
  fr_Nodes :: "Node list option"
  fr_NodeNames :: "string list option"
  fr_FailedNodes :: "(string \<times> string) list"
  fr_FailedAndUnresolvableNodes :: "(string \<times> string) list"
  fr_Error :: string

definition reportingController :: string where
  "reportingController = ''sch-audit-extender''"

definition candidateNodeNames :: "ExtenderArgs \<Rightarrow> string list" where
  "candidateNodeNames args =
     (case ea_NodeNames args of
        Some names \<Rightarrow> names
      | None \<Rightarrow> (case ea_Nodes args of Some items \<Rightarrow> map node_Name items | None \<Rightarrow> []))"

definition passthroughResult :: "ExtenderArgs \<Rightarrow> ExtenderFilterResult" where
  "passthroughResult args =
     \<lparr>fr_Nodes = ea_Nodes args, fr_NodeNames = ea_NodeNames args, fr_FailedNodes = [],
      fr_FailedAndUnresolvableNodes = [], fr_Error = ''''\<rparr>"

text \<open>The Event literal of \<open>recordCandidateNodes\<close>.\<close>

definition candidateEvent :: "gotime \<Rightarrow> Pod \<Rightarrow> string list \<Rightarrow> Event" where
  "candidateEvent now pod names =
     \<lparr>ev_Namespace = pod_Namespace pod, ev_GenerateName = ''sch-audit-candidates-'',
      ev_UID = '''', ev_CreationTimestamp = zero_time,
      ev_InvolvedObject =
        \<lparr>or_Kind = ''Pod'', or_Namespace = pod_Namespace pod, or_Name = pod_Name pod, or_UID = pod_UID pod\<rparr>,
      ev_Reason = CandidateNodesEventReason, ev_Message = str_join '','' names,
      ev_Type = ''Normal'', ev_ReportingController = reportingController,
      ev_SourceComponent = '''', ev_FirstTimestamp = now, ev_LastTimestamp = now,
      ev_EventTime = zero_time\<rparr>"

definition recordCandidateNodes ::
    "'w env \<Rightarrow> Pod \<Rightarrow> string list \<Rightarrow> 'w \<Rightarrow> api_error option \<times> 'w" where
  "recordCandidateNodes E pod names w = CreateEvent E (candidateEvent (Now E w) pod names) w"

definition filterHandler ::
    "'w env \<Rightarrow> (string \<Rightarrow> (string, ExtenderArgs) result) \<Rightarrow> string \<Rightarrow> 'w \<Rightarrow>
     ExtenderFilterResult http_response \<times> 'w" where
  "filterHandler E decode body w =
     (case decode body of
        Inl err \<Rightarrow> (http_Error (''decoding ExtenderArgs: '' @ err) 400, w)
      | Inr args \<Rightarrow>
          (let names = candidateNodeNames args;
               w' = (case ea_Pod args of
                       None \<Rightarrow> w
                     | Some pod \<Rightarrow>
                         if 0 < length names
                         then (case recordCandidateNodes E pod names w of (err, w1) \<Rightarrow> w1)
                         else w)
           in (\<lparr>rs_Code = 200, rs_ContentType = ''application/json'',
                rs_Body = JsonBody (passthroughResult args)\<rparr>, w')))"

section \<open>The candidate list on the wire\<close>

text \<open>Names as Kubernetes allows them: not empty, printable, without spaces or commas.\<close>

definition valid_names :: "string list \<Rightarrow> bool" where
  "valid_names names \<longleftrightarrow> names \<noteq> [] \<and> (\<forall>n\<in>set names. n \<noteq> [] \<and> (\<forall>c\<in>set n. graphic c \<and> c \<noteq> CHR '',''))"

lemma parseCandidateNames_join:
  assumes "valid_names names"
  shows "parseCandidateNames (str_join '','' names) = names"
proof -
  from assms have "str_split CHR '','' (str_join '','' names) = names"
    by (intro str_split_join) (auto simp: valid_names_def)
  moreover from assms have "map trim_space names = names"
    by (intro map_idI) (auto simp: valid_names_def intro: trim_space_graphic)
  ultimately show ?thesis using assms by (auto simp: parseCandidateNames_def valid_names_def)
qed

definition decode_candidates :: "string \<Rightarrow> (unit, string list) result" where
  "decode_candidates message = Inr (parseCandidateNames message)"

interpretation candidate_message: wire_codec "str_join '',''" decode_candidates valid_names
  by unfold_locales (simp add: decode_candidates_def parseCandidateNames_join)

lemma valid_names_message: "valid_names names \<Longrightarrow> str_join '','' names \<noteq> []"
  unfolding str_join_eq_Nil valid_names_def by (metis list.set_intros(1))

text \<open>
  An Event whose message is such a list and that is strictly newer than every other
  CandidateNodes Event is what the controller reads, wherever it stands in the list.
\<close>

lemma candidateNodesFrom_newest:
  assumes "valid_names names" and "ev_Reason ev = eventReasonCandidateNodes"
    and "ev_Message ev = str_join '','' names" and "ev \<in> set events"
    and "\<And>e. e \<in> set events \<Longrightarrow> ev_Reason e = eventReasonCandidateNodes \<Longrightarrow> e = ev \<or> eventTimestamp e < eventTimestamp ev"
  shows "map cn_Name (candidateNodesFrom events) = names"
proof -
  from assms(4) obtain xs ys where split: "events = xs @ ev # ys" "ev \<notin> set xs" by (meson split_list_first)
  then have "first_maximal eventTimestamp (\<lambda>e. ev_Reason e = eventReasonCandidateNodes) ev events"
    unfolding first_maximal_def using assms(2) assms(5) by (intro exI [of _ xs] exI [of _ ys]) fastforce
  then have "latestEventWithReason events eventReasonCandidateNodes = Some ev"
    by (simp add: latestEventWithReason_first_maximal)
  with assms(1,3) candidate_message.dec_enc [of names] show ?thesis
    by (simp add: candidateNodesFrom_def valid_names_message decode_candidates_def comp_def)
qed

section \<open>The extender only observes\<close>

text \<open>
  C16: whatever the API client does, a decodable Filter call is answered with status 200 and
  exactly the nodes and node names it carried, with no failed node and no error: registering the
  extender cannot change where a Pod lands.
\<close>

theorem filterHandler_passthrough:
  assumes "decode body = Inr args"
  shows "fst (filterHandler E decode body w) =
    \<lparr>rs_Code = 200, rs_ContentType = ''application/json'',
     rs_Body = JsonBody \<lparr>fr_Nodes = ea_Nodes args, fr_NodeNames = ea_NodeNames args,
                         fr_FailedNodes = [], fr_FailedAndUnresolvableNodes = [], fr_Error = ''''\<rparr>\<rparr>"
  using assms by (simp add: filterHandler_def passthroughResult_def Let_def)

theorem filterHandler_passthrough_witness:
  "fst (filterHandler down_env
      (\<lambda>_. Inr \<lparr>ea_Pod = Some sample_pod, ea_Nodes = None, ea_NodeNames = Some [''n1'', ''n2'']\<rparr>) ''{}'' ()) =
    \<lparr>rs_Code = 200, rs_ContentType = ''application/json'',
     rs_Body = JsonBody \<lparr>fr_Nodes = None, fr_NodeNames = Some [''n1'', ''n2''],
                         fr_FailedNodes = [], fr_FailedAndUnresolvableNodes = [], fr_Error = ''''\<rparr>\<rparr>"
  using filterHandler_passthrough
    [where E = down_env and decode = "\<lambda>_. Inr \<lparr>ea_Pod = Some sample_pod, ea_Nodes = None,
        ea_NodeNames = Some [''n1'', ''n2'']\<rparr>" and args = "\<lparr>ea_Pod = Some sample_pod, ea_Nodes = None, ea_NodeNames = Some [''n1'', ''n2'']\<rparr>",
      OF refl]
  by simp

lemma filterHandler_world:
  "snd (filterHandler E decode body w) =
     (case decode body of
        Inl err \<Rightarrow> w
      | Inr args \<Rightarrow>
          (case ea_Pod args of
             None \<Rightarrow> w
           | Some pod \<Rightarrow>
               if candidateNodeNames args = [] then w
               else snd (CreateEvent E (candidateEvent (Now E w) pod (candidateNodeNames args)) w)))"
  by (auto simp: filterHandler_def recordCandidateNodes_def Let_def
      split: sum.split option.split prod.split)

text \<open>
  The handler touches the cluster at most once, by creating one CandidateNodes Event on the
  Pod, and not at all when the body does not decode (status 400), when there is no Pod, or when
  there are no candidate names.
\<close>

theorem filterHandler_effect:
  "snd (filterHandler E decode body w) =
     (case decode body of
        Inl err \<Rightarrow> w
      | Inr args \<Rightarrow>
          (case ea_Pod args of
             None \<Rightarrow> w
           | Some pod \<Rightarrow>
               if candidateNodeNames args = [] then w
               else snd (CreateEvent E (candidateEvent (Now E w) pod (candidateNodeNames args)) w))) \<and>
   (rs_Code (fst (filterHandler E decode body w)) = 400 \<longleftrightarrow> (\<exists>err. decode body = Inl err))"
  unfolding filterHandler_world
  by (auto simp: filterHandler_def http_Error_def Let_def split: sum.split)

end
