(* ===== verification/Cluster.thy ===== *)
theory Cluster
  imports Audit_Trail Extender
begin

text \<open>
  The binaries together: a state machine whose steps are a reconcile of the controller, a Filter
  call answered by the extender, a run of the sweep, and anything else the cluster does to Pods,
  Events, claims and the clock. The server is the in-memory one of \<open>Mem_Api\<close>; interleavings
  inside a reconcile are the subject of \<open>shared_env\<close>, here a run of a binary is one step.
\<close>

section \<open>Frames\<close>

text \<open>A view of the world that none of its API calls changes is left alone by a reconcile.\<close>

locale call_frame = retry_env E steps for E :: "'w env" and steps +
  fixes view :: "'w \<Rightarrow> 'v"
  assumes view_list_events: "view (snd (ListEvents E ns key w)) = view w"
    and view_pod: "view (snd (GetPod E k w)) = view w"
    and view_pvc: "view (snd (GetPVC E k w)) = view w"
    and view_sc: "view (snd (GetStorageClass E c w)) = view w"
    and view_get: "view (snd (GetDecision E n w)) = view w"
    and view_create: "view (snd (CreateDecision E d w)) = view w"
    and view_update: "view (snd (UpdateStatus E d w)) = view w"
begin

lemmas views = view_list_events view_pod view_pvc view_sc view_get view_create view_update

lemma volumeContextFromPVC_view: "view (snd (volumeContextFromPVC E pvc w)) = view w"
  by (simp add: volumeContextFromPVC_def Let_def case_prod_beta views split: option.split sum.split)

lemma resolveVolumeLoop_view: "view (snd (resolveVolumeLoop E pod vols w)) = view w"
  by (induction vols arbitrary: w)
    (simp_all add: Let_def case_prod_beta views volumeContextFromPVC_view split: option.split sum.split)

lemma ensureDecisionCreated_view: "view (snd (ensureDecisionCreated E r n i podFound pod w)) = view w"
  by (simp add: ensureDecisionCreated_def resolveVolumeContext_def Let_def case_prod_beta views
      resolveVolumeLoop_view split: option.split sum.split)

lemma append_view: "view (snd (appendTransitionWithRetry E n t w)) = view w"
proof -
  have "view (snd (appendAttempt E n t w)) = view w" for w
    by (simp add: appendAttempt_def case_prod_beta views split: sum.split)
  then have "view (snd (retry_attempts steps retriable (appendAttempt E n t) w)) = view w"
    using retry_attempts_rel [where R = "\<lambda>a b. view b = view a" and f = "appendAttempt E n t"] by simp
  then show ?thesis
    by (simp add: appendTransitionWithRetry_def OnError_attempts case_prod_beta split: option.split)
qed

lemma recordTransition_view: "view (snd (recordTransition E r i t podFound pod w)) = view w"
  by (simp add: recordTransition_def Let_def case_prod_beta append_view ensureDecisionCreated_view
      split: option.split)

lemma Reconcile_view: "view (snd (Reconcile E r req w)) = view w"
  by (simp add: Reconcile_def listRelevantEvents_def case_prod_beta recordTransition_view views
      split: sum.split option.split)

end

text \<open>One that also the calls of the extender and the sweep leave alone.\<close>

locale full_frame = call_frame E steps view for E :: "'w env" and steps and view :: "'w \<Rightarrow> 'v" +
  assumes view_list: "view (snd (ListDecisions E w)) = view w"
    and view_delete: "view (snd (DeleteDecision E d w)) = view w"
    and view_event: "view (snd (CreateEvent E e w)) = view w"
begin

lemma filterHandler_view: "view (snd (filterHandler E decode body w)) = view w"
  by (simp add: filterHandler_world view_event split: sum.split option.split)

lemma sweep_view: "view (snd (sweep E now w)) = view w"
  by (rule sweep_preserves [where P = "\<lambda>w'. view w' = view w"]) (simp_all add: view_delete view_list)

end

interpretation clock: full_frame "mem_env 4 whole_seconds" 4 m_clock
  by unfold_locales (auto simp: mem_defs mem_delete_def split: option.split)

section \<open>Steps\<close>

inductive cluster_step ::
    "SchedulingDecisionReconciler \<Rightarrow> (string \<Rightarrow> (string, ExtenderArgs) result) \<Rightarrow> mem \<Rightarrow> mem \<Rightarrow> bool"
  for r decode where
  reconcile: "cluster_step r decode m (snd (Reconcile sample_env r req m))"
| filter: "cluster_step r decode m (snd (filterHandler sample_env decode body m))"
| sweep: "cluster_step r decode m (snd (sweep sample_env (m_clock m) m))"
| outside: "m_log m' = m_log m \<Longrightarrow> m_clock m \<le> m_clock m' \<Longrightarrow> cluster_step r decode m m'"

inductive_cases cluster_stepE [consumes 1, case_names reconcile filter sweep outside]: "cluster_step r decode m m'"

lemma filterHandler_log: "m_log (snd (filterHandler sample_env decode body m)) = m_log m"
  by (simp add: filterHandler_world mem_env_def split: sum.split option.split)

lemma cluster_step_inv:
  assumes "cluster_step r decode m m'" and "vstore_inv whole_seconds (mem_vs m)"
  shows "vstore_inv whole_seconds (mem_vs m')"
  using assms
proof cases
  case (reconcile req)
  with assms(2) show ?thesis using relyD [OF mem_api.Reconcile_rely] by blast
next
  case sweep
  with assms(2) show ?thesis by (simp add: mem_sweep_inv)
qed (simp_all add: mem_vs_def filterHandler_log)

lemma cluster_step_clock: "cluster_step r decode m m' \<Longrightarrow> m_clock m \<le> m_clock m'"
  by (erule cluster_stepE)
    (auto simp: clock.Reconcile_view clock.filterHandler_view clock.sweep_view)

lemma succeeds_expired: "succeeds d d' \<Longrightarrow> is_expired_decision now d' \<longleftrightarrow> is_expired_decision now d"
  by (simp add: succeeds_def is_expired_decision_def)

lemma cluster_run:
  assumes "(cluster_step r decode)\<^sup>*\<^sup>* m m'" and "vstore_inv whole_seconds (mem_vs m)"
  shows "vstore_inv whole_seconds (mem_vs m') \<and> m_clock m \<le> m_clock m'"
  using assms by induction (auto dest: cluster_step_inv cluster_step_clock)

definition no_decode :: "string \<Rightarrow> (string, ExtenderArgs) result" where
  "no_decode body = Inl ''EOF''"

lemma sample_recorded_live: "log_live (m_log sample_recorded) ''sdec-u1'' \<noteq> None"
  by code_simp

lemma sample_run_record: "(cluster_step sample_reconciler no_decode)\<^sup>*\<^sup>* (sample_world []) sample_recorded"
  unfolding sample_recorded_def by (rule r_into_rtranclp) (rule cluster_step.reconcile)

section \<open>Properties of runs\<close>

text \<open>
  C5: in every state reachable from an empty trail, however reconciles, Filter calls, sweeps and
  cluster changes interleave, there is at most one decision per Pod UID, it is stored under the
  name derived from that UID, its status mirrors the last transition of its history, and every
  transition in it has an outcome.
\<close>

theorem cluster_one_decision_per_pod:
  assumes "m_log m0 = []" and "(cluster_step r decode)\<^sup>*\<^sup>* m0 m" and "log_live (m_log m) n = Some d"
  shows "n = decisionName (sp_PodUID (sd_Spec d)) \<and> status_mirrors (sd_Status d) \<and>
    (\<forall>t\<in>set (history_of d). tr_Outcome t \<noteq> OutcomeUnset) \<and>
    (\<forall>n' d'. log_live (m_log m) n' = Some d' \<longrightarrow> sp_PodUID (sd_Spec d') = sp_PodUID (sd_Spec d) \<longrightarrow> d' = d)"
proof -
  from assms(1) have "vstore_inv whole_seconds (mem_vs m0)" by (simp add: vstore_inv_def mem_vs_def)
  with cluster_run [OF assms(2)] have inv: "vstore_inv whole_seconds (mem_vs m)" by blast
  have entry: "decision_inv whole_seconds n d" if "log_live (m_log m) n = Some d" for n d
    using inv that unfolding vstore_inv_def mem_vs_def by (metis vstore.select_convs)
  have name: "n = decisionName (sp_PodUID (sd_Spec d))" if "log_live (m_log m) n = Some d" for n d
    using entry [OF that] by (simp add: decision_inv_def)
  have "d' = d" if "log_live (m_log m) n' = Some d'" and "sp_PodUID (sd_Spec d') = sp_PodUID (sd_Spec d)" for n' d'
    using name [OF that(1)] name [OF assms(3)] that assms(3) by simp
  with entry [OF assms(3)] show ?thesis
    by (auto simp: decision_inv_def sound_transition_def)
qed

theorem cluster_one_decision_per_pod_witness:
  "\<exists>d. log_live (m_log sample_recorded) ''sdec-u1'' = Some d \<and> ''sdec-u1'' = decisionName (sp_PodUID (sd_Spec d))"
proof -
  obtain d where d: "log_live (m_log sample_recorded) ''sdec-u1'' = Some d" using sample_recorded_live by auto
  with cluster_one_decision_per_pod [OF _ sample_run_record d] show ?thesis by (simp add: sample_world_def)
qed

section \<open>The sweep\<close>

text \<open>
  C17: a sweep that ends normally leaves exactly the decisions that are not expired: every expired
  one is gone, everything else (unreadable labels included) is untouched. The hypothesis is the
  API contract \<open>sweep_api\<close>: a current list, deletion by name.
\<close>

theorem sweep_collects:
  assumes "sweep_api E live" and "sweep E now w = (SweepDone c, w')"
  shows "live w' n = (case live w n of None \<Rightarrow> None
     | Some d \<Rightarrow> if isExpired (labels_of d) now = Inr True then None else Some d)"
  using sweep_api.sweep_live [OF assms, of n] by (simp add: is_expired_decision_def split: option.split)

text \<open>
  A sweep never deletes a decision that is not expired or whose label it cannot read, however
  it ends: after a failed list, failed deletions or a normal end.
\<close>

theorem sweep_spares:
  assumes "sweep_api E live" and "live w n = Some d" and "isExpired (labels_of d) now \<noteq> Inr True"
  shows "live (snd (sweep E now w)) n = Some d"
  using sweep_api.sweep_keeps [OF assms(1,2)] assms(3) by (simp add: is_expired_decision_def)

definition sample_decision :: "string \<Rightarrow> (string \<rightharpoonup> string) \<Rightarrow> SchedulingDecision" where
  "sample_decision uid labels =
     \<lparr>sd_ObjectMeta = \<lparr>om_Name = decisionName uid, om_Labels = labels, om_ResourceVersion = uid\<rparr>,
      sd_Spec = \<lparr>sp_PodName = ''p'', sp_PodNamespace = ''ns'', sp_PodUID = uid, sp_SchedulerName = '''',
                 sp_VolumeContext = None\<rparr>,
      sd_Status = zero_Status\<rparr>"

definition sample_expiring :: mem where
  "sample_expiring = (sample_world [])\<lparr>m_log :=
     [Put (sample_decision ''a'' [ExpiresAtLabel \<mapsto> ''1700000000'']), Put (sample_decision ''b'' Map.empty)]\<rparr>"

theorem sweep_collects_witness:
  "log_live (m_log (snd (sweep sample_env (Time 63900000010 0) sample_expiring))) ''sdec-a'' = None"
proof -
  have ended: "case fst (sweep sample_env (Time 63900000010 0) sample_expiring) of SweepDone c \<Rightarrow> sw_deleted c = 1 | _ \<Rightarrow> False"
    by code_simp
  obtain e w' where run: "sweep sample_env (Time 63900000010 0) sample_expiring = (e, w')" by force
  with ended obtain c where "e = SweepDone c" by (cases e) auto
  moreover have "case log_live (m_log sample_expiring) ''sdec-a'' of None \<Rightarrow> True
    | Some d \<Rightarrow> isExpired (labels_of d) (Time 63900000010 0) = Inr True" by code_simp
  ultimately show ?thesis
    using sweep_collects [OF mem_sweep.sweep_api_axioms, of "Time 63900000010 0" sample_expiring c w' "''sdec-a''"] run
    by (auto split: option.splits)
qed

theorem sweep_spares_witness:
  "log_live (m_log (snd (sweep sample_env (Time 63900000010 0) sample_expiring))) ''sdec-b'' =
     Some (sample_decision ''b'' Map.empty)"
proof -
  have "log_live (m_log sample_expiring) ''sdec-b'' = Some (sample_decision ''b'' Map.empty)"
    by (simp add: sample_expiring_def sample_decision_def decisionName_def)
  moreover have "isExpired (labels_of (sample_decision ''b'' Map.empty)) (Time 63900000010 0) \<noteq> Inr True" by code_simp
  ultimately show ?thesis by (rule sweep_spares [OF mem_sweep.sweep_api_axioms])
qed

end
