(* ===== verification/Sweep_Shared.thy ===== *)
theory Sweep_Shared
  imports Cluster
begin

text \<open>
  The sweep while the controller is writing: other writers may act before each of its calls, as
  long as they respect \<open>rely\<close> without deletions. The contract \<open>sweep_shared\<close> is that of an
  uncached client: the list is the state of the server at some moment of the call, a deletion goes by
  name, and one that is reported as failed may have taken effect. Deletions by others are excluded on purpose: \<open>overlapping_sweeps_hit_fresh\<close> shows
  what two sweeps at a time can do, which the deployment rules out with
  \<open>concurrencyPolicy: Forbid\<close>.
\<close>

definition vs_remove :: "string \<Rightarrow> vstore \<Rightarrow> vstore" where
  "vs_remove n s = s\<lparr>vs_live := (vs_live s)(n := None)\<rparr>"

locale sweep_shared =
  fixes E :: "'w env" and vs :: "'w \<Rightarrow> vstore" and ptime :: "gotime \<Rightarrow> gotime"
  assumes list_current: "ListDecisions E w = (Inr l, w') \<Longrightarrow>
      \<exists>s. rely False ptime (vs w) s \<and> rely False ptime s (vs w') \<and>
        (\<forall>d\<in>set (dl_Items l). vs_live s (decision_name_of d) = Some d)"
    and list_failed: "ListDecisions E w = (Inl e, w') \<Longrightarrow> rely False ptime (vs w) (vs w')"
    and delete_removes: "DeleteDecision E d w = (None, w') \<Longrightarrow>
      \<exists>s. rely False ptime (vs w) s \<and> vs w' = vs_remove (decision_name_of d) s"
    and delete_failing: "DeleteDecision E d w = (Some e, w') \<Longrightarrow> rely False ptime (vs w) (vs w') \<or>
      (\<exists>s. rely False ptime (vs w) s \<and> vs w' = vs_remove (decision_name_of d) s)"

text \<open>A well-formed store in which a decision lives on, with all versions of an earlier store.\<close>

definition survives :: "(gotime \<Rightarrow> gotime) \<Rightarrow> vstore \<Rightarrow> string \<Rightarrow> SchedulingDecision \<Rightarrow> vstore \<Rightarrow> bool" where
  "survives ptime s0 n d s \<longleftrightarrow> vstore_inv ptime s \<and> vs_past s0 \<subseteq>\<^sub>m vs_past s \<and>
     (\<exists>d'. vs_live s n = Some d' \<and> succeeds d d')"

lemma survives_rely: "survives ptime s0 n d s \<Longrightarrow> rely False ptime s s' \<Longrightarrow> survives ptime s0 n d s'"
  unfolding survives_def by (auto dest!: relyD simp: evolves_def intro: map_le_trans) (blast intro: succeeds_trans)

lemma survives_remove: "survives ptime s0 n d s \<Longrightarrow> m \<noteq> n \<Longrightarrow> survives ptime s0 n d (vs_remove m s)"
  unfolding survives_def vstore_inv_def vs_remove_def by auto

context sweep_shared
begin

lemma delete_survives:
  assumes "survives ptime s0 n d (vs w)" and "decision_name_of x \<noteq> n"
  shows "survives ptime s0 n d (vs (snd (DeleteDecision E x w)))"
proof (cases "DeleteDecision E x w")
  case (Pair res w')
  show ?thesis
  proof (cases res)
    case None
    with Pair delete_removes obtain s where "rely False ptime (vs w) s" "vs w' = vs_remove (decision_name_of x) s" by blast
    with Pair assms show ?thesis by (simp add: survives_remove survives_rely)
  next
    case (Some e)
    with Pair delete_failing have "rely False ptime (vs w) (vs w') \<or>
        (\<exists>s. rely False ptime (vs w) s \<and> vs w' = vs_remove (decision_name_of x) s)" by blast
    with survives_rely [OF assms(1)] assms(2) have "survives ptime s0 n d (vs w')" by (metis survives_remove)
    with Pair show ?thesis by simp
  qed
qed

lemma sweepLoop_survives:
  assumes "\<And>x. x \<in> set ds \<Longrightarrow> is_expired_decision now x \<Longrightarrow> decision_name_of x \<noteq> n"
    and "survives ptime s0 n d (vs w)"
  shows "survives ptime s0 n d (vs (snd (sweepLoop E now ds c w)))"
  using assms
proof (induction ds arbitrary: c w)
  case Nil
  then show ?case by simp
next
  case (Cons x ds)
  obtain res w1 where del: "DeleteDecision E x w = (res, w1)" by force
  with Cons.prems delete_survives [of s0 n d w x]
  have "survives ptime s0 n d (vs w1)" if "is_expired_decision now x" using that by simp
  with Cons del show ?case
    by (auto simp: is_expired_decision_def split: sum.split option.split)
qed

lemma sweep_survives:
  assumes inv: "vstore_inv ptime (vs w)" and d: "vs_live (vs w) n = Some d" and "\<not> is_expired_decision now d"
  shows "survives ptime (vs w) n d (vs (snd (sweep E now w)))"
proof -
  have start: "survives ptime (vs w) n d (vs w)" using inv d by (simp add: survives_def)
  obtain x w1 where l: "ListDecisions E w = (x, w1)" by force
  show ?thesis
  proof (cases x)
    case (Inl e)
    with l list_failed survives_rely [OF start] show ?thesis by (simp add: sweep_def)
  next
    case (Inr list)
    with l list_current obtain s where s: "rely False ptime (vs w) s" "rely False ptime s (vs w1)"
      and items: "\<And>x. x \<in> set (dl_Items list) \<Longrightarrow> vs_live s (decision_name_of x) = Some x" by blast
    from survives_rely [OF start s(1)] have mid: "survives ptime (vs w) n d s" .
    have "decision_name_of x \<noteq> n" if "x \<in> set (dl_Items list)" "is_expired_decision now x" for x
      using mid items [OF that(1)] that(2) assms(3) by (auto simp: survives_def succeeds_expired)
    from sweepLoop_survives [OF this survives_rely [OF mid s(2)]] l Inr show ?thesis
      by (simp add: sweep_def case_prod_beta)
  qed
qed

end

section \<open>Writers between the calls of a sweep\<close>

definition writer_act :: "SchedulingDecisionReconciler \<times> NamespacedName \<Rightarrow> mem \<Rightarrow> mem" where
  "writer_act a m = snd (Reconcile sample_env (fst a) (snd a) m)"

lemma writers_rely: "rely False whole_seconds (mem_vs (snd w)) (mem_vs (snd (next_act writer_act w)))"
  using mem_api.Reconcile_rely
  by (auto simp: next_act_def writer_act_def split: list.split prod.split)

lemma mem_vs_remove: "m_log m' = Del n # m_log m \<Longrightarrow> mem_vs m' = vs_remove n (mem_vs m)"
  by (auto simp: mem_vs_def vs_remove_def fun_eq_iff)

abbreviation writers_env :: "((SchedulingDecisionReconciler \<times> NamespacedName) list \<times> mem) env" where
  "writers_env \<equiv> interleave 4 writer_act sample_env"

interpretation writers: sweep_shared writers_env "\<lambda>w. mem_vs (snd w)" whole_seconds
proof (unfold_locales, goal_cases)
  case (1 w l w')
  then have l: "dl_Items l = mem_list (snd (next_act writer_act w))" "snd w' = snd (next_act writer_act w)"
    by (auto simp: interleave_def woven_call_eq mem_env_def)
  then show ?case
    using writers_rely [of w] unfolding l
    by (intro exI [of _ "mem_vs (snd (next_act writer_act w))"]) (auto simp: mem_vs_def set_mem_list)
next
  case (2 w e w')
  then show ?case by (simp add: interleave_def woven_call_eq mem_env_def)
next
  case (3 d w w')
  let ?m = "snd (next_act writer_act w)"
  from 3 have "snd w' = ?m\<lparr>m_log := Del (decision_name_of d) # m_log ?m\<rparr>"
    by (auto simp: interleave_def woven_call_eq mem_env_def mem_delete_def split: option.splits)
  then have "mem_vs (snd w') = vs_remove (decision_name_of d) (mem_vs ?m)" by (simp add: mem_vs_remove)
  with writers_rely [of w] show ?case by blast
next
  case (4 d w e w')
  then show ?case
    using writers_rely [of w]
    by (auto simp: interleave_def woven_call_eq mem_env_def mem_delete_def split: option.splits)
qed

section \<open>Properties\<close>

text \<open>
  C18: a sweep beside a running controller. When only writers act between the calls of a sweep, every
  decision that was live and not expired at the start is live at the end, with the same labels and
  spec and a history that extends the old one, whatever fails, and no accepted version is forgotten.
\<close>

theorem sweep_spares_under_writes:
  assumes "sweep_shared E vs ptime" and "vstore_inv ptime (vs w)" and "vs_live (vs w) n = Some d"
    and "isExpired (labels_of d) now \<noteq> Inr True" and "w' = snd (sweep E now w)"
  shows "vs_past (vs w) \<subseteq>\<^sub>m vs_past (vs w') \<and>
    (\<exists>d'. vs_live (vs w') n = Some d' \<and> labels_of d' = labels_of d \<and> sd_Spec d' = sd_Spec d \<and>
       prefix (history_of d) (history_of d'))"
  using sweep_shared.sweep_survives [OF assms(1-3), of now] assms(4,5)
  by (auto simp: survives_def succeeds_def is_expired_decision_def)

definition writers_world :: "(SchedulingDecisionReconciler \<times> NamespacedName) list \<times> mem" where
  "writers_world =
     ([(sample_reconciler, sample_req)], sample_recorded\<lparr>m_events := [sample_event ''Preempted'' 63900000005 ''m'']\<rparr>)"

theorem sweep_spares_under_writes_witness:
  "\<exists>d d'. log_live (m_log (snd writers_world)) ''sdec-u1'' = Some d \<and> length (history_of d) = 1 \<and>
     log_live (m_log (snd (snd (sweep writers_env (Time 63900000011 0) writers_world)))) ''sdec-u1'' = Some d' \<and>
     prefix (history_of d) (history_of d') \<and> length (history_of d') = 2"
proof -
  let ?w = "snd (sweep writers_env (Time 63900000011 0) writers_world)"
  have "case log_live (m_log (snd writers_world)) ''sdec-u1'' of None \<Rightarrow> False
      | Some d \<Rightarrow> length (history_of d) = 1 \<and> isExpired (labels_of d) (Time 63900000011 0) = Inr False"
    "case log_live (m_log (snd ?w)) ''sdec-u1'' of None \<Rightarrow> False | Some d \<Rightarrow> length (history_of d) = 2"
    by code_simp+
  then obtain d d' where d: "log_live (m_log (snd writers_world)) ''sdec-u1'' = Some d" "length (history_of d) = 1"
      "isExpired (labels_of d) (Time 63900000011 0) \<noteq> Inr True"
    and d': "log_live (m_log (snd ?w)) ''sdec-u1'' = Some d'" "length (history_of d') = 2"
    by (auto split: option.splits)
  have "vstore_inv whole_seconds (mem_vs (snd writers_world))"
    using sample_recorded_inv by (simp add: writers_world_def mem_vs_def)
  from sweep_spares_under_writes [OF writers.sweep_shared_axioms this _ d(3) refl, of "''sdec-u1''"] d d'
  show ?thesis by (auto simp: mem_vs_def)
qed

text \<open>
  Two sweeps at a time: the second one lists two expired decisions, the first one deletes both, the
  controller creates one of them anew, and the second sweep deletes it by name.
\<close>

lemma overlapping_sweeps_hit_fresh:
  "case sweep (interleave 4 team_act sample_env) (Time 63900300000 0)
      ([Idle, RunSweep (Time 63900300000 0), RunReconcile sample_reconciler sample_req],
       sample_recorded\<lparr>m_clock := Time 63900300000 0,
         m_log := Put (sample_decision ''a'' [ExpiresAtLabel \<mapsto> ''1700000000'']) # m_log sample_recorded\<rparr>) of
     (e, script, m) \<Rightarrow> script = [] \<and> log_live (m_log m) ''sdec-u1'' = None \<and>
       (case m_log m of
          Del n # Put fresh # es \<Rightarrow> n = ''sdec-u1'' \<and> decision_name_of fresh = ''sdec-u1'' \<and>
            isExpired (labels_of fresh) (Time 63900300000 0) = Inr False
        | _ \<Rightarrow> False)"
  by code_simp

end
