(* ===== verification/Faulty_Api.thy ===== *)
theory Faulty_Api
  imports Cluster
begin

text \<open>
  An API server that fails: following a script, a call is refused, or it takes effect and its
  answer is lost, so that the caller sees an error either way. \<open>faulty\<close> puts such a script in
  front of any environment; the locale \<open>unreliable\<close> shows that the contract \<open>shared_env\<close> survives
  it. The locale \<open>lone_env\<close> is the contract of a server that may fail but that nobody else writes
  to: what it accepts and what it answers is current. In it a recorded transition is the last one
  of the live decision, and a reconcile touches no other decision.
\<close>

section \<open>Faults\<close>

datatype fault = NoFault | Refused | LostReply

definition outage :: api_error where
  "outage = OtherError ''the server is currently unable to handle the request''"

definition faulty_call ::
    "(api_error \<Rightarrow> 'r) \<Rightarrow> ('w \<Rightarrow> 'r \<times> 'w) \<Rightarrow> fault list \<times> 'w \<Rightarrow> 'r \<times> fault list \<times> 'w" where
  "faulty_call bad call w =
     (case w of
        ([], m) \<Rightarrow> (case call m of (x, m') \<Rightarrow> (x, [], m'))
      | (NoFault # fs, m) \<Rightarrow> (case call m of (x, m') \<Rightarrow> (x, fs, m'))
      | (Refused # fs, m) \<Rightarrow> (bad outage, fs, m)
      | (LostReply # fs, m) \<Rightarrow> (bad outage, fs, snd (call m)))"

definition faulty :: "nat \<Rightarrow> 'w env \<Rightarrow> (fault list \<times> 'w) env" where
  "faulty steps E =
     \<lparr>ListEvents = (\<lambda>ns key. faulty_call Inl (ListEvents E ns key)),
      GetPod = (\<lambda>k. faulty_call Inl (GetPod E k)),
      GetPVC = (\<lambda>k. faulty_call Inl (GetPVC E k)),
      GetStorageClass = (\<lambda>n. faulty_call Inl (GetStorageClass E n)),
      GetDecision = (\<lambda>n. faulty_call Inl (GetDecision E n)),
      ListDecisions = faulty_call Inl (ListDecisions E),
      CreateDecision = (\<lambda>d. faulty_call Some (CreateDecision E d)),
      UpdateStatus = (\<lambda>d. faulty_call Some (UpdateStatus E d)),
      DeleteDecision = (\<lambda>d. faulty_call Some (DeleteDecision E d)),
      CreateEvent = (\<lambda>e. faulty_call Some (CreateEvent E e)),
      Now = (\<lambda>w. Now E (snd w)),
      OnError = retry_attempts steps\<rparr>"

text \<open>What a faulty call does: the call itself, nothing, or the call without its answer.\<close>

lemma faulty_call_cases [consumes 1, case_names answered refused lost]:
  assumes "faulty_call bad call w = (x, w')"
  obtains "call (snd w) = (x, snd w')"
  | "x = bad outage" "snd w' = snd w"
  | "x = bad outage" "snd w' = snd (call (snd w))"
  using assms by (auto simp: faulty_call_def split: prod.splits list.splits fault.splits)

lemma faulty_call_snd:
  "snd (snd (faulty_call bad call w)) = snd w \<or> snd (snd (faulty_call bad call w)) = snd (call (snd w))"
  by (auto simp: faulty_call_def split: prod.splits list.splits fault.splits)

lemma faulty_call_rel:
  "(\<And>m. R m m) \<Longrightarrow> (\<And>m. R m (snd (call m))) \<Longrightarrow> R (snd w) (snd (snd (faulty_call bad call w)))"
  using faulty_call_snd [of bad call w] by metis

locale unreliable = shared_env E vs ptime del steps
  for E :: "'w env" and vs ptime del steps

sublocale unreliable \<subseteq> weak: shared_env "faulty steps E" "\<lambda>w. vs (snd w)" ptime del steps
proof (unfold_locales, goal_cases)
  case 1
  show ?case by (rule ptime_idem)
next
  case (7 n w d w')
  from 7 have "faulty_call Inl (GetDecision E n) w = (Inr d, w')" by (simp add: faulty_def)
  then show ?case by (cases rule: faulty_call_cases) (auto dest: get_known)
next
  case (8 d w w')
  then have "faulty_call Some (CreateDecision E d) w = (None, w')" by (simp add: faulty_def)
  then show ?case by (cases rule: faulty_call_cases) (auto dest: create_ok)
next
  case (9 d w e w')
  then have "faulty_call Some (CreateDecision E d) w = (Some e, w')" by (simp add: faulty_def)
  then show ?case
  proof (cases rule: faulty_call_cases)
    case lost
    then show ?thesis by (cases "CreateDecision E d (snd w)"; cases "fst (CreateDecision E d (snd w))")
      (auto dest: create_ok create_err)
  qed (auto dest: create_err)
next
  case (10 d w w')
  then have "faulty_call Some (UpdateStatus E d) w = (None, w')" by (simp add: faulty_def)
  then show ?case by (cases rule: faulty_call_cases) (auto dest: update_ok)
next
  case (11 d w e w')
  then have "faulty_call Some (UpdateStatus E d) w = (Some e, w')" by (simp add: faulty_def)
  then show ?case
  proof (cases rule: faulty_call_cases)
    case lost
    then show ?thesis by (cases "UpdateStatus E d (snd w)"; cases "fst (UpdateStatus E d (snd w))")
      (auto dest: update_ok update_err)
  qed (auto dest: update_err)
next
  case 12
  show ?case by (rule steps_pos)
qed (simp_all add: faulty_def faulty_call_rel [where R = "\<lambda>a b. rely del ptime (vs a) (vs b)"]
    list_events_rely get_pod_rely get_pvc_rely get_sc_rely get_rely)

interpretation outages: unreliable sample_env mem_vs whole_seconds False 4
  by unfold_locales

section \<open>A server of one's own\<close>

text \<open>Whether an object's history ends with a transition.\<close>

definition ends_with :: "SchedulingTransition \<Rightarrow> SchedulingDecision option \<Rightarrow> bool" where
  "ends_with t x = (case x of None \<Rightarrow> False
     | Some d \<Rightarrow> history_of d \<noteq> [] \<and> transitionsEqual (last (history_of d)) t)"

locale lone_env = retry_env E steps for E :: "'w env" and steps +
  fixes live :: "'w \<Rightarrow> string \<rightharpoonup> SchedulingDecision" and ptime :: "gotime \<Rightarrow> gotime"
  assumes live_list_events: "live (snd (ListEvents E ns key w)) = live w"
    and live_pod: "live (snd (GetPod E k w)) = live w"
    and live_pvc: "live (snd (GetPVC E k w)) = live w"
    and live_sc: "live (snd (GetStorageClass E c w)) = live w"
    and live_get: "live (snd (GetDecision E n w)) = live w"
    and get_current: "GetDecision E n w = (Inr d, w') \<Longrightarrow> live w n = Some d \<and> decision_name_of d = n"
    and create_frame: "n \<noteq> decision_name_of d \<Longrightarrow> live (snd (CreateDecision E d w)) n = live w n"
    and update_frame: "n \<noteq> decision_name_of d \<Longrightarrow> live (snd (UpdateStatus E d w)) n = live w n"
    and update_stored: "UpdateStatus E d w = (None, w') \<Longrightarrow>
      \<exists>cur v. live w' (decision_name_of d) =
        Some (with_version v (cur\<lparr>sd_Status := persist_status ptime (sd_Status d)\<rparr>))"
begin

lemmas lives = live_list_events live_pod live_pvc live_sc live_get

lemma volumeContextFromPVC_live: "live (snd (volumeContextFromPVC E pvc w)) = live w"
  by (simp add: volumeContextFromPVC_def Let_def case_prod_beta lives split: option.split sum.split)

lemma resolveVolumeContext_live: "live (snd (resolveVolumeContext E pod w)) = live w"
proof -
  have "live (snd (resolveVolumeLoop E pod vols w)) = live w" for vols
    by (induction vols arbitrary: w)
      (simp_all add: Let_def case_prod_beta lives volumeContextFromPVC_live split: option.split sum.split)
  then show ?thesis by (simp add: resolveVolumeContext_def)
qed

lemma ensure_frame:
  "n \<noteq> name \<Longrightarrow> live (snd (ensureDecisionCreated E r name i podFound pod w)) n = live w n"
  by (simp add: ensureDecisionCreated_def Let_def case_prod_beta create_frame lives resolveVolumeContext_live
      split: option.split sum.split)

lemma attempt_frame:
  assumes "n \<noteq> name"
  shows "live (snd (appendAttempt E name t w)) n = live w n"
proof -
  have "live (snd (UpdateStatus E (d\<lparr>sd_Status := st\<rparr>) w1)) n = live w1 n"
    if "GetDecision E name w = (Inr d, w1)" for d st w1
    using assms get_current [OF that] by (intro update_frame) simp
  moreover have "live w1 = live w" if "GetDecision E name w = (x, w1)" for x w1
    using live_get [of name w] that by simp
  ultimately show ?thesis by (auto simp: appendAttempt_def split: prod.split sum.split)
qed

lemma attempt_stored:
  assumes "appendAttempt E n t w = (None, w')" and "ptime (tr_DecisionTimestamp t) = tr_DecisionTimestamp t"
  shows "ends_with t (live w' n)"
proof -
  from assms(1) obtain d w1 where get: "GetDecision E n w = (Inr d, w1)"
    by (auto simp: appendAttempt_def split: prod.splits sum.splits)
  with live_get [of n w] get_current have d: "live w1 n = Some d" "decision_name_of d = n" by auto
  show ?thesis
  proof (cases "history_of d \<noteq> [] \<and> transitionsEqual (last (history_of d)) t")
    case True
    with assms(1) get d show ?thesis by (simp add: appendAttempt_def ends_with_def)
  next
    case False
    with assms(1) get have "UpdateStatus E (d\<lparr>sd_Status := applyTransition (sd_Status d) t\<rparr>) w1 = (None, w')"
      by (auto simp: appendAttempt_def)
    from update_stored [OF this] d(2) obtain cur v where "live w' n =
        Some (with_version v (cur\<lparr>sd_Status := persist_status ptime (applyTransition (sd_Status d) t)\<rparr>))" by auto
    then show ?thesis using assms(2)
      by (simp add: ends_with_def with_version_def transitionsEqual_def)
  qed
qed

lemma append_frame:
  assumes "n \<noteq> name"
  shows "live (snd (appendTransitionWithRetry E name t w)) n = live w n"
proof -
  have "live (snd (retry_attempts steps retriable (appendAttempt E name t) w)) n = live w n"
    using retry_attempts_rel [where R = "\<lambda>a b. live b n = live a n" and f = "appendAttempt E name t"]
      attempt_frame [OF assms] by simp
  then show ?thesis
    by (simp add: appendTransitionWithRetry_def OnError_attempts case_prod_beta split: option.split)
qed

lemma record_frame:
  "n \<noteq> decisionName (pi_UID i) \<Longrightarrow> live (snd (recordTransition E r i t podFound pod w)) n = live w n"
  by (simp add: recordTransition_def Let_def case_prod_beta append_frame ensure_frame split: option.split)

lemma record_stored:
  assumes "recordTransition E r i t podFound pod w = (None, w')"
    and "ptime (tr_DecisionTimestamp t) = tr_DecisionTimestamp t"
  shows "ends_with t (live w' (decisionName (pi_UID i)))"
proof -
  let ?n = "decisionName (pi_UID i)"
  from assms(1) obtain w1 where "appendTransitionWithRetry E ?n t w1 = (None, w')"
    by (auto simp: recordTransition_def Let_def split: prod.splits option.splits)
  then have "retry_attempts steps retriable (appendAttempt E ?n t) w1 = (None, w')"
    by (auto simp: appendTransitionWithRetry_def OnError_attempts split: prod.splits option.splits)
  from retry_attempts_success [where R = "\<lambda>a b. True", OF _ _ _ steps_pos this]
  obtain w2 where "appendAttempt E ?n t w2 = (None, w')" by blast
  with assms(2) show ?thesis by (rule attempt_stored [rotated])
qed

end

abbreviation outage_env :: "(fault list \<times> mem) env" where
  "outage_env \<equiv> faulty 4 sample_env"

lemma mem_create_frame: "n \<noteq> decision_name_of d \<Longrightarrow> log_live (m_log (snd (mem_create d m))) n = log_live (m_log m) n"
  by (auto simp: mem_create_def split: option.split)

lemma mem_update_frame: "n \<noteq> decision_name_of d \<Longrightarrow> log_live (m_log (snd (mem_update p d m))) n = log_live (m_log m) n"
  by (auto simp: mem_update_def split: option.split dest: log_live_past)

lemma mem_update_stored:
  "mem_update p d m = (None, m') \<Longrightarrow>
     \<exists>cur v. log_live (m_log m') (decision_name_of d) = Some (with_version v (cur\<lparr>sd_Status := persist_status p (sd_Status d)\<rparr>))"
  by (auto simp: mem_update_def split: option.splits if_splits dest!: log_live_past) blast

interpretation alone: lone_env outage_env 4 "\<lambda>w. log_live (m_log (snd w))" whole_seconds
proof (unfold_locales, goal_cases)
  case (6 n w d w')
  then have "faulty_call Inl (GetDecision sample_env n) w = (Inr d, w')" by (simp add: faulty_def)
  then show ?case
    by (cases rule: faulty_call_cases) (auto simp: mem_defs split: option.splits dest: log_live_past)
next
  case (7 n d w)
  then show ?case
    using faulty_call_rel [where R = "\<lambda>a b. log_live (m_log b) n = log_live (m_log a) n" and call = "mem_create d"]
    by (simp add: faulty_def mem_env_calls mem_create_frame)
next
  case (8 n d w)
  then show ?case
    using faulty_call_rel [where R = "\<lambda>a b. log_live (m_log b) n = log_live (m_log a) n" and call = "mem_update whole_seconds d"]
    by (simp add: faulty_def mem_env_calls mem_update_frame)
next
  case (9 d w w')
  then have "faulty_call Some (mem_update whole_seconds d) w = (None, w')" by (simp add: faulty_def mem_env_calls)
  then show ?case by (cases rule: faulty_call_cases) (auto dest: mem_update_stored)
qed (simp_all add: faulty_def faulty_call_rel [where R = "\<lambda>a b. log_live (m_log b) = log_live (m_log a)"] mem_env_def)

end
