(* ===== verification/Retention.thy ===== *)
theory Retention
  imports Sweep_Shared Faulty_Api
begin






section \<open>Properties\<close>





end
