(* ===== verification/Candidates.thy ===== *)
theory Candidates
  imports Cluster
begin

text \<open>
  The channel between the extender and the controller: Events of the API server. The extender writes
  with a client of its own (\<open>event_writer\<close>), the controller reads through its cache (\<open>event_reader\<close>);
  the two may be different clients on different worlds.
\<close>

text \<open>
  A created Event is stored with what the wire format keeps of its times; the server fills in its UID
  and creation time. A create may fail, and then nothing is promised.
\<close>

locale event_writer =
  fixes E :: "'w env" and events :: "'w \<Rightarrow> Event list" and ptime :: "gotime \<Rightarrow> gotime"
  assumes event_created: "CreateEvent E e w = (None, w') \<Longrightarrow>
    \<exists>u c. set (events w') = insert ((persist_event ptime e)\<lparr>ev_UID := u, ev_CreationTimestamp := c\<rparr>) (set (events w))"

text \<open>A list that succeeds selects from what the cache of the client holds, in any order.\<close>

locale event_reader =
  fixes E :: "'v env" and cache :: "'v \<Rightarrow> Event list"
  assumes events_listed: "ListEvents E ns key v = (Inr items, v') \<Longrightarrow>
    set items = set (indexed_events (cache v') ns key)"

interpretation mem_writer: event_writer sample_env m_events whole_seconds
proof unfold_locales
  fix e and w w' :: mem assume "CreateEvent sample_env e w = (None, w')"
  then have "m_events w' = m_events w @ [persist_event whole_seconds e]" by (auto simp: mem_env_def)
  then show "\<exists>u c. set (m_events w') =
      insert ((persist_event whole_seconds e)\<lparr>ev_UID := u, ev_CreationTimestamp := c\<rparr>) (set (m_events w))"
    by (intro exI [of _ "ev_UID (persist_event whole_seconds e)"] exI [of _ "ev_CreationTimestamp (persist_event whole_seconds e)"]) simp
qed

interpretation mem_reader: event_reader sample_env m_events
  by unfold_locales (auto simp: mem_env_def)

text \<open>The CandidateNodes Events of a Pod, as the controller selects them.\<close>

definition candidates_of :: "Pod \<Rightarrow> Event \<Rightarrow> bool" where
  "candidates_of pod e \<longleftrightarrow> ev_Reason e = eventReasonCandidateNodes \<and> ev_Namespace e = pod_Namespace pod \<and>
     (pod_Namespace pod @ ''/'' @ pod_Name pod) \<in> set (eventInvolvedObjectIndexer e)"

text \<open>The Event of the extender, as it is stored.\<close>

lemma stored_candidate_event:
  assumes "e = (persist_event ptime (candidateEvent now pod names))\<lparr>ev_UID := u, ev_CreationTimestamp := c\<rparr>"
    and "\<not> time_is_zero (ptime now)"
  shows "candidates_of pod e" and "ev_Message e = str_join '','' names" and "eventTimestamp e = ptime now"
  using assms
  by (simp_all add: candidates_of_def persist_event_def candidateEvent_def eventReasonCandidateNodes_def
      eventInvolvedObjectIndexer_def podKind_def eventTimestamp_def)

context event_reader
begin

lemma listed_candidates:
  assumes "listRelevantEvents E \<lparr>nn_Namespace = pod_Namespace pod, nn_Name = pod_Name pod\<rparr> v = (Inr evs, v')"
  shows "e \<in> set evs \<and> ev_Reason e = eventReasonCandidateNodes \<longleftrightarrow> e \<in> set (cache v') \<and> candidates_of pod e"
proof -
  from assms obtain items where "ListEvents E (pod_Namespace pod) (pod_Namespace pod @ ''/'' @ pod_Name pod) v = (Inr items, v')"
    and "evs = keepRelevant items"
    by (auto simp: listRelevantEvents_def split: prod.splits sum.splits)
  with events_listed show ?thesis
    by (auto simp: keepRelevant_def indexed_events_def candidates_of_def reasons_relevant)
qed

end

end
