(* ===== verification/Call_Sequence.thy ===== *)
theory Call_Sequence
  imports Audit_Trail
begin

text \<open>
  Which API calls a reconcile makes, in which order and how many. The environment is instrumented
  with the list of the calls made so far; a run in it is the run of the program itself, and its calls
  form one of the sequences of \<open>reconcile_calls\<close>, whatever the server answers.
\<close>

section \<open>Instrumentation\<close>

datatype api_call =
    CallListEvents string string
  | CallGetPod NamespacedName
  | CallGetPVC NamespacedName
  | CallGetStorageClass string
  | CallGetDecision string
  | CallCreate string
  | CallUpdateStatus
  | CallOther

definition traced_call :: "api_call \<Rightarrow> ('w \<Rightarrow> 'r \<times> 'w) \<Rightarrow> api_call list \<times> 'w \<Rightarrow> 'r \<times> api_call list \<times> 'w" where
  "traced_call c call w = (case w of (cs, u) \<Rightarrow> (case call u of (x, u') \<Rightarrow> (x, cs @ [c], u')))"

definition traced :: "nat \<Rightarrow> 'w env \<Rightarrow> (api_call list \<times> 'w) env" where
  "traced steps E =
     \<lparr>ListEvents = (\<lambda>ns key. traced_call (CallListEvents ns key) (ListEvents E ns key)),
      GetPod = (\<lambda>k. traced_call (CallGetPod k) (GetPod E k)),
      GetPVC = (\<lambda>k. traced_call (CallGetPVC k) (GetPVC E k)),
      GetStorageClass = (\<lambda>n. traced_call (CallGetStorageClass n) (GetStorageClass E n)),
      GetDecision = (\<lambda>n. traced_call (CallGetDecision n) (GetDecision E n)),
      ListDecisions = traced_call CallOther (ListDecisions E),
      CreateDecision = (\<lambda>d. traced_call (CallCreate (decision_name_of d)) (CreateDecision E d)),
      UpdateStatus = (\<lambda>d. traced_call CallUpdateStatus (UpdateStatus E d)),
      DeleteDecision = (\<lambda>d. traced_call CallOther (DeleteDecision E d)),
      CreateEvent = (\<lambda>e. traced_call CallOther (CreateEvent E e)),
      Now = (\<lambda>w. Now E (snd w)),
      OnError = retry_attempts steps\<rparr>"


lemma traced_call_eq [simp]: "traced_call c call (cs, w) = (fst (call w), cs @ [c], snd (call w))"
  by (simp add: traced_call_def case_prod_beta)


section \<open>Sequences\<close>












section \<open>The methods of the reconciler\<close>


lemma traced_sel [simp]:
  "ListEvents (traced steps E) ns key = traced_call (CallListEvents ns key) (ListEvents E ns key)"
  "GetPod (traced steps E) k = traced_call (CallGetPod k) (GetPod E k)"
  "GetPVC (traced steps E) k = traced_call (CallGetPVC k) (GetPVC E k)"
  "GetStorageClass (traced steps E) n = traced_call (CallGetStorageClass n) (GetStorageClass E n)"
  "GetDecision (traced steps E) n = traced_call (CallGetDecision n) (GetDecision E n)"
  "CreateDecision (traced steps E) d = traced_call (CallCreate (decision_name_of d)) (CreateDecision E d)"
  "UpdateStatus (traced steps E) d = traced_call CallUpdateStatus (UpdateStatus E d)"
  "Now (traced steps E) w = Now E (snd w)"
  "OnError (traced steps E) = retry_attempts steps"
  by (simp_all add: traced_def)








section \<open>A reconcile\<close>








end
