(* ===== verification/Work_Queue.thy ===== *)
theory Work_Queue
  imports Faulty_Api
begin

text \<open>
  The requests of the controller: the evidence of a request, whose decision it concerns, what one
  reconcile makes of it, and the queue, which the watches that \<open>SetupWithManager\<close> registers fill. The
  queue is controller-runtime's, modelled by what it documents: it holds a request at most once and
  serves requests in any order. The loop itself is in \<open>Live_Loop\<close>.
\<close>

section \<open>The evidence of a request\<close>

record evidence =
  evd_pods :: "Pod list"
  evd_events :: "Event list"
  evd_clock :: gotime

definition evidence_of :: "mem \<Rightarrow> evidence" where
  "evidence_of m = \<lparr>evd_pods = m_pods m, evd_events = m_events m, evd_clock = m_clock m\<rparr>"

definition pod_key :: "Pod \<Rightarrow> NamespacedName" where
  "pod_key p = \<lparr>nn_Namespace = pod_Namespace p, nn_Name = pod_Name p\<rparr>"

definition find_pod :: "evidence \<Rightarrow> NamespacedName \<Rightarrow> Pod option" where
  "find_pod v k = find (\<lambda>p. pod_Namespace p = nn_Namespace k \<and> pod_Name p = nn_Name k) (evd_pods v)"

definition pod_events :: "evidence \<Rightarrow> NamespacedName \<Rightarrow> Event list" where
  "pod_events v k = keepRelevant (indexed_events (evd_events v) (nn_Namespace k) (nn_string k))"

definition pod_or_zero :: "evidence \<Rightarrow> NamespacedName \<Rightarrow> Pod" where
  "pod_or_zero v k = (case find_pod v k of None \<Rightarrow> zero_Pod | Some p \<Rightarrow> p)"

definition derived :: "evidence \<Rightarrow> NamespacedName \<Rightarrow> (podIdentity \<times> SchedulingTransition) option" where
  "derived v k = deriveTransition (evd_clock v) (pod_or_zero v k) (find_pod v k \<noteq> None) (pod_events v k)"

text \<open>
  The transition that the evidence of a request shows has been recorded, in the sense of a given
  predicate. (Evidence without a time of its own, and times that do not survive the wire format, are
  the subject of other results and say nothing here.)
\<close>

definition on_record :: "evidence \<Rightarrow> (string \<Rightarrow> SchedulingTransition \<Rightarrow> bool) \<Rightarrow> NamespacedName \<Rightarrow> bool" where
  "on_record v recorded k =
     (case derived v k of
        None \<Rightarrow> True
      | Some (i, t) \<Rightarrow>
          timestamp_settled (pod_or_zero v k) (pod_events v k) \<and> whole_seconds (tr_DecisionTimestamp t) = tr_DecisionTimestamp t \<longrightarrow>
          recorded (decisionName (pi_UID i)) t)"

text \<open>The record of a request is up to date: the live decision ends with the transition.\<close>

definition up_to_date :: "evidence \<Rightarrow> (string \<rightharpoonup> SchedulingDecision) \<Rightarrow> NamespacedName \<Rightarrow> bool" where
  "up_to_date v live k \<longleftrightarrow> on_record v (\<lambda>n t. ends_with t (live n)) k"

lemmas up_to_date_defs = up_to_date_def on_record_def

text \<open>Two states of the cluster that show the same of a request, whatever the clock.\<close>

definition same_evidence :: "NamespacedName \<Rightarrow> evidence \<Rightarrow> evidence \<Rightarrow> bool" where
  "same_evidence k v v' \<longleftrightarrow> find_pod v' k = find_pod v k \<and> pod_events v' k = pod_events v k"

lemma same_evidence_refl [simp]: "same_evidence k v v"
  by (simp add: same_evidence_def)

lemma derived_same:
  assumes "same_evidence k v v'" and "timestamp_settled (pod_or_zero v' k) (pod_events v' k)"
  shows "derived v' k = derived v k"
  using deriveTransition_clock_free [OF assms(2)] assms(1)
  by (simp add: derived_def same_evidence_def pod_or_zero_def)

lemma on_record_cong:
  assumes "same_evidence k v v'"
    and "\<And>i t. derived v k = Some (i, t) \<Longrightarrow> recorded (decisionName (pi_UID i)) t \<Longrightarrow> recorded' (decisionName (pi_UID i)) t"
    and "on_record v recorded k"
  shows "on_record v' recorded' k"
proof -
  have "timestamp_settled (pod_or_zero v' k) (pod_events v' k) = timestamp_settled (pod_or_zero v k) (pod_events v k)"
    using assms(1) by (simp add: same_evidence_def pod_or_zero_def)
  with assms derived_same [OF assms(1)] show ?thesis
    by (auto simp: on_record_def split: option.splits)
qed

section \<open>One reconcile\<close>

locale observed_env = lone_env E steps live whole_seconds + call_frame E steps ev
  for E :: "'w env" and steps and live :: "'w \<Rightarrow> string \<rightharpoonup> SchedulingDecision" and ev :: "'w \<Rightarrow> evidence" +
  assumes list_current: "ListEvents E ns key w = (Inr items, w') \<Longrightarrow> items = indexed_events (evd_events (ev w)) ns key"
    and pod_current: "GetPod E k w = (Inr p, w') \<Longrightarrow> find_pod (ev w) k = Some p"
    and pod_missing: "GetPod E k w = (Inl NotFound, w') \<Longrightarrow> find_pod (ev w) k = None"
    and now_current: "Now E w = evd_clock (ev w)"
begin

text \<open>A reconcile fails before it writes, finds nothing to record, or records what is derived.\<close>

lemma Reconcile_cases [consumes 1, case_names failed nothing recorded]:
  assumes "Reconcile E r k w = (res, w')"
  obtains msg e where "res = Some (Wrapf (msg @ nn_string k) (ApiErr e))" "live w' = live w"
      "msg = ''listing events for pod '' \<and> fst (ListEvents E (nn_Namespace k) (nn_string k) w) = Inl e \<or>
       msg = ''getting pod '' \<and> e \<noteq> NotFound \<and> fst (GetPod E k (snd (ListEvents E (nn_Namespace k) (nn_string k) w))) = Inl e"
  | "derived (ev w) k = None" "res = None" "live w' = live w"
  | i t w2 where "derived (ev w) k = Some (i, t)" "live w2 = live w" "ev w2 = ev w"
      "recordTransition E r i t (find_pod (ev w) k \<noteq> None) (pod_or_zero (ev w) k) w2 = (res, w')"
proof -
  obtain x w1 where l: "ListEvents E (nn_Namespace k) (nn_Namespace k @ ''/'' @ nn_Name k) w = (x, w1)" by force
  then have live1: "live w1 = live w" and ev1: "ev w1 = ev w" using live_list_events view_list_events by (metis snd_conv)+
  show thesis
  proof (cases x)
    case (Inl e)
    with l assms live1 that(1) show thesis by (auto simp: Reconcile_def listRelevantEvents_def nn_string_def)
  next
    case (Inr items)
    with l list_current have items: "keepRelevant items = pod_events (ev w) k"
      by (simp add: pod_events_def nn_string_def)
    obtain y w2 where p: "GetPod E k w1 = (y, w2)" by force
    then have live2: "live w2 = live w" and ev2: "ev w2 = ev w"
      using live_pod view_pod live1 ev1 by (metis snd_conv)+
    have pod: "find_pod (ev w) k = (case y of Inr pod \<Rightarrow> Some pod | Inl e \<Rightarrow> None)" if "y \<in> range Inr \<union> {Inl NotFound}"
      using p that pod_current [of k w1 _ w2] pod_missing [of k w1 w2] ev1 by (auto split: sum.split)
    have "derived (ev w) k = deriveTransition (Now E w2) (pod_or_zero (ev w) k) (find_pod (ev w) k \<noteq> None) (keepRelevant items)"
      by (simp add: derived_def items now_current ev2)
    note found = this that(2,3) live2 ev2
    show thesis
    proof (cases y)
      case (Inr pd)
      with pod have "find_pod (ev w) k = Some pd" "pod_or_zero (ev w) k = pd" by (auto simp: pod_or_zero_def)
      with l p assms \<open>x = Inr items\<close> Inr found show thesis
        by (auto simp: Reconcile_def listRelevantEvents_def split: option.splits)
    next
      case (Inl e)
      show thesis
      proof (cases "e = NotFound")
        case True
        with pod Inl have "find_pod (ev w) k = None" "pod_or_zero (ev w) k = zero_Pod" by (auto simp: pod_or_zero_def)
        with l p assms \<open>x = Inr items\<close> Inl True found show thesis
          by (auto simp: Reconcile_def listRelevantEvents_def split: option.splits)
      next
        case False
        with l p assms \<open>x = Inr items\<close> Inl live2 that(1) show thesis
          by (auto simp: Reconcile_def listRelevantEvents_def nn_string_def)
      qed
    qed
  qed
qed

lemma Reconcile_frame:
  assumes "Reconcile E r k w = (res, w')" and "\<And>i t. derived (ev w) k = Some (i, t) \<Longrightarrow> n \<noteq> decisionName (pi_UID i)"
  shows "live w' n = live w n"
  using assms(1)
proof (cases rule: Reconcile_cases)
  case (recorded i t w2)
  from recorded(1) assms(2) have "n \<noteq> decisionName (pi_UID i)" by blast
  from record_frame [OF this] recorded(2,4) show ?thesis by (metis snd_conv)
qed simp_all

lemma Reconcile_up_to_date:
  assumes "Reconcile E r k w = (None, w')"
  shows "up_to_date (ev w') (live w') k"
proof -
  have "ev w' = ev w" using assms Reconcile_view [of r k w] by simp
  with assms show ?thesis
    by (cases rule: Reconcile_cases) (auto simp: up_to_date_defs record_stored)
qed

end

abbreviation mem_live :: "mem \<Rightarrow> string \<rightharpoonup> SchedulingDecision" where
  "mem_live m \<equiv> log_live (m_log m)"

lemma evidence_writes:
  "evidence_of (snd (mem_create d m)) = evidence_of m" "evidence_of (snd (mem_update p d m)) = evidence_of m"
  by (simp_all add: evidence_of_def mem_create_def mem_update_def split: option.split)

lemma or_not_found_simps [simp]:
  "or_not_found x = Inr y \<longleftrightarrow> x = Some y" "or_not_found x = Inl NotFound \<longleftrightarrow> x = None"
  by (simp_all add: or_not_found_def split: option.split)

interpretation calm: observed_env sample_env 4 mem_live evidence_of
proof (unfold_locales, goal_cases)
  case (6 n w d w')
  then show ?case by (auto simp: mem_env_def dest: log_live_past)
next
  case (7 n d w)
  then show ?case by (simp add: mem_env_calls mem_create_frame)
next
  case (8 n d w)
  then show ?case by (simp add: mem_env_calls mem_update_frame)
next
  case (9 d w w')
  then show ?case by (auto simp: mem_env_calls dest: mem_update_stored)
qed (simp_all add: mem_env_def evidence_writes, (simp_all add: evidence_of_def find_pod_def)?)

section \<open>Whose decision it is\<close>

text \<open>
  UIDs are unique over the whole lifetime of a cluster: each belongs to one namespaced name, its
  \<open>owner\<close>. Events lie in the namespace of the object they involve.
\<close>

definition involved_key :: "Event \<Rightarrow> NamespacedName" where
  "involved_key e = \<lparr>nn_Namespace = or_Namespace (ev_InvolvedObject e), nn_Name = or_Name (ev_InvolvedObject e)\<rparr>"

definition owned :: "(string \<Rightarrow> NamespacedName) \<Rightarrow> evidence \<Rightarrow> bool" where
  "owned owner v \<longleftrightarrow> (\<forall>p\<in>set (evd_pods v). owner (pod_UID p) = pod_key p) \<and>
     (\<forall>e\<in>set (evd_events v). ev_Namespace e = or_Namespace (ev_InvolvedObject e) \<and>
        (or_Kind (ev_InvolvedObject e) = podKind \<longrightarrow> owner (or_UID (ev_InvolvedObject e)) = involved_key e))"

lemma pod_events_key:
  assumes "e \<in> set (pod_events v k)" and "ev_Namespace e = or_Namespace (ev_InvolvedObject e)"
  shows "involved_key e = k \<and> or_Kind (ev_InvolvedObject e) = podKind \<and> e \<in> set (evd_events v)"
  using assms
  by (cases k) (auto simp: pod_events_def keepRelevant_def indexed_events_def eventInvolvedObjectIndexer_def
      nn_string_def involved_key_def split: if_splits)

lemma derived_owner:
  assumes "owned owner v" and "derived v k = Some (i, t)"
  shows "owner (pi_UID i) = k"
proof (cases "find_pod v k")
  case None
  with deriveTransition_identity_lemma [OF assms(2) [unfolded derived_def]] obtain e where
    e: "e \<in> set (pod_events v k)" "pi_UID i = or_UID (ev_InvolvedObject e)"
    by (auto dest: latestEventWithReason_Some)
  then have "e \<in> set (evd_events v)" by (auto simp: pod_events_def keepRelevant_def indexed_events_def)
  with assms(1) e pod_events_key [OF e(1)] show ?thesis by (auto simp: owned_def)
next
  case (Some p)
  then have "p \<in> set (evd_pods v)" "pod_key p = k"
    by (auto simp: find_pod_def find_Some_iff pod_key_def)
  with assms(1) Some deriveTransition_identity_lemma [OF assms(2) [unfolded derived_def]] show ?thesis
    by (simp add: owned_def pod_or_zero_def)
qed

context observed_env
begin

text \<open>Reconciling one request leaves the records of all others up to date.\<close>

lemma Reconcile_keeps:
  assumes "Reconcile E r k w = (res, w')" and "owned owner (ev w)" and "k' \<noteq> k"
    and "up_to_date (ev w) (live w) k'"
  shows "up_to_date (ev w') (live w') k'"
proof -
  have ev: "ev w' = ev w" using assms(1) Reconcile_view [of r k w] by simp
  have "live w' (decisionName (pi_UID i)) = live w (decisionName (pi_UID i))" if "derived (ev w) k' = Some (i, t)" for i t
    using derived_owner [OF assms(2) that] derived_owner [OF assms(2)] assms(3)
    by (intro Reconcile_frame [OF assms(1)]) auto
  with assms(4) ev show ?thesis by (auto simp: up_to_date_defs split: option.splits)
qed

end

section \<open>The queue\<close>

definition enqueue :: "NamespacedName \<Rightarrow> NamespacedName list \<Rightarrow> NamespacedName list" where
  "enqueue k q = (if k \<in> set q then q else q @ [k])"

text \<open>The Event watch of \<open>SetupWithManager\<close>: the predicate, then the mapping.\<close>

definition enqueue_event :: "Event \<Rightarrow> NamespacedName list \<Rightarrow> NamespacedName list" where
  "enqueue_event e q = (if relevantEventPredicate e then fold enqueue (mapEventToPodRequest e) q else q)"

text \<open>At the start the watches report every object there is.\<close>

definition start_queue :: "mem \<Rightarrow> NamespacedName list" where
  "start_queue m = fold enqueue_event (m_events m) (fold enqueue (map pod_key (m_pods m)) [])"

text \<open>
  An Event is created, deleted, or updated in a way that keeps its reason and the object it
  involves; \<open>e\<close> is the object the watch reports.
\<close>

inductive event_change :: "Event list \<Rightarrow> Event \<Rightarrow> Event list \<Rightarrow> bool" where
  created: "event_change (us @ vs) e (us @ e # vs)"
| deleted: "event_change (us @ e # vs) e (us @ vs)"
| updated: "ev_Reason e' = ev_Reason e \<Longrightarrow> ev_InvolvedObject e' = ev_InvolvedObject e \<Longrightarrow>
    ev_Namespace e' = ev_Namespace e \<Longrightarrow> event_change (us @ e # vs) e' (us @ e' # vs)"

lemma set_enqueue [simp]: "set (enqueue k q) = insert k (set q)"
  by (auto simp: enqueue_def)

lemma set_enqueue_event [simp]:
  "set (enqueue_event e q) = (if relevantEventPredicate e then insert (involved_key e) (set q) else set q)"
  by (simp add: enqueue_event_def mapEventToPodRequest_def involved_key_def)

lemma set_fold_enqueue: "set (fold enqueue ks q) = set ks \<union> set q"
  by (induction ks arbitrary: q) auto

lemma set_fold_enqueue_event:
  "set (fold enqueue_event es q) = involved_key ` set (filter relevantEventPredicate es) \<union> set q"
  by (induction es arbitrary: q) auto

text \<open>A changed Event is seen by the request the watch maps it to, and by no other.\<close>

lemma event_change_others:
  assumes "event_change es e es'" and "ev_Namespace e = or_Namespace (ev_InvolvedObject e)"
    and "relevantEventPredicate e \<Longrightarrow> involved_key e \<noteq> k"
  shows "keepRelevant (indexed_events es' (nn_Namespace k) (nn_string k)) =
    keepRelevant (indexed_events es (nn_Namespace k) (nn_string k))"
proof -
  have hidden: "keepRelevant (indexed_events [x] (nn_Namespace k) (nn_string k)) = []"
    if "ev_Reason x = ev_Reason e" "ev_InvolvedObject x = ev_InvolvedObject e" "ev_Namespace x = ev_Namespace e" for x
    using assms(2,3) that
    by (cases k) (auto simp: keepRelevant_def indexed_events_def eventInvolvedObjectIndexer_def
        relevantEventPredicate_def involved_key_def nn_string_def)
  have join: "keepRelevant (indexed_events (us @ vs) a b) =
      keepRelevant (indexed_events us a b) @ keepRelevant (indexed_events vs a b)" for us vs a b
    by (simp add: keepRelevant_def indexed_events_def)
  have hide: "keepRelevant (indexed_events (x # vs) (nn_Namespace k) (nn_string k)) =
      keepRelevant (indexed_events vs (nn_Namespace k) (nn_string k))"
    if "ev_Reason x = ev_Reason e" "ev_InvolvedObject x = ev_InvolvedObject e" "ev_Namespace x = ev_Namespace e" for x vs
    using join [of "[x]" vs] hidden [OF that] by simp
  from assms(1) show ?thesis
    by cases (simp_all add: join hide)
qed

lemma derived_None:
  assumes "find_pod v k = None" and "pod_events v k = []"
  shows "derived v k = None"
  using assms by (simp add: derived_def deriveTransition_def latestEventWithReason_def)

text \<open>What is not queued at the start has no evidence.\<close>

lemma start_queue_derived:
  assumes "owned owner (evidence_of m)" and k: "k \<notin> set (start_queue m)"
  shows "derived (evidence_of m) k = None"
proof -
  from k have pods: "k \<notin> pod_key ` set (m_pods m)"
    and events: "\<And>e. e \<in> set (m_events m) \<Longrightarrow> relevantEventPredicate e \<Longrightarrow> involved_key e \<noteq> k"
    by (auto simp: start_queue_def set_fold_enqueue_event set_fold_enqueue)
  have "find_pod (evidence_of m) k = None"
    using pods by (cases k) (auto simp: find_pod_def evidence_of_def find_None_iff pod_key_def)
  moreover have "pod_events (evidence_of m) k = []"
  proof (rule ccontr)
    assume "pod_events (evidence_of m) k \<noteq> []"
    then obtain e where e: "e \<in> set (pod_events (evidence_of m) k)" by (meson list.set_sel(1))
    then have mem: "e \<in> set (m_events m)" and reason: "ev_Reason e \<in> set relevantEventReasons"
      by (auto simp: pod_events_def keepRelevant_def indexed_events_def evidence_of_def)
    with assms have "ev_Namespace e = or_Namespace (ev_InvolvedObject e)" by (simp add: owned_def evidence_of_def)
    from pod_events_key [OF e this] events [OF mem] reason show False by (simp add: relevantEventPredicate_def)
  qed
  ultimately show ?thesis by (rule derived_None)
qed

section \<open>Serving the queue on a server that answers\<close>

fun drain :: "SchedulingDecisionReconciler \<Rightarrow> NamespacedName list \<Rightarrow> mem \<Rightarrow> go_error option list \<times> mem" where
  "drain r [] m = ([], m)"
| "drain r (k # ks) m =
     (case Reconcile sample_env r k m of (res, m1) \<Rightarrow>
        (case drain r ks m1 of (rs, m2) \<Rightarrow> (res # rs, m2)))"

lemma calm_Reconcile_ok: "fst (Reconcile sample_env r k m) = None"
proof -
  have "\<exists>x. observation sample_env k m = Inr x"
    by (auto simp: observation_def mem_env_def or_not_found_def split: option.split)
  with mem_api.Reconcile_refines [of r k m] show ?thesis by auto
qed

text \<open>A served request is up to date from then on, and so is one that was before.\<close>

lemma drain_up_to_date:
  assumes "owned owner (evidence_of m)"
  shows "\<exists>m'. drain r ks m = (replicate (length ks) None, m') \<and> evidence_of m' = evidence_of m \<and>
    (\<forall>k. k \<in> set ks \<or> up_to_date (evidence_of m) (mem_live m) k \<longrightarrow> up_to_date (evidence_of m) (mem_live m') k)"
  using assms
proof (induction ks arbitrary: m)
  case (Cons k ks)
  obtain m1 where run: "Reconcile sample_env r k m = (None, m1)"
    using calm_Reconcile_ok by (metis prod.collapse)
  have ev: "evidence_of m1 = evidence_of m" using calm.Reconcile_view [of r k m] run by simp
  have "up_to_date (evidence_of m1) (mem_live m1) k'" if "k' = k \<or> up_to_date (evidence_of m) (mem_live m) k'" for k'
    using that calm.Reconcile_up_to_date [OF run] calm.Reconcile_keeps [OF run Cons.prems, of k'] by (cases "k' = k") auto
  with Cons.IH [of m1] Cons.prems ev run show ?case by auto
qed auto

definition sample_owner :: "string \<Rightarrow> NamespacedName" where
  "sample_owner uid = sample_req"

lemma sample_owned: "owned sample_owner (evidence_of (sample_world []))"
  by (simp add: owned_def evidence_of_def sample_owner_def pod_key_def sample_defs)

end
