(* ===== verification/Refinement.thy ===== *)
theory Refinement
  imports Work_Queue
begin

text \<open>
  What a whole reconcile does to the store, error paths included. \<open>reconcile_allows\<close> is the
  specification: which results may come with which contents of the store. The contract \<open>sole_env\<close> is
  that of a server that nobody else writes to and whose answers are current, but on which every call
  may fail, also after it has taken effect. A reconcile in it refines the specification.
\<close>

section \<open>Specification\<close>

definition contents_of :: "(string \<rightharpoonup> SchedulingDecision) \<Rightarrow> contents_map" where
  "contents_of live n = map_option content (live n)"

text \<open>The decision exists: as it was, or created with the given labels and spec and no history.\<close>

definition create_spec :: "(string \<rightharpoonup> string) \<times> SchedulingDecisionSpec \<Rightarrow> string \<Rightarrow> contents_map \<Rightarrow> contents_map" where
  "create_spec new n cs = (if cs n = None then cs(n \<mapsto> (fst new, snd new, zero_Status)) else cs)"

text \<open>
  The result of reconciling \<open>k\<close>, whose evidence shows the optional transition of the second argument.
  \<open>new i\<close> are the labels and the spec of a decision created for the identity \<open>i\<close>, and \<open>fails msg e\<close>
  says that a call whose error is reported under \<open>msg\<close> failed with \<open>e\<close>.
\<close>

inductive reconcile_allows ::
    "NamespacedName \<Rightarrow> (podIdentity \<times> SchedulingTransition) option \<Rightarrow>
     (podIdentity \<Rightarrow> (string \<rightharpoonup> string) \<times> SchedulingDecisionSpec) \<Rightarrow> (string \<Rightarrow> api_error \<Rightarrow> bool) \<Rightarrow>
     contents_map \<Rightarrow> go_error option \<Rightarrow> contents_map \<Rightarrow> bool"
  for k shown new fails cs where
  unread: "msg \<in> {''listing events for pod '', ''getting pod ''} \<Longrightarrow> fails msg e \<Longrightarrow>
    reconcile_allows k shown new fails cs (Some (Wrapf (msg @ nn_string k) (ApiErr e))) cs"
| nothing: "shown = None \<Longrightarrow> reconcile_allows k shown new fails cs None cs"
| unfetched: "shown = Some (i, t) \<Longrightarrow> n = decisionName (pi_UID i) \<Longrightarrow> fails ''getting SchedulingDecision '' e \<Longrightarrow>
    reconcile_allows k shown new fails cs (Some (Wrapf (''getting SchedulingDecision '' @ n) (ApiErr e))) cs"
| uncreated: "shown = Some (i, t) \<Longrightarrow> n = decisionName (pi_UID i) \<Longrightarrow> fails ''creating SchedulingDecision '' e \<Longrightarrow>
    cs n = None \<Longrightarrow> cs' \<in> {cs, create_spec (new i) n cs} \<Longrightarrow>
    reconcile_allows k shown new fails cs (Some (Wrapf (''creating SchedulingDecision '' @ n) (ApiErr e))) cs'"
| unwritten: "shown = Some (i, t) \<Longrightarrow> n = decisionName (pi_UID i) \<Longrightarrow> fails ''updating status for SchedulingDecision '' e \<Longrightarrow>
    cs' \<in> {create_spec (new i) n cs, record_spec whole_seconds (new i) n t cs} \<Longrightarrow>
    reconcile_allows k shown new fails cs (Some (Wrapf (''updating status for SchedulingDecision '' @ n) (ApiErr e))) cs'"
| recorded: "shown = Some (i, t) \<Longrightarrow> n = decisionName (pi_UID i) \<Longrightarrow>
    reconcile_allows k shown new fails cs None (record_spec whole_seconds (new i) n t cs)"

inductive_cases allows_successE: "reconcile_allows k shown new fails cs None cs'"

text \<open>
  The failing calls of a reconcile of \<open>k\<close> that starts in \<open>w\<close>: its own Event list and Pod get, and the
  calls on decisions in some state with the same evidence. A missing Pod or decision and a decision
  that exists already are no failures.
\<close>

definition call_fails :: "'w env \<Rightarrow> ('w \<Rightarrow> evidence) \<Rightarrow> NamespacedName \<Rightarrow> 'w \<Rightarrow> string \<Rightarrow> api_error \<Rightarrow> bool" where
  "call_fails E ev k w msg e \<longleftrightarrow>
     msg = ''listing events for pod '' \<and> fst (ListEvents E (nn_Namespace k) (nn_string k) w) = Inl e \<or>
     msg = ''getting pod '' \<and> e \<noteq> NotFound \<and> fst (GetPod E k (snd (ListEvents E (nn_Namespace k) (nn_string k) w))) = Inl e \<or>
     (\<exists>w1. ev w1 = ev w \<and>
        (msg = ''getting SchedulingDecision '' \<and> e \<noteq> NotFound \<and> (\<exists>n. fst (GetDecision E n w1) = Inl e) \<or>
         msg = ''creating SchedulingDecision '' \<and> e \<noteq> AlreadyExists \<and> (\<exists>d. fst (CreateDecision E d w1) = Some e) \<or>
         msg = ''updating status for SchedulingDecision '' \<and>
           ((\<exists>n. fst (GetDecision E n w1) = Inl e) \<or> (\<exists>d. fst (UpdateStatus E d w1) = Some e))))"

lemma call_fails_view:
  "ev w1 = ev w \<Longrightarrow> msg \<notin> {''listing events for pod '', ''getting pod ''} \<Longrightarrow> call_fails E ev k w1 msg = call_fails E ev k w msg"
  by (simp add: call_fails_def fun_eq_iff)

text \<open>The second half of \<open>record_spec\<close>: append to an entry that is there.\<close>

definition append_spec :: "string \<Rightarrow> SchedulingTransition \<Rightarrow> contents_map \<Rightarrow> contents_map" where
  "append_spec n t cs =
     (case cs n of None \<Rightarrow> cs
      | Some (l, sp, st) \<Rightarrow>
          cs(n \<mapsto> (l, sp, if st_Transitions st \<noteq> [] \<and> transitionsEqual (last (st_Transitions st)) t then st
                          else persist_status whole_seconds (applyTransition st t))))"

lemma record_spec_steps: "record_spec whole_seconds new n t cs = append_spec n t (create_spec new n cs)"
  by (auto simp: record_spec_def append_spec_def create_spec_def split: option.split prod.split)

lemma create_spec_defined: "create_spec new n cs n \<noteq> None"
  by (simp add: create_spec_def)

section \<open>The server\<close>

locale sole_env = observed_env E steps live ev
  for E :: "'w env" and steps and live :: "'w \<Rightarrow> string \<rightharpoonup> SchedulingDecision" and ev :: "'w \<Rightarrow> evidence" +
  assumes get_missing: "GetDecision E n w = (Inl NotFound, w') \<Longrightarrow> live w n = None"
    and create_done: "CreateDecision E d w = (None, w') \<Longrightarrow> live w (decision_name_of d) = None \<and>
      (\<exists>v. live w' = (live w)(decision_name_of d \<mapsto> with_version v (d\<lparr>sd_Status := zero_Status\<rparr>)))"
    and create_exists: "CreateDecision E d w = (Some AlreadyExists, w') \<Longrightarrow> live w (decision_name_of d) \<noteq> None"
    and create_failed: "CreateDecision E d w = (Some e, w') \<Longrightarrow> live w' = live w \<or>
      (\<exists>v. live w' = (live w)(decision_name_of d \<mapsto> with_version v (d\<lparr>sd_Status := zero_Status\<rparr>)))"
    and update_done: "UpdateStatus E d w = (None, w') \<Longrightarrow> \<exists>cur v. live w (decision_name_of d) = Some cur \<and>
      live w' = (live w)(decision_name_of d \<mapsto> with_version v (cur\<lparr>sd_Status := persist_status whole_seconds (sd_Status d)\<rparr>))"
    and update_rejected: "UpdateStatus E d w = (Some e, w') \<Longrightarrow> e \<in> {Conflict, NotFound} \<Longrightarrow> live w' = live w"
    and update_failed: "UpdateStatus E d w = (Some e, w') \<Longrightarrow> live w' = live w \<or> (\<exists>cur v. live w (decision_name_of d) = Some cur \<and>
      live w' = (live w)(decision_name_of d \<mapsto> with_version v (cur\<lparr>sd_Status := persist_status whole_seconds (sd_Status d)\<rparr>)))"
begin

abbreviation cont :: "'w \<Rightarrow> contents_map" where
  "cont w \<equiv> contents_of (live w)"

lemma cont_created:
  "live w' = (live w)(decision_name_of d \<mapsto> with_version v (d\<lparr>sd_Status := zero_Status\<rparr>)) \<Longrightarrow>
     live w (decision_name_of d) = None \<Longrightarrow>
     cont w' = create_spec (labels_of d, sd_Spec d) (decision_name_of d) (cont w)"
  by (simp add: contents_of_def create_spec_def content_def with_version_def fun_eq_iff)

lemma resolveVolumeContext_view: "ev (snd (resolveVolumeContext E pod w)) = ev w"
  by (simp add: resolveVolumeContext_def resolveVolumeLoop_view)

lemma append_attempt_view: "ev (snd (appendAttempt E n t w)) = ev w"
  by (simp add: appendAttempt_def case_prod_beta views split: sum.split)

lemma ensure_allows:
  assumes "ensureDecisionCreated E r n i found pod w = (res, w')"
  shows "\<exists>w1. ev w1 = ev w \<and> (let new = new_content E r i found pod w1 in
    (res = None \<and> cont w' = create_spec new n (cont w)) \<or>
    (\<exists>e. res = Some (Wrapf (''getting SchedulingDecision '' @ n) (ApiErr e)) \<and>
       call_fails E ev k w ''getting SchedulingDecision '' e \<and> cont w' = cont w) \<or>
    (\<exists>e. res = Some (Wrapf (''creating SchedulingDecision '' @ n) (ApiErr e)) \<and>
       call_fails E ev k w ''creating SchedulingDecision '' e \<and> cont w n = None \<and>
       cont w' \<in> {cont w, create_spec new n (cont w)}))"
proof -
  obtain x w1 where get: "GetDecision E n w = (x, w1)" by force
  then have w1: "live w1 = live w" "ev w1 = ev w" using live_get view_get by (metis snd_conv)+
  show ?thesis
  proof (cases "x = Inl NotFound")
    case False
    show ?thesis
    proof (cases x)
      case (Inl e)
      with False get have "call_fails E ev k w ''getting SchedulingDecision '' e"
        by (auto simp: call_fails_def intro!: exI [of _ w] exI [of _ n])
      with Inl False assms get w1 show ?thesis by (auto simp: ensureDecisionCreated_def Let_def intro!: exI [of _ w])
    next
      case (Inr d)
      with get get_current have "create_spec (new_content E r i found pod w) n (cont w) = cont w"
        by (auto simp: create_spec_def contents_of_def)
      with Inr assms get w1 show ?thesis by (auto simp: ensureDecisionCreated_def Let_def intro!: exI [of _ w])
    qed
  next
    case True
    with get get_missing have none: "live w n = None" by blast
    let ?new = "new_content E r i found pod w1"
    define vw where "vw = (if found then (case resolveVolumeContext E pod w1 of (Inl err, w2) \<Rightarrow> (None, w2) | (Inr v, w2) \<Rightarrow> (v, w2)) else (None, w1))"
    define d where "d = newDecision (time_unix (time_add (Now E w1) (retentionWindow r))) n i (fst vw)"
    have w2: "live (snd vw) = live w" "ev (snd vw) = ev w"
      using resolveVolumeContext_live [of pod w1] resolveVolumeContext_view [of pod w1] w1
      by (auto simp: vw_def split: prod.split sum.split)
    have d: "decision_name_of d = n" "(labels_of d, sd_Spec d) = ?new"
      by (auto simp: d_def new_content_def vw_def split: prod.split sum.split)
    obtain q w2 where q: "resolveVolumeContext E pod w1 = (q, w2)" by force
    have "ensureDecisionCreated E r n i found pod w = (case CreateDecision E d (snd vw) of (None, w3) \<Rightarrow> (None, w3)
        | (Some e, w3) \<Rightarrow> if e = AlreadyExists then (None, w3)
            else (Some (Wrapf (''creating SchedulingDecision '' @ n) (ApiErr e)), w3))"
      using get True q by (cases q; cases found) (simp_all add: ensureDecisionCreated_def d_def vw_def)
    moreover obtain y w3 where y: "CreateDecision E d (snd vw) = (y, w3)" by force
    ultimately have run: "(res, w') = (case y of None \<Rightarrow> (None, w3) | Some e \<Rightarrow> if e = AlreadyExists then (None, w3)
        else (Some (Wrapf (''creating SchedulingDecision '' @ n) (ApiErr e)), w3))"
      using assms by (simp split: option.splits)
    have new: "cont w3 = create_spec ?new n (cont w)" if "live w3 = (live w)(n \<mapsto> with_version v (d\<lparr>sd_Status := zero_Status\<rparr>))" for v
      using cont_created [of w3 w d v] that none d by simp
    have "y \<noteq> Some AlreadyExists" using create_exists [of d "snd vw" w3] y d(1) w2 none by auto
    moreover have "cont w3 = create_spec ?new n (cont w)" if "y = None"
      using create_done [of d "snd vw" w3] y that d(1) w2 new by auto
    moreover have "cont w3 \<in> {cont w, create_spec ?new n (cont w)}" if "y = Some e" for e
      using create_failed [of d "snd vw" e w3] y that d(1) w2 new by auto
    moreover have "call_fails E ev k w ''creating SchedulingDecision '' e" if "y = Some e" "e \<noteq> AlreadyExists" for e
      using y w2(2) that by (auto simp: call_fails_def intro!: exI [of _ "snd vw"] exI [of _ d])
    moreover have "cont w n = None" using none by (simp add: contents_of_def)
    ultimately show ?thesis using run w1(2) by (intro exI [of _ w1]) (auto simp: Let_def split: option.splits if_splits)
  qed
qed

lemma attempt_allows:
  assumes "appendAttempt E n t w = (res, w')" and "cont w n \<noteq> None"
  shows "case res of None \<Rightarrow> cont w' = append_spec n t (cont w)
    | Some e \<Rightarrow> cont w' \<in> {cont w, append_spec n t (cont w)} \<and> (retriable e \<longrightarrow> cont w' = cont w) \<and>
        call_fails E ev k w ''updating status for SchedulingDecision '' e"
proof -
  obtain x w1 where get: "GetDecision E n w = (x, w1)" by force
  then have w1: "live w1 = live w" "ev w1 = ev w" using live_get view_get by (metis snd_conv)+
  show ?thesis
  proof (cases x)
    case (Inl e)
    with get have "call_fails E ev k w ''updating status for SchedulingDecision '' e"
      by (auto simp: call_fails_def intro!: exI [of _ w] exI [of _ n])
    with Inl assms get w1 show ?thesis by (auto simp: appendAttempt_def)
  next
    case (Inr d)
    with get get_current have d: "live w n = Some d" "decision_name_of d = n" by blast+
    let ?d = "d\<lparr>sd_Status := applyTransition (sd_Status d) t\<rparr>"
    show ?thesis
    proof (cases "history_of d \<noteq> [] \<and> transitionsEqual (last (history_of d)) t")
      case True
      with assms get Inr w1 d show ?thesis
        by (auto simp: appendAttempt_def append_spec_def contents_of_def content_def fun_upd_idem)
    next
      case False
      with assms get Inr have upd: "UpdateStatus E ?d w1 = (res, w')" by (auto simp: appendAttempt_def)
      have full: "cont w' = append_spec n t (cont w)" if "live w1 n = Some cur"
          "live w' = (live w1)(n \<mapsto> with_version v (cur\<lparr>sd_Status := persist_status whole_seconds (sd_Status ?d)\<rparr>))" for cur v
        using that False d w1 by (auto simp: append_spec_def contents_of_def content_def with_version_def fun_eq_iff)
      have "call_fails E ev k w ''updating status for SchedulingDecision '' e" if "res = Some e" for e
        using upd w1 that by (simp add: call_fails_def) (metis fst_conv)
      then show ?thesis
        using upd d(2) w1 full update_done [of ?d w1 w'] update_rejected [of ?d w1 _ w'] update_failed [of ?d w1 _ w']
        by (auto simp: retriable_def split: option.split)
    qed
  qed
qed

lemma retry_allows:
  assumes "cont w n \<noteq> None" and "0 < m" and "retry_attempts m retriable (appendAttempt E n t) w = (res, w')"
  shows "case res of None \<Rightarrow> cont w' = append_spec n t (cont w)
    | Some e \<Rightarrow> cont w' \<in> {cont w, append_spec n t (cont w)} \<and>
        call_fails E ev k w ''updating status for SchedulingDecision '' e"
  using assms
proof (induction m arbitrary: w)
  case (Suc m)
  obtain y w1 where y: "appendAttempt E n t w = (y, w1)" by force
  note step = attempt_allows [OF y Suc.prems(1), of k]
  show ?case
  proof (cases "\<exists>e. y = Some e \<and> retriable e \<and> 0 < m")
    case True
    with step have same: "cont w1 = cont w" by auto
    have "ev w1 = ev w" using append_attempt_view [of n t w] y by simp
    then have fails: "call_fails E ev k w1 ''updating status for SchedulingDecision '' =
        call_fails E ev k w ''updating status for SchedulingDecision ''" by (rule call_fails_view) simp
    from True y Suc.prems(3) have "retry_attempts m retriable (appendAttempt E n t) w1 = (res, w')" by auto
    from Suc.IH [OF _ _ this] Suc.prems(1) True show ?thesis unfolding same fails by blast
  next
    case False
    with y Suc.prems(3) have "(res, w') = (y, w1)" by (auto split: option.splits if_splits)
    with step show ?thesis by (auto split: option.splits)
  qed
qed simp

lemma append_allows:
  assumes "appendTransitionWithRetry E n t w = (res, w')" and "cont w n \<noteq> None"
  shows "(res = None \<and> cont w' = append_spec n t (cont w)) \<or>
    (\<exists>e. res = Some (Wrapf (''updating status for SchedulingDecision '' @ n) (ApiErr e)) \<and>
       call_fails E ev k w ''updating status for SchedulingDecision '' e \<and>
       cont w' \<in> {cont w, append_spec n t (cont w)})"
proof -
  obtain y where y: "retry_attempts steps retriable (appendAttempt E n t) w = (y, w')"
    and res: "res = map_option (\<lambda>e. Wrapf (''updating status for SchedulingDecision '' @ n) (ApiErr e)) y"
    using assms(1) by (auto simp: appendTransitionWithRetry_def OnError_attempts split: prod.splits option.splits)
  from retry_allows [OF assms(2) steps_pos y, of k] res show ?thesis by (auto split: option.splits)
qed

lemma Reconcile_allows:
  assumes "Reconcile E r k w = (res, w')"
  shows "\<exists>w1. ev w1 = ev w \<and> reconcile_allows k (derived (ev w) k)
    (\<lambda>i. new_content E r i (find_pod (ev w) k \<noteq> None) (pod_or_zero (ev w) k) w1) (call_fails E ev k w)
    (cont w) res (cont w')"
  using assms
proof (cases rule: Reconcile_cases)
  case (recorded i t w2)
  let ?n = "decisionName (pi_UID i)"
  note fails = call_fails_view [where E = E and k = k]
  obtain y w3 where y: "ensureDecisionCreated E r ?n i (find_pod (ev w) k \<noteq> None) (pod_or_zero (ev w) k) w2 = (y, w3)" by force
  then have w3: "ev w3 = ev w" using ensureDecisionCreated_view recorded(3) by (metis snd_conv)
  from ensure_allows [OF y, of k] recorded(2,3) fails [OF recorded(3)]
  obtain w1 where w1: "ev w1 = ev w" and made: "let new = new_content E r i (find_pod (ev w) k \<noteq> None) (pod_or_zero (ev w) k) w1 in
    (y = None \<and> cont w3 = create_spec new ?n (cont w)) \<or>
    (\<exists>e. y = Some (Wrapf (''getting SchedulingDecision '' @ ?n) (ApiErr e)) \<and>
       call_fails E ev k w ''getting SchedulingDecision '' e \<and> cont w3 = cont w) \<or>
    (\<exists>e. y = Some (Wrapf (''creating SchedulingDecision '' @ ?n) (ApiErr e)) \<and>
       call_fails E ev k w ''creating SchedulingDecision '' e \<and> cont w ?n = None \<and>
       cont w3 \<in> {cont w, create_spec new ?n (cont w)})"
    by (auto simp: contents_of_def Let_def)
  let ?new = "\<lambda>i. new_content E r i (find_pod (ev w) k \<noteq> None) (pod_or_zero (ev w) k) w1"
  note intros = reconcile_allows.intros(3-) [where k = k and new = ?new and fails = "call_fails E ev k w" and cs = "cont w", OF recorded(1) refl]
  have "reconcile_allows k (derived (ev w) k) ?new (call_fails E ev k w) (cont w) res (cont w')"
  proof (cases y)
    case None
    with made have new: "cont w3 = create_spec (?new i) ?n (cont w)" by (simp add: Let_def)
    from None y recorded(4) have "appendTransitionWithRetry E ?n t w3 = (res, w')"
      by (simp add: recordTransition_def Let_def)
    from append_allows [OF this, of k] new create_spec_defined [of "?new i" ?n "cont w"] fails [OF w3]
    have "(res = None \<and> cont w' = record_spec whole_seconds (?new i) ?n t (cont w)) \<or>
        (\<exists>e. res = Some (Wrapf (''updating status for SchedulingDecision '' @ ?n) (ApiErr e)) \<and>
           call_fails E ev k w ''updating status for SchedulingDecision '' e \<and>
           cont w' \<in> {create_spec (?new i) ?n (cont w), record_spec whole_seconds (?new i) ?n t (cont w)})"
      unfolding record_spec_steps by auto
    then show ?thesis using intros(3,4) by metis
  next
    case (Some err)
    with y recorded(4) have "res = y" "w' = w3" by (simp_all add: recordTransition_def Let_def)
    with made Some show ?thesis unfolding Let_def using intros(1,2) by (metis option.distinct(1))
  qed
  with w1 show ?thesis by blast
next
  case (failed msg e)
  then have "call_fails E ev k w msg e" by (auto simp: call_fails_def)
  with failed show ?thesis by (auto simp: contents_of_def intro: reconcile_allows.unread)
next
  case nothing
  then show ?thesis by (auto simp: contents_of_def intro: reconcile_allows.nothing)
qed

end

section \<open>The server with outages keeps the contract\<close>

lemma mem_create_result:
  "fst (mem_create d m) = None \<Longrightarrow> log_live (m_log m) (decision_name_of d) = None \<and>
     (\<exists>v. log_live (m_log (snd (mem_create d m))) =
        (log_live (m_log m))(decision_name_of d \<mapsto> with_version v (d\<lparr>sd_Status := zero_Status\<rparr>)))"
  "fst (mem_create d m) = Some e \<Longrightarrow> log_live (m_log m) (decision_name_of d) \<noteq> None \<and> snd (mem_create d m) = m"
  by (auto simp: mem_create_def fun_eq_iff split: option.splits)

lemma mem_update_result:
  "fst (mem_update p d m) = None \<Longrightarrow> \<exists>cur v. log_live (m_log m) (decision_name_of d) = Some cur \<and>
     log_live (m_log (snd (mem_update p d m))) =
       (log_live (m_log m))(decision_name_of d \<mapsto> with_version v (cur\<lparr>sd_Status := persist_status p (sd_Status d)\<rparr>))"
  "fst (mem_update p d m) = Some e \<Longrightarrow> snd (mem_update p d m) = m"
  by (auto simp: mem_update_def fun_eq_iff split: option.splits if_splits dest!: log_live_past)

lemma faulty_call_result:
  assumes "faulty_call Some call w = (Some e, w')"
  shows "snd w' = snd w \<or> snd w' = snd (call (snd w))"
    and "e \<noteq> outage \<Longrightarrow> call (snd w) = (Some e, snd w')"
  using assms by (cases rule: faulty_call_cases; simp)+

interpretation seen: observed_env outage_env 4 "\<lambda>w. mem_live (snd w)" "\<lambda>w. evidence_of (snd w)"
proof (unfold_locales, goal_cases)
  case (8 ns key w items w')
  then have "faulty_call Inl (ListEvents sample_env ns key) w = (Inr items, w')" by (simp add: faulty_def)
  then show ?case by (cases rule: faulty_call_cases) (auto simp: mem_env_def evidence_of_def)
next
  case (9 k w p w')
  then have "faulty_call Inl (GetPod sample_env k) w = (Inr p, w')" by (simp add: faulty_def)
  then show ?case by (cases rule: faulty_call_cases) (auto simp: mem_env_def evidence_of_def find_pod_def)
next
  case (10 k w w')
  then have "faulty_call Inl (GetPod sample_env k) w = (Inl NotFound, w')" by (simp add: faulty_def)
  then show ?case
    by (cases rule: faulty_call_cases) (auto simp: mem_env_def evidence_of_def find_pod_def outage_def)
qed (simp_all add: faulty_def faulty_call_rel [where R = "\<lambda>a b. evidence_of b = evidence_of a"]
      mem_env_def evidence_writes, simp add: evidence_of_def)

interpretation outages_seen: sole_env outage_env 4 "\<lambda>w. mem_live (snd w)" "\<lambda>w. evidence_of (snd w)"
proof (unfold_locales, goal_cases)
  case (1 n w w')
  then have "faulty_call Inl (GetDecision sample_env n) w = (Inl NotFound, w')" by (simp add: faulty_def)
  then show ?case by (cases rule: faulty_call_cases) (auto simp: mem_env_def outage_def)
next
  case (2 d w w')
  then have "faulty_call Some (mem_create d) w = (None, w')" by (simp add: faulty_def mem_env_calls)
  then show ?case using mem_create_result(1) [of d "snd w"] by (cases rule: faulty_call_cases) simp_all
next
  case (3 d w w')
  then have "faulty_call Some (mem_create d) w = (Some AlreadyExists, w')" by (simp add: faulty_def mem_env_calls)
  from faulty_call_result(2) [OF this] mem_create_result(2) [of d "snd w"] show ?case by (simp add: outage_def)
next
  case (4 d w e w')
  then have "faulty_call Some (mem_create d) w = (Some e, w')" by (simp add: faulty_def mem_env_calls)
  from faulty_call_result(1) [OF this] mem_create_result [of d "snd w"] show ?case
    by (cases "fst (mem_create d (snd w))") auto
next
  case (5 d w w')
  then have "faulty_call Some (mem_update whole_seconds d) w = (None, w')" by (simp add: faulty_def mem_env_calls)
  then show ?case using mem_update_result(1) [of whole_seconds d "snd w"] by (cases rule: faulty_call_cases) simp_all
next
  case (6 d w e w')
  then have "faulty_call Some (mem_update whole_seconds d) w = (Some e, w')" by (simp add: faulty_def mem_env_calls)
  from faulty_call_result(2) [OF this] mem_update_result(2) [of whole_seconds d "snd w" e] 6(2) show ?case
    by (auto simp: outage_def)
next
  case (7 d w e w')
  then have "faulty_call Some (mem_update whole_seconds d) w = (Some e, w')" by (simp add: faulty_def mem_env_calls)
  from faulty_call_result(1) [OF this] mem_update_result [of whole_seconds d "snd w"] show ?case
    by (cases "fst (mem_update whole_seconds d (snd w))") auto
qed

section \<open>Refinement\<close>

text \<open>
  C2: refinement, error paths included. On a server that nobody else writes to and whose answers are
  current, but whose calls may fail at any moment, also after they took effect, a reconcile does to
  the decisions what the specification allows. Without an error it changes nothing when there is no
  evidence, and else makes one record under the name of the Pod's UID, created when missing,
  extended unless the transition repeats the last one. It returns an error only when a call failed
  with that error. A failed Event list, Pod get or decision get leaves the store as it was; a failed
  Create leaves it as it was or with the new, empty decision; a failed append leaves the decision
  in place, without the new transition or with it once. No other decision is touched, and a failed
  volume lookup only leaves the volume context out.
\<close>

theorem Reconcile_refines_spec:
  assumes "sole_env E steps live ev" and "Reconcile E r k w = (res, w')"
  shows "\<exists>w1. ev w1 = ev w \<and> reconcile_allows k (derived (ev w) k)
    (\<lambda>i. new_content E r i (find_pod (ev w) k \<noteq> None) (pod_or_zero (ev w) k) w1) (call_fails E ev k w)
    (contents_of (live w)) res (contents_of (live w'))"
  using assms by (rule sole_env.Reconcile_allows)

text \<open>A Create whose answer is lost: the error is reported, and the decision is there, still empty.\<close>

abbreviation lost_create :: "fault list \<times> mem" where
  "lost_create \<equiv> (replicate 5 NoFault @ [LostReply], sample_world [])"

theorem Reconcile_refines_spec_witness:
  "fst (Reconcile outage_env sample_reconciler sample_req lost_create) =
     Some (Wrapf ''creating SchedulingDecision sdec-u1'' (ApiErr outage)) \<and>
   (\<exists>m. reconcile_allows sample_req (derived (evidence_of (sample_world [])) sample_req)
     (\<lambda>i. new_content outage_env sample_reconciler i True sample_pod m)
     (call_fails outage_env (\<lambda>w. evidence_of (snd w)) sample_req lost_create) Map.empty
     (fst (Reconcile outage_env sample_reconciler sample_req lost_create))
     (contents_of (mem_live (snd (snd (Reconcile outage_env sample_reconciler sample_req lost_create))))))"
proof -
  have "fst (Reconcile outage_env sample_reconciler sample_req lost_create) =
     Some (Wrapf ''creating SchedulingDecision sdec-u1'' (ApiErr outage))" by code_simp
  moreover have "find_pod (evidence_of (sample_world [])) sample_req = Some sample_pod" by code_simp
  moreover have "contents_of (mem_live (sample_world [])) = Map.empty"
    by (simp add: contents_of_def sample_world_def fun_eq_iff)
  ultimately show ?thesis
    using Reconcile_refines_spec [OF outages_seen.sole_env_axioms prod.collapse [symmetric],
        where r = sample_reconciler and k = sample_req and w = lost_create]
    by (auto simp: pod_or_zero_def)
qed

end
