(* ===== verification/Watched_Env.thy ===== *)
theory Watched_Env
  imports Work_Queue
begin

text \<open>
  What the loop of the controller needs of its environment. The locale \<open>call_rel\<close> carries a relation
  between worlds that every API call respects through a whole reconcile; \<open>watched_env\<close> states that
  every change of the evidence of a request puts it into the queue, that the queue only grows
  meanwhile, and which reads and writes show that a transition is recorded. In it a reconcile without
  an error has recorded what its evidence shows or is queued again, and keeps all other records.
\<close>

section \<open>Relations that every call respects\<close>

locale call_rel = retry_env E steps for E :: "'w env" and steps +
  fixes R :: "'w \<Rightarrow> 'w \<Rightarrow> bool" and mine :: "string \<Rightarrow> bool"
  assumes rel_refl: "R w w" and rel_trans: "R w w1 \<Longrightarrow> R w1 w2 \<Longrightarrow> R w w2"
    and rel_list_events: "R w (snd (ListEvents E ns key w))"
    and rel_pod: "R w (snd (GetPod E k w))"
    and rel_pvc: "R w (snd (GetPVC E k w))"
    and rel_sc: "R w (snd (GetStorageClass E c w))"
    and rel_get: "R w (snd (GetDecision E n w))"
    and get_named: "GetDecision E n w = (Inr d, w') \<Longrightarrow> decision_name_of d = n"
    and rel_create: "mine (decision_name_of d) \<Longrightarrow> R w (snd (CreateDecision E d w))"
    and rel_update: "mine (decision_name_of d) \<Longrightarrow> R w (snd (UpdateStatus E d w))"
begin

lemma volumeContextFromPVC_rel: "R w (snd (volumeContextFromPVC E pvc w))"
  using rel_refl rel_sc
  by (auto simp: volumeContextFromPVC_def Let_def case_prod_beta split: option.split sum.split)

lemma resolveVolumeLoop_rel: "R w (snd (resolveVolumeLoop E pod vols w))"
proof (induction vols arbitrary: w)
  case (Cons v vols)
  have "R w (snd (GetPVC E k w))" and "R w (snd (volumeContextFromPVC E pvc (snd (GetPVC E k w))))"
    and "R w (snd (resolveVolumeLoop E pod vols (snd (GetPVC E k w))))" for k pvc
    using rel_pvc rel_trans [OF rel_pvc] volumeContextFromPVC_rel Cons.IH by blast+
  with Cons.IH show ?case
    by (auto simp: Let_def case_prod_beta split: option.split sum.split)
qed (simp add: rel_refl)

lemma ensure_rel:
  assumes "mine name"
  shows "R w (snd (ensureDecisionCreated E r name i found pod w))"
proof -
  let ?w1 = "snd (GetDecision E name w)"
  have get: "R w ?w1" by (rule rel_get)
  have vol: "R w (snd (resolveVolumeContext E pod ?w1))"
    using rel_trans [OF get] resolveVolumeLoop_rel by (simp add: resolveVolumeContext_def)
  have "R w (snd (CreateDecision E (newDecision x name i v) w2))" if "R w w2" for w2 x v
    using that rel_create [of "newDecision x name i v" w2] assms by (auto intro: rel_trans)
  with get vol show ?thesis
    by (auto simp: ensureDecisionCreated_def Let_def case_prod_beta split: option.split sum.split)
qed

lemma attempt_rel:
  assumes "mine name"
  shows "R w (snd (appendAttempt E name t w))"
proof -
  obtain x w1 where get: "GetDecision E name w = (x, w1)" by force
  then have step: "R w w1" using rel_get by (metis snd_conv)
  have "R w (snd (UpdateStatus E (d\<lparr>sd_Status := st\<rparr>) w1))" if "x = Inr d" for d st
    using get_named [of name w d w1] get that assms by (intro rel_trans [OF step] rel_update) simp
  with step get show ?thesis by (auto simp: appendAttempt_def split: sum.split)
qed

lemma append_rel:
  assumes "mine name"
  shows "R w (snd (appendTransitionWithRetry E name t w))"
proof -
  have "R w (snd (retry_attempts steps retriable (appendAttempt E name t) w))"
    by (rule retry_attempts_rel) (auto intro: rel_refl rel_trans attempt_rel [OF assms])
  then show ?thesis
    by (simp add: appendTransitionWithRetry_def OnError_attempts case_prod_beta split: option.split)
qed

lemma record_rel:
  assumes "mine (decisionName (pi_UID i))"
  shows "R w (snd (recordTransition E r i t found pod w))"
  using ensure_rel [OF assms] rel_trans [OF ensure_rel [OF assms] append_rel [OF assms]]
  by (auto simp: recordTransition_def Let_def case_prod_beta split: option.split)

text \<open>A whole reconcile, when the decision it writes is one of those the relation allows.\<close>

lemma Reconcile_rel:
  assumes "\<And>events w1 found pod w2 i t. listRelevantEvents E req w = (Inr events, w1) \<Longrightarrow>
      GetPod E req w1 = (if found then Inr pod else Inl NotFound, w2) \<Longrightarrow> (found \<or> pod = zero_Pod) \<Longrightarrow>
      deriveTransition (Now E w2) pod found events = Some (i, t) \<Longrightarrow> mine (decisionName (pi_UID i))"
  shows "R w (snd (Reconcile E r req w))"
proof -
  obtain x w1 where l: "listRelevantEvents E req w = (x, w1)" by force
  then have r1: "R w w1"
    using rel_list_events by (auto simp: listRelevantEvents_def split: prod.splits sum.splits) (metis snd_conv)+
  obtain y w2 where p: "GetPod E req w1 = (y, w2)" by force
  then have r2: "R w w2" using rel_pod rel_trans [OF r1] by (metis snd_conv)
  have rec: "R w (snd (recordTransition E r i t found pod w2))"
    if "x = Inr events" "y = (if found then Inr pod else Inl NotFound)" "found \<or> pod = zero_Pod"
      "deriveTransition (Now E w2) pod found events = Some (i, t)" for events found pod i t
    using assms [of events w1 found pod w2 i t] that l p by (intro rel_trans [OF r2] record_rel) auto
  show ?thesis
    using l p r1 r2 rec [of _ True] rec [of _ False zero_Pod]
    by (auto simp: Reconcile_def split: sum.split option.split)
qed

end


section \<open>An environment that is watched\<close>

text \<open>
  From one world to a later one: the queue grows, and a request that is not in it at the end has
  the evidence it had. \<open>fair\<close> is what the worlds of a run have in common.
\<close>

definition watched ::
    "('w \<Rightarrow> bool) \<Rightarrow> ('w \<Rightarrow> evidence) \<Rightarrow> ('w \<Rightarrow> NamespacedName set) \<Rightarrow> 'w \<Rightarrow> 'w \<Rightarrow> bool" where
  "watched fair ev pending w w' \<longleftrightarrow> (fair w \<longrightarrow> fair w' \<and> pending w \<subseteq> pending w' \<and>
     (\<forall>k. k \<notin> pending w' \<longrightarrow> same_evidence k (ev w) (ev w')))"

definition keeps ::
    "('w \<Rightarrow> bool) \<Rightarrow> ('w \<Rightarrow> string \<Rightarrow> SchedulingTransition \<Rightarrow> bool) \<Rightarrow> string \<Rightarrow> SchedulingTransition \<Rightarrow>
     'w \<Rightarrow> 'w \<Rightarrow> bool" where
  "keeps fair recorded n t w w' \<longleftrightarrow> (fair w \<longrightarrow> fair w' \<and> (recorded w n t \<longrightarrow> recorded w' n t))"

locale watched_env = retry_env E steps for E :: "'w env" and steps +
  fixes owner :: "string \<Rightarrow> NamespacedName" and fair :: "'w \<Rightarrow> bool" and ev :: "'w \<Rightarrow> evidence"
    and pending :: "'w \<Rightarrow> NamespacedName set" and recorded :: "'w \<Rightarrow> string \<Rightarrow> SchedulingTransition \<Rightarrow> bool"
  assumes calls_watched: "call_rel E steps (watched fair ev pending) (\<lambda>n. True)"
    and calls_keep: "call_rel E steps (keeps fair recorded n t) (\<lambda>n'. n' \<noteq> n)"
    and fair_owned: "fair w \<Longrightarrow> owned owner (ev w)"
    and list_current: "ListEvents E ns key w = (Inr items, w') \<Longrightarrow> items = indexed_events (evd_events (ev w')) ns key"
    and pod_current: "GetPod E k w = (Inr p, w') \<Longrightarrow> find_pod (ev w') k = Some p"
    and pod_missing: "GetPod E k w = (Inl NotFound, w') \<Longrightarrow> find_pod (ev w') k = None"
    and now_current: "Now E w = evd_clock (ev w)"
    and get_recorded: "fair w \<Longrightarrow> GetDecision E n w = (Inr d, w') \<Longrightarrow> ends_with t (Some d) \<Longrightarrow> recorded w' n t"
    and update_recorded: "fair w \<Longrightarrow> UpdateStatus E d w = (None, w') \<Longrightarrow>
      ends_with t (Some (d\<lparr>sd_Status := persist_status whole_seconds (sd_Status d)\<rparr>)) \<Longrightarrow>
      recorded w' (decision_name_of d) t"

sublocale watched_env \<subseteq> watch: call_rel E steps "watched fair ev pending" "\<lambda>n. True"
  by (rule calls_watched)

sublocale watched_env \<subseteq> keep: call_rel E steps "keeps fair recorded n t" "\<lambda>n'. n' \<noteq> n" for n t
  by (rule calls_keep)

context watched_env
begin

text \<open>The evidence a reconcile acts on: the Events of one moment and the Pod of a later one.\<close>

lemma derived_seen:
  assumes "fair w" and "listRelevantEvents E k w = (Inr events, w1)"
    and "GetPod E k w1 = (if found then Inr pod else Inl NotFound, w2)" and "found \<or> pod = zero_Pod"
  defines "v \<equiv> \<lparr>evd_pods = evd_pods (ev w2), evd_events = evd_events (ev w1), evd_clock = evd_clock (ev w2)\<rparr>"
  shows "deriveTransition (Now E w2) pod found events = derived v k" and "owned owner v"
    and "fair w2" and "k \<notin> pending w' \<Longrightarrow> watched fair ev pending w2 w' \<Longrightarrow> same_evidence k v (ev w')"
proof -
  obtain items where l: "ListEvents E (nn_Namespace k) (nn_string k) w = (Inr items, w1)" "events = keepRelevant items"
    using assms(2) by (auto simp: listRelevantEvents_def nn_string_def split: prod.splits sum.splits)
  then have events: "events = pod_events v k" "pod_events v k = pod_events (ev w1) k"
    using list_current by (auto simp: v_def pod_events_def)
  have pod: "find_pod v k = (if found then Some pod else None)" "find_pod v k = find_pod (ev w2) k"
    using assms(3) pod_current pod_missing by (auto simp: v_def find_pod_def split: if_splits)
  have clock: "evd_clock v = evd_clock (ev w2)" by (simp add: v_def)
  show "deriveTransition (Now E w2) pod found events = derived v k"
    using assms(4) clock by (auto simp: derived_def pod_or_zero_def events(1) pod(1) now_current)
  have w1: "watched fair ev pending w w1" using watch.rel_list_events l(1) by (metis snd_conv)
  moreover have w2: "watched fair ev pending w1 w2" using watch.rel_pod assms(3) by (metis snd_conv)
  ultimately show "fair w2" and "owned owner v"
    using fair_owned [of w1] fair_owned [of w2] assms(1) by (auto simp: watched_def v_def owned_def)
  assume k: "k \<notin> pending w'" and w': "watched fair ev pending w2 w'"
  with watch.rel_trans [OF w2 w'] w1 w2 assms(1) have "same_evidence k (ev w1) (ev w')" "same_evidence k (ev w2) (ev w')"
    by (auto simp: watched_def)
  then show "same_evidence k v (ev w')" using events(2) pod(2) by (simp add: same_evidence_def)
qed

lemma Reconcile_watched: "watched fair ev pending w (snd (Reconcile E r k w))"
  by (rule watch.Reconcile_rel) simp

text \<open>The record of another Pod is not touched.\<close>

lemma Reconcile_keeps:
  assumes "fair w" and "recorded w (decisionName uid) t" and "owner uid \<noteq> k"
  shows "recorded (snd (Reconcile E r k w)) (decisionName uid) t"
proof -
  have "keeps fair recorded (decisionName uid) t w (snd (Reconcile E r k w))"
  proof (rule keep.Reconcile_rel)
    fix events w1 found pod w2 i t'
    assume "listRelevantEvents E k w = (Inr events, w1)" "GetPod E k w1 = (if found then Inr pod else Inl NotFound, w2)"
      "found \<or> pod = zero_Pod" "deriveTransition (Now E w2) pod found events = Some (i, t')"
    from derived_seen(1,2) [OF assms(1) this(1-3)] this(4) have "owner (pi_UID i) = k" by (metis derived_owner)
    with assms(3) show "decisionName (pi_UID i) \<noteq> decisionName uid" by (auto simp: decisionName_def)
  qed
  with assms(1,2) show ?thesis by (simp add: keeps_def)
qed

lemma attempt_recorded:
  assumes "fair w" and "appendAttempt E n t w = (None, w')" and "whole_seconds (tr_DecisionTimestamp t) = tr_DecisionTimestamp t"
  shows "recorded w' n t"
proof -
  from assms(2) obtain d w1 where get: "GetDecision E n w = (Inr d, w1)"
    by (auto simp: appendAttempt_def split: prod.splits sum.splits)
  show ?thesis
  proof (cases "ends_with t (Some d)")
    case True
    with assms get have "w' = w1" by (auto simp: appendAttempt_def ends_with_def)
    with True get_recorded [OF assms(1) get] show ?thesis by simp
  next
    case False
    with assms get have upd: "UpdateStatus E (d\<lparr>sd_Status := applyTransition (sd_Status d) t\<rparr>) w1 = (None, w')"
      by (auto simp: appendAttempt_def ends_with_def)
    have "fair w1" using watch.rel_get [of w n] get assms(1) by (simp add: watched_def)
    from update_recorded [OF this upd, of t] watch.get_named [OF get] assms(3) show ?thesis
      by (simp add: ends_with_def transitionsEqual_def)
  qed
qed

lemma record_recorded:
  assumes "fair w" and "recordTransition E r i t found pod w = (None, w')"
    and "whole_seconds (tr_DecisionTimestamp t) = tr_DecisionTimestamp t"
  shows "recorded w' (decisionName (pi_UID i)) t"
proof -
  let ?n = "decisionName (pi_UID i)" and ?R = "watched fair ev pending"
  from assms(2) obtain w1 where w1: "ensureDecisionCreated E r ?n i found pod w = (None, w1)"
    and "appendTransitionWithRetry E ?n t w1 = (None, w')"
    by (auto simp: recordTransition_def Let_def split: prod.splits option.splits)
  then have run: "retry_attempts steps retriable (appendAttempt E ?n t) w1 = (None, w')"
    by (auto simp: appendTransitionWithRetry_def OnError_attempts split: prod.splits option.splits)
  obtain w2 where "?R w1 w2" and attempt: "appendAttempt E ?n t w2 = (None, w')"
    using retry_attempts_success [where R = ?R, OF watch.rel_refl _ watch.attempt_rel [OF TrueI] steps_pos run]
      watch.rel_trans by blast
  moreover have "?R w w1" using watch.ensure_rel [OF TrueI] w1 by (metis snd_conv)
  ultimately have "fair w2" using assms(1) by (simp add: watched_def)
  from attempt_recorded [OF this attempt assms(3)] show ?thesis .
qed

text \<open>A reconcile that returns no error has recorded its evidence, unless it has changed and is queued again.\<close>

lemma Reconcile_recorded:
  assumes "fair w" and run: "Reconcile E r k w = (None, w')" and "k \<notin> pending w'"
  shows "on_record (ev w') (recorded w') k"
proof -
  from run obtain events w1 where l: "listRelevantEvents E k w = (Inr events, w1)"
    by (auto simp: Reconcile_def split: prod.splits sum.splits)
  with run obtain found pod w2 where p: "GetPod E k w1 = (if found then Inr pod else Inl NotFound, w2)" "found \<or> pod = zero_Pod"
    and rest: "(case deriveTransition (Now E w2) pod found events of None \<Rightarrow> (None, w2)
      | Some (i, t) \<Rightarrow> recordTransition E r i t found pod w2) = (None, w')"
    by (fastforce simp: Reconcile_def split: prod.splits sum.splits if_splits)
  note seen = derived_seen [OF assms(1) l p]
  let ?v = "\<lparr>evd_pods = evd_pods (ev w2), evd_events = evd_events (ev w1), evd_clock = evd_clock (ev w2)\<rparr>"
  have "watched fair ev pending w2 w'"
    using rest watch.rel_refl watch.record_rel [OF TrueI] by (auto split: option.splits) (metis snd_conv)
  from seen(4) [OF assms(3) this] have same: "same_evidence k ?v (ev w')" .
  have "on_record ?v (recorded w') k"
    using rest seen(1,3) record_recorded by (auto simp: on_record_def split: option.splits)
  from on_record_cong [OF same _ this] show ?thesis by blast
qed

end

end
