(* ===== verification/Live_Loop.thy ===== *)
theory Live_Loop
  imports Watched_Env
begin

text \<open>
  The controller while the cluster goes on: Pods and Events change, decisions are deleted and the
  server fails between any two API calls of a reconcile, and a decision may be read from an
  outdated cache. The environment \<open>live_env\<close> has all of this; it is an instance of \<open>watched_env\<close>
  twice, with current and with outdated reads of decisions, and what is on record differs between
  the two. The loop takes requests from the queue, serves them in this environment and puts back
  those that failed.
\<close>

section \<open>A cluster that goes on\<close>

text \<open>
  What may happen between two calls: a Pod, an Event or a decision comes, changes or goes (an
  update of an Event keeps its reason and the object it involves), or something else changes.
  Each change of a Pod or an Event is reported to the watches.
\<close>

datatype happening =
    PodPut Pod
  | PodGone NamespacedName
  | EventAdd Event
  | EventSet nat Event
  | EventGone nat
  | DecisionGone string
  | OthersChange "PersistentVolumeClaim list" "StorageClass list" gotime

text \<open>What the cache of the client answers about a decision.\<close>

datatype lag = UpToDate | NotYet | AtVersion string

record live_ctl =
  lc_queue :: "NamespacedName list"
  lc_mem :: mem
  lc_lag :: "lag list"

definition without_pod :: "NamespacedName \<Rightarrow> Pod list \<Rightarrow> Pod list" where
  "without_pod k ps = filter (\<lambda>p. pod_key p \<noteq> k) ps"

definition delete_by_name :: "string \<Rightarrow> mem \<Rightarrow> mem" where
  "delete_by_name n m = (if log_live (m_log m) n = None then m else m\<lparr>m_log := Del n # m_log m\<rparr>)"

fun happen :: "happening \<Rightarrow> live_ctl \<Rightarrow> live_ctl" where
  "happen (PodPut p) s =
     s\<lparr>lc_queue := enqueue (pod_key p) (lc_queue s),
       lc_mem := (lc_mem s)\<lparr>m_pods := p # without_pod (pod_key p) (m_pods (lc_mem s))\<rparr>\<rparr>"
| "happen (PodGone k) s =
     s\<lparr>lc_queue := enqueue k (lc_queue s),
       lc_mem := (lc_mem s)\<lparr>m_pods := without_pod k (m_pods (lc_mem s))\<rparr>\<rparr>"
| "happen (EventAdd e) s =
     s\<lparr>lc_queue := enqueue_event e (lc_queue s),
       lc_mem := (lc_mem s)\<lparr>m_events := m_events (lc_mem s) @ [e]\<rparr>\<rparr>"
| "happen (EventSet i e) s =
     (if i < length (m_events (lc_mem s))
      then (let old = m_events (lc_mem s) ! i;
                e' = e\<lparr>ev_Namespace := ev_Namespace old, ev_Reason := ev_Reason old, ev_InvolvedObject := ev_InvolvedObject old\<rparr>
            in s\<lparr>lc_queue := enqueue_event e' (lc_queue s),
                 lc_mem := (lc_mem s)\<lparr>m_events := (m_events (lc_mem s))[i := e']\<rparr>\<rparr>)
      else s)"
| "happen (EventGone i) s =
     (if i < length (m_events (lc_mem s))
      then s\<lparr>lc_queue := enqueue_event (m_events (lc_mem s) ! i) (lc_queue s),
             lc_mem := (lc_mem s)\<lparr>m_events := take i (m_events (lc_mem s)) @ drop (Suc i) (m_events (lc_mem s))\<rparr>\<rparr>
      else s)"
| "happen (DecisionGone n) s = s\<lparr>lc_mem := delete_by_name n (lc_mem s)\<rparr>"
| "happen (OthersChange pvcs scs now) s = s\<lparr>lc_mem := (lc_mem s)\<lparr>m_pvcs := pvcs, m_scs := scs, m_clock := now\<rparr>\<rparr>"

text \<open>A run of the retention sweep is a sequence of such deletions, and others may come between them.\<close>

lemma mem_delete_by_name: "snd (mem_delete d m) = delete_by_name (decision_name_of d) m"
  by (simp add: mem_delete_def delete_by_name_def split: option.split)

lemma sweep_is_deletions: "\<exists>ns. s\<lparr>lc_mem := snd (sweep sample_env now (lc_mem s))\<rparr> = fold happen (map DecisionGone ns) s"
proof (rule sweep_preserves [where P = "\<lambda>m. \<exists>ns. s\<lparr>lc_mem := m\<rparr> = fold happen (map DecisionGone ns) s"])
  show "\<exists>ns. s\<lparr>lc_mem := lc_mem s\<rparr> = fold happen (map DecisionGone ns) s" by (intro exI [of _ "[]"]) simp
next
  fix d m assume "\<exists>ns. s\<lparr>lc_mem := m\<rparr> = fold happen (map DecisionGone ns) s"
  then obtain ns where ns: "fold happen (map DecisionGone ns) s = s\<lparr>lc_mem := m\<rparr>" by auto
  show "\<exists>ns. s\<lparr>lc_mem := snd (DeleteDecision sample_env d m)\<rparr> = fold happen (map DecisionGone ns) s"
    by (intro exI [of _ "ns @ [decision_name_of d]"]) (simp add: ns mem_delete_by_name mem_env_def)
qed (simp add: mem_env_def)

section \<open>The environment of a reconcile\<close>

definition on_mem :: "(mem \<Rightarrow> 'r \<times> mem) \<Rightarrow> live_ctl \<Rightarrow> 'r \<times> live_ctl" where
  "on_mem call s = (case call (lc_mem s) of (x, m) \<Rightarrow> (x, s\<lparr>lc_mem := m\<rparr>))"

fun cached :: "lag \<Rightarrow> mem \<Rightarrow> string \<Rightarrow> SchedulingDecision option" where
  "cached UpToDate m n = mem_live m n"
| "cached NotYet m n = None"
| "cached (AtVersion v) m n = log_past (m_log m) (n, v)"

definition cached_get :: "string \<Rightarrow> live_ctl \<Rightarrow> (api_error, SchedulingDecision) result \<times> live_ctl" where
  "cached_get n s =
     (case lc_lag s of
        [] \<Rightarrow> (or_not_found (mem_live (lc_mem s) n), s)
      | a # rest \<Rightarrow> (or_not_found (cached a (lc_mem s) n), s\<lparr>lc_lag := rest\<rparr>))"

definition base_env :: "live_ctl env" where
  "base_env =
     \<lparr>ListEvents = (\<lambda>ns key. on_mem (ListEvents sample_env ns key)),
      GetPod = (\<lambda>k. on_mem (GetPod sample_env k)),
      GetPVC = (\<lambda>k. on_mem (GetPVC sample_env k)),
      GetStorageClass = (\<lambda>n. on_mem (GetStorageClass sample_env n)),
      GetDecision = cached_get,
      ListDecisions = on_mem (ListDecisions sample_env),
      CreateDecision = (\<lambda>d. on_mem (CreateDecision sample_env d)),
      UpdateStatus = (\<lambda>d. on_mem (UpdateStatus sample_env d)),
      DeleteDecision = (\<lambda>d. on_mem (DeleteDecision sample_env d)),
      CreateEvent = (\<lambda>e. on_mem (CreateEvent sample_env e)),
      Now = (\<lambda>s. m_clock (lc_mem s)),
      OnError = retry_attempts 4\<rparr>"

type_synonym live_world = "fault list \<times> happening list list \<times> live_ctl"

text \<open>Before each call any number of things happen; then the call is answered, refused or its answer is lost.\<close>

definition live_env :: "live_world env" where
  "live_env = faulty 4 (interleave 4 (fold happen) base_env)"


section \<open>The laws hold\<close>

text \<open>Each UID belongs to one namespaced name, and Events lie in the namespace of their object.\<close>

fun admissible :: "(string \<Rightarrow> NamespacedName) \<Rightarrow> happening \<Rightarrow> bool" where
  "admissible owner (PodPut p) \<longleftrightarrow> owner (pod_UID p) = pod_key p"
| "admissible owner (EventAdd e) \<longleftrightarrow> ev_Namespace e = or_Namespace (ev_InvolvedObject e) \<and>
     (or_Kind (ev_InvolvedObject e) = podKind \<longrightarrow> owner (or_UID (ev_InvolvedObject e)) = involved_key e)"
| "admissible owner h \<longleftrightarrow> True"

definition ctl_fair :: "(string \<Rightarrow> NamespacedName) \<Rightarrow> bool \<Rightarrow> live_ctl \<Rightarrow> bool" where
  "ctl_fair owner current s \<longleftrightarrow> owned owner (evidence_of (lc_mem s)) \<and> (current \<longrightarrow> lc_lag s = [])"

abbreviation ctl_evidence :: "live_ctl \<Rightarrow> evidence" where
  "ctl_evidence s \<equiv> evidence_of (lc_mem s)"

abbreviation ctl_pending :: "live_ctl \<Rightarrow> NamespacedName set" where
  "ctl_pending s \<equiv> set (lc_queue s)"

lemma find_pod_without:
  "k' \<noteq> k \<Longrightarrow> find (\<lambda>p. pod_Namespace p = nn_Namespace k' \<and> pod_Name p = nn_Name k') (without_pod k ps) =
     find (\<lambda>p. pod_Namespace p = nn_Namespace k' \<and> pod_Name p = nn_Name k') ps"
  by (induction ps) (auto simp: without_pod_def pod_key_def)

lemma event_list_change:
  assumes "event_change (m_events m) e es'" and "ev_Namespace e = or_Namespace (ev_InvolvedObject e)"
    and "k \<notin> set (enqueue_event e q)"
  shows "same_evidence k (evidence_of m) (evidence_of (m\<lparr>m_events := es'\<rparr>))"
proof -
  have "relevantEventPredicate e \<Longrightarrow> involved_key e \<noteq> k" using assms(3) by auto
  from event_change_others [OF assms(1,2) this] show ?thesis
    by (simp add: same_evidence_def evidence_of_def find_pod_def pod_events_def)
qed

lemma happen_watched:
  assumes "admissible owner h"
  shows "watched (ctl_fair owner current) ctl_evidence ctl_pending s (happen h s)"
proof (cases h)
  case (PodPut p)
  have "pod_Namespace p = nn_Namespace k \<and> pod_Name p = nn_Name k \<Longrightarrow> pod_key p = k" for k by (simp add: pod_key_def)
  with PodPut assms show ?thesis
    by (auto simp: watched_def ctl_fair_def owned_def evidence_of_def same_evidence_def find_pod_def pod_events_def
        find_pod_without, auto simp: without_pod_def)
next
  case (PodGone k)
  then show ?thesis
    by (auto simp: watched_def ctl_fair_def owned_def evidence_of_def same_evidence_def find_pod_def pod_events_def
        find_pod_without, auto simp: without_pod_def)
next
  case (EventAdd e)
  have "event_change (m_events (lc_mem s)) e (m_events (lc_mem s) @ [e])"
    using event_change.created [of "m_events (lc_mem s)" "[]" e] by simp
  from event_list_change [OF this] EventAdd assms show ?thesis
    by (auto simp: watched_def ctl_fair_def owned_def evidence_of_def)
next
  case (EventSet i e)
  show ?thesis
  proof (cases "i < length (m_events (lc_mem s))")
    case True
    let ?es = "m_events (lc_mem s)"
    let ?e = "e\<lparr>ev_Namespace := ev_Namespace (?es ! i), ev_Reason := ev_Reason (?es ! i), ev_InvolvedObject := ev_InvolvedObject (?es ! i)\<rparr>"
    have "event_change (take i ?es @ ?es ! i # drop (Suc i) ?es) ?e (take i ?es @ ?e # drop (Suc i) ?es)"
      by (rule event_change.updated) simp_all
    then have change: "event_change ?es ?e (?es[i := ?e])"
      by (simp add: id_take_nth_drop [OF True, symmetric] upd_conv_take_nth_drop [OF True])
    have old: "?es ! i \<in> set ?es" using True by simp
    show ?thesis
      using event_list_change [OF change] EventSet True old set_update_subset_insert [of ?es i ?e]
      by (auto simp: watched_def ctl_fair_def owned_def evidence_of_def Let_def involved_key_def)
  qed (simp add: EventSet watched_def)
next
  case (EventGone i)
  show ?thesis
  proof (cases "i < length (m_events (lc_mem s))")
    case True
    let ?es = "m_events (lc_mem s)"
    have "event_change (take i ?es @ ?es ! i # drop (Suc i) ?es) (?es ! i) (take i ?es @ drop (Suc i) ?es)"
      by (rule event_change.deleted)
    then have change: "event_change ?es (?es ! i) (take i ?es @ drop (Suc i) ?es)"
      by (simp add: id_take_nth_drop [OF True, symmetric])
    have old: "?es ! i \<in> set ?es" using True by simp
    show ?thesis
      using event_list_change [OF change] EventGone True old
      by (auto simp: watched_def ctl_fair_def owned_def evidence_of_def dest: in_set_takeD in_set_dropD)
  qed (simp add: EventGone watched_def)
qed (auto simp: watched_def ctl_fair_def evidence_of_def owned_def same_evidence_def find_pod_def pod_events_def delete_by_name_def)

text \<open>A relation on the state that whatever happens and every call respects, carried over to \<open>live_env\<close>.\<close>

abbreviation script_ok :: "(string \<Rightarrow> NamespacedName) \<Rightarrow> happening list list \<Rightarrow> bool" where
  "script_ok owner script \<equiv> list_all (list_all (admissible owner)) script"

definition live_rel :: "(string \<Rightarrow> NamespacedName) \<Rightarrow> (live_ctl \<Rightarrow> live_ctl \<Rightarrow> bool) \<Rightarrow> live_world \<Rightarrow> live_world \<Rightarrow> bool" where
  "live_rel owner R w w' \<longleftrightarrow> (script_ok owner (fst (snd w)) \<longrightarrow>
     script_ok owner (fst (snd w')) \<and> R (snd (snd w)) (snd (snd w')))"

locale happening_rel = call_rel base_env 4 R mine for R mine +
  fixes owner :: "string \<Rightarrow> NamespacedName" and R' :: "live_world \<Rightarrow> live_world \<Rightarrow> bool"
  assumes happen_rel: "admissible owner h \<Longrightarrow> R s (happen h s)"
    and live_trans: "R' w w1 \<Longrightarrow> R' w1 w2 \<Longrightarrow> R' w w2"
    and live_lift: "live_rel owner R w w' \<Longrightarrow> R' w w'"
begin

lemma fold_happen_rel: "list_all (admissible owner) hs \<Longrightarrow> R s (fold happen hs s)"
  by (induction hs arbitrary: s) (auto simp: rel_refl intro: rel_trans happen_rel)

lemma woven_call_rel:
  assumes "\<And>s. R s (snd (call s))"
  shows "R' w (snd (faulty_call bad (woven_call (fold happen) call) w))"
proof (rule live_lift)
  let ?Q = "\<lambda>a b. script_ok owner (fst a) \<longrightarrow> script_ok owner (fst b) \<and> R (snd a) (snd b)"
  have "?Q m (snd (woven_call (fold happen) call m))" for m
    using assms fold_happen_rel rel_trans
    by (cases m) (auto simp: woven_call_def next_act_def split: prod.split list.split, metis snd_conv, metis snd_conv)
  from faulty_call_rel [where R = ?Q, OF _ this] rel_refl
  show "live_rel owner R w (snd (faulty_call bad (woven_call (fold happen) call) w))"
    by (simp add: live_rel_def)
qed

lemma live_calls: "call_rel live_env 4 R' mine"
proof (unfold_locales, goal_cases)
  case (3 w)
  show ?case by (rule live_lift) (simp add: live_rel_def rel_refl)
next
  case (4 w w1 w2)
  then show ?case by (rule live_trans)
next
  case (10 n w d w')
  then have "faulty_call Inl (woven_call (fold happen) (GetDecision base_env n)) w = (Inr d, w')"
    by (simp add: live_env_def faulty_def interleave_def)
  then show ?case by (cases rule: faulty_call_cases) (auto simp: woven_call_eq dest: get_named)
qed (simp_all add: live_env_def faulty_def interleave_def woven_call_rel rel_list_events rel_pod rel_pvc rel_sc rel_get
    rel_create rel_update)

end

lemma base_env_calls:
  "ListEvents base_env ns key s = (Inr (indexed_events (m_events (lc_mem s)) ns key), s)"
  "snd (GetPod base_env k s) = s" "snd (GetPVC base_env k s) = s" "snd (GetStorageClass base_env c s) = s"
  "GetDecision base_env n s = cached_get n s"
  "CreateDecision base_env d s = on_mem (mem_create d) s"
  "UpdateStatus base_env d s = on_mem (mem_update whole_seconds d) s"
  by (simp_all add: base_env_def on_mem_def mem_env_def)

lemma on_mem_snd: "snd (on_mem call s) = s\<lparr>lc_mem := snd (call (lc_mem s))\<rparr>"
  by (simp add: on_mem_def split: prod.split)

lemma cached_get_snd: "\<exists>ls. snd (cached_get n s) = s\<lparr>lc_lag := ls\<rparr> \<and> (lc_lag s = [] \<longrightarrow> ls = [])"
proof (cases "lc_lag s")
  case Nil
  then show ?thesis by (intro exI [of _ "[]"]) (simp add: cached_get_def)
qed (auto simp: cached_get_def)

lemma log_past_put: "log_past es k = Some d \<Longrightarrow> Put d \<in> set es"
  by (induction es k rule: log_past.induct) (auto split: if_splits)

lemma log_live_put: "log_live es n = Some d \<Longrightarrow> Put d \<in> set es"
  by (auto dest!: log_live_past log_past_put)

lemma cached_get_decision:
  assumes "cached_get n s = (Inr d, s')"
  shows "decision_name_of d = n" and "Put d \<in> set (m_log (lc_mem s))" and "lc_lag s = [] \<Longrightarrow> mem_live (lc_mem s) n = Some d"
proof -
  from assms obtain a where a: "cached a (lc_mem s) n = Some d" and fresh: "lc_lag s = [] \<Longrightarrow> a = UpToDate"
    by (auto simp: cached_get_def split: list.splits intro: that [of UpToDate])
  then show "decision_name_of d = n" "Put d \<in> set (m_log (lc_mem s))" "lc_lag s = [] \<Longrightarrow> mem_live (lc_mem s) n = Some d"
    by (cases a; auto dest: log_live_past log_past_key log_live_put log_past_put)+
qed

lemma base_watched: "call_rel base_env 4 (watched (ctl_fair owner current) ctl_evidence ctl_pending) (\<lambda>n. True)"
proof (unfold_locales, goal_cases)
  case (4 w w1 w2)
  then show ?case by (auto simp: watched_def same_evidence_def)
next
  case (9 w n)
  then show ?case using cached_get_snd [of n w] by (auto simp: base_env_calls watched_def ctl_fair_def)
next
  case (10 n w d w')
  then show ?case by (auto simp: base_env_calls dest: cached_get_decision)
qed (simp_all add: base_env_calls on_mem_snd watched_def ctl_fair_def evidence_writes, simp add: base_env_def)

section \<open>The loop\<close>

text \<open>
  A request that is served leaves the queue first; the watches may put it back while its reconcile
  runs, and an error puts it back at the end. With \<open>current\<close> no read of a decision is outdated.
\<close>

definition serve ::
    "SchedulingDecisionReconciler \<Rightarrow> NamespacedName \<Rightarrow> fault list \<Rightarrow> happening list list \<Rightarrow> live_ctl \<Rightarrow> live_ctl" where
  "serve r k faults script s =
     (case Reconcile live_env r k (faults, script, s\<lparr>lc_queue := removeAll k (lc_queue s)\<rparr>) of (res, _, _, s') \<Rightarrow>
        if res = None then s' else s'\<lparr>lc_queue := enqueue k (lc_queue s')\<rparr>)"

inductive live_step ::
    "(string \<Rightarrow> NamespacedName) \<Rightarrow> bool \<Rightarrow> SchedulingDecisionReconciler \<Rightarrow> live_ctl \<Rightarrow> live_ctl \<Rightarrow> bool"
  for owner current r where
  happens: "admissible owner h \<Longrightarrow> live_step owner current r s (happen h s)"
| lags: "\<not> current \<Longrightarrow> live_step owner current r s (s\<lparr>lc_lag := ls\<rparr>)"
| serves: "k \<in> set (lc_queue s) \<Longrightarrow> script_ok owner script \<Longrightarrow>
    live_step owner current r s (serve r k faults script s)"

definition live_start :: "mem \<Rightarrow> live_ctl" where
  "live_start m = \<lparr>lc_queue = start_queue m, lc_mem = m, lc_lag = []\<rparr>"

definition live_fair :: "(string \<Rightarrow> NamespacedName) \<Rightarrow> bool \<Rightarrow> live_world \<Rightarrow> bool" where
  "live_fair owner current w \<longleftrightarrow> script_ok owner (fst (snd w)) \<and> ctl_fair owner current (snd (snd w))"

lemma happen_log: "m_log (lc_mem (happen h s)) = m_log (lc_mem s) \<or> (\<exists>n. lc_mem (happen h s) = delete_by_name n (lc_mem s))"
  by (cases h) (auto simp: Let_def)

text \<open>What counts as recorded: nothing but a write of that decision takes it back.\<close>

locale live_record =
  fixes owner :: "string \<Rightarrow> NamespacedName" and current :: bool
    and recorded :: "mem \<Rightarrow> string \<Rightarrow> SchedulingTransition \<Rightarrow> bool"
  assumes log_rec: "m_log m' = m_log m \<Longrightarrow> recorded m' n t = recorded m n t"
    and delete_rec: "recorded m n t \<Longrightarrow> recorded (delete_by_name n' m) n t"
    and create_rec: "n \<noteq> decision_name_of d \<Longrightarrow> recorded m n t \<Longrightarrow> recorded (snd (mem_create d m)) n t"
    and update_rec: "n \<noteq> decision_name_of d \<Longrightarrow> recorded m n t \<Longrightarrow> recorded (snd (mem_update whole_seconds d m)) n t"
    and read_rec: "ctl_fair owner current s \<Longrightarrow> cached_get n s = (Inr d, s') \<Longrightarrow> ends_with t (Some d) \<Longrightarrow>
      recorded (lc_mem s) n t"
    and written_rec: "mem_update whole_seconds d m = (None, m') \<Longrightarrow>
      ends_with t (Some (d\<lparr>sd_Status := persist_status whole_seconds (sd_Status d)\<rparr>)) \<Longrightarrow>
      recorded m' (decision_name_of d) t"
begin

abbreviation ctl_rec :: "live_ctl \<Rightarrow> string \<Rightarrow> SchedulingTransition \<Rightarrow> bool" where
  "ctl_rec s \<equiv> recorded (lc_mem s)"

lemma happen_rec: "ctl_rec s n t \<Longrightarrow> ctl_rec (happen h s) n t"
  using happen_log [of h s] delete_rec log_rec by metis

lemma base_keeps: "call_rel base_env 4 (keeps (ctl_fair owner current) ctl_rec n t) (\<lambda>n'. n' \<noteq> n)"
proof (unfold_locales, goal_cases)
  case (4 w w1 w2)
  then show ?case by (auto simp: keeps_def)
next
  case (9 w n)
  then show ?case using cached_get_snd [of n w] by (auto simp: base_env_calls keeps_def ctl_fair_def)
next
  case (10 n w d w')
  then show ?case by (auto simp: base_env_calls dest: cached_get_decision)
next
  case (11 d w)
  then show ?case using create_rec [of n d "lc_mem w" t] by (simp add: base_env_calls on_mem_snd keeps_def ctl_fair_def evidence_writes)
next
  case (12 d w)
  then show ?case using update_rec [of n d "lc_mem w" t] by (simp add: base_env_calls on_mem_snd keeps_def ctl_fair_def evidence_writes)
qed (simp_all add: base_env_calls keeps_def, simp add: base_env_def)

lemma live_watched:
  "call_rel live_env 4 (watched (live_fair owner current) (\<lambda>w. ctl_evidence (snd (snd w))) (\<lambda>w. ctl_pending (snd (snd w)))) (\<lambda>n. True)"
proof -
  have "happening_rel (watched (ctl_fair owner current) ctl_evidence ctl_pending) (\<lambda>n. True) owner
      (watched (live_fair owner current) (\<lambda>w. ctl_evidence (snd (snd w))) (\<lambda>w. ctl_pending (snd (snd w))))"
    by (intro happening_rel.intro happening_rel_axioms.intro base_watched)
      (simp add: happen_watched, auto simp: watched_def same_evidence_def live_rel_def live_fair_def)
  then show ?thesis by (rule happening_rel.live_calls)
qed

lemma live_keeps:
  "call_rel live_env 4 (keeps (live_fair owner current) (\<lambda>w. ctl_rec (snd (snd w))) n t) (\<lambda>n'. n' \<noteq> n)"
proof -
  have "happening_rel (keeps (ctl_fair owner current) ctl_rec n t) (\<lambda>n'. n' \<noteq> n) owner
      (keeps (live_fair owner current) (\<lambda>w. ctl_rec (snd (snd w))) n t)"
  proof (intro happening_rel.intro happening_rel_axioms.intro base_keeps)
    show "keeps (ctl_fair owner current) ctl_rec n t s (happen h s)" if "admissible owner h" for h s
      using happen_watched [OF that, of current s] happen_rec by (simp add: watched_def keeps_def)
  qed (auto simp: keeps_def live_rel_def live_fair_def)
  then show ?thesis by (rule happening_rel.live_calls)
qed

end

lemma live_call:
  assumes "faulty_call bad (woven_call (fold happen) call) w = (x, w')" and "x \<noteq> bad outage"
  obtains hs s where "snd (snd w') = snd (call s)" "fst (call s) = x"
    and "s = fold happen hs (snd (snd w))" and "fst (snd w) = [] \<and> hs = [] \<or> (\<exists>rest. fst (snd w) = hs # rest)"
  using assms
  by (cases rule: faulty_call_cases)
    (cases "snd w"; cases "fst (snd w)"; force simp: woven_call_eq next_act_def split: prod.splits)+

lemma live_call_fair:
  assumes "faulty_call bad (woven_call (fold happen) call) w = (x, w')" and "x \<noteq> bad outage"
    and "live_fair owner current w"
  obtains s where "snd (snd w') = snd (call s)" "fst (call s) = x" "ctl_fair owner current s"
proof -
  from assms(1,2) obtain hs s where s: "snd (snd w') = snd (call s)" "fst (call s) = x" "s = fold happen hs (snd (snd w))"
    and hs: "fst (snd w) = [] \<and> hs = [] \<or> (\<exists>rest. fst (snd w) = hs # rest)"
    by (rule live_call)
  have "ctl_fair owner current (fold happen hs s0)" if "list_all (admissible owner) hs" "ctl_fair owner current s0" for s0 hs
    using that by (induction hs arbitrary: s0) (use happen_watched in \<open>auto simp: watched_def\<close>)
  moreover have "list_all (admissible owner) hs" "ctl_fair owner current (snd (snd w))"
    using assms(3) hs by (auto simp: live_fair_def)
  ultimately show thesis using s that by blast
qed

sublocale live_record \<subseteq> watched_env live_env 4 owner "live_fair owner current" "\<lambda>w. ctl_evidence (snd (snd w))"
  "\<lambda>w. ctl_pending (snd (snd w))" "\<lambda>w. ctl_rec (snd (snd w))"
proof (intro watched_env.intro watched_env_axioms.intro, goal_cases)
  case 2
  show ?case by (rule live_watched)
next
  case (3 n t)
  show ?case by (rule live_keeps)
next
  case (4 w)
  then show ?case by (simp add: live_fair_def ctl_fair_def)
next
  case (5 ns key w items w')
  then have "faulty_call Inl (woven_call (fold happen) (ListEvents base_env ns key)) w = (Inr items, w')"
    by (simp add: live_env_def faulty_def interleave_def)
  then show ?case by (rule live_call) (auto simp: base_env_calls evidence_of_def)
next
  case (6 k w p w')
  then have "faulty_call Inl (woven_call (fold happen) (GetPod base_env k)) w = (Inr p, w')"
    by (simp add: live_env_def faulty_def interleave_def)
  then show ?case
    by (rule live_call) (auto simp: base_env_def on_mem_def mem_env_def evidence_of_def find_pod_def)
next
  case (7 k w w')
  then have "faulty_call Inl (woven_call (fold happen) (GetPod base_env k)) w = (Inl NotFound, w')"
    by (simp add: live_env_def faulty_def interleave_def)
  then show ?case
    by (rule live_call) (auto simp: base_env_def on_mem_def mem_env_def evidence_of_def find_pod_def outage_def)
next
  case (9 w n d w' t)
  then have "faulty_call Inl (woven_call (fold happen) (GetDecision base_env n)) w = (Inr d, w')"
    by (simp add: live_env_def faulty_def interleave_def)
  then obtain s where s: "snd (snd w') = snd (cached_get n s)" "fst (cached_get n s) = Inr d" "ctl_fair owner current s"
    by (rule live_call_fair [OF _ _ 9(1)]) (auto simp: base_env_calls)
  then have "ctl_rec s n t" using read_rec [of s n d "snd (cached_get n s)" t] 9(3) by (simp add: prod_eq_iff)
  with s(1) cached_get_snd [of n s] show ?case by auto
next
  case (10 w d w' t)
  then have "faulty_call Some (woven_call (fold happen) (UpdateStatus base_env d)) w = (None, w')"
    by (simp add: live_env_def faulty_def interleave_def)
  then obtain s where "snd (snd w') = snd (on_mem (mem_update whole_seconds d) s)"
      "fst (on_mem (mem_update whole_seconds d) s) = None"
    by (rule live_call) (auto simp: base_env_calls)
  with written_rec [of d "lc_mem s" "lc_mem (snd (snd w'))" t] 10(3) show ?case
    by (auto simp: on_mem_def split: prod.splits)
qed (unfold_locales, simp_all add: live_env_def faulty_def interleave_def base_env_def evidence_of_def)

context live_record
begin

definition live_inv :: "live_ctl \<Rightarrow> bool" where
  "live_inv s \<longleftrightarrow> ctl_fair owner current s \<and> (\<forall>k. k \<notin> set (lc_queue s) \<longrightarrow> on_record (ctl_evidence s) (ctl_rec s) k)"

lemma watched_inv:
  assumes "watched (ctl_fair owner current) ctl_evidence ctl_pending s s'" and "live_inv s"
    and "\<And>n t. ctl_rec s n t \<Longrightarrow> ctl_rec s' n t"
  shows "live_inv s'"
  using assms on_record_cong [of _ "ctl_evidence s" "ctl_evidence s'" "ctl_rec s" "ctl_rec s'"]
  by (auto simp: watched_def live_inv_def)

lemma serve_inv:
  assumes inv: "live_inv s" and "script_ok owner script"
  shows "live_inv (serve r k faults script s)"
proof -
  let ?w = "(faults, script, s\<lparr>lc_queue := removeAll k (lc_queue s)\<rparr>)"
  obtain res faults' script' s' where run: "Reconcile live_env r k ?w = (res, faults', script', s')"
    by (metis prod.collapse)
  have fair: "live_fair owner current ?w" using inv assms(2) by (simp add: live_fair_def live_inv_def ctl_fair_def)
  have step: "ctl_fair owner current s'" "set (lc_queue s) - {k} \<subseteq> set (lc_queue s')"
    "\<And>k'. k' \<notin> set (lc_queue s') \<Longrightarrow> same_evidence k' (ctl_evidence s) (ctl_evidence s')"
    using Reconcile_watched [of ?w r k] fair run by (auto simp: watched_def live_fair_def)
  have own: "on_record (ctl_evidence s') (ctl_rec s') k" if "res = None" "k \<notin> set (lc_queue s')"
    using Reconcile_recorded [OF fair, of r k] run that by simp
  have others: "on_record (ctl_evidence s') (ctl_rec s') k'" if k': "k' \<noteq> k" "k' \<notin> set (lc_queue s')" for k'
  proof -
    have "owned owner (ctl_evidence s)" and old: "on_record (ctl_evidence s) (ctl_rec s) k'"
      using inv step(2) k' by (auto simp: live_inv_def ctl_fair_def)
    then have "owner (pi_UID i) \<noteq> k" if "derived (ctl_evidence s) k' = Some (i, t)" for i t
      using derived_owner [OF _ that] k'(1) by blast
    then have "ctl_rec s' (decisionName (pi_UID i)) t"
      if "derived (ctl_evidence s) k' = Some (i, t)" "ctl_rec s (decisionName (pi_UID i)) t" for i t
      using Reconcile_keeps [OF fair, of "pi_UID i" t k r] run that by simp
    with old show ?thesis by (intro on_record_cong [OF step(3) [OF k'(2)]]) auto
  qed
  show ?thesis
  proof (cases res)
    case None
    with own others have "on_record (ctl_evidence s') (ctl_rec s') k'" if "k' \<notin> set (lc_queue s')" for k'
      using that by (cases "k' = k") auto
    with None step(1) run show ?thesis by (simp add: live_inv_def serve_def)
  next
    case (Some e)
    with step(1) others run show ?thesis by (auto simp: live_inv_def ctl_fair_def serve_def)
  qed
qed

lemma live_step_inv:
  assumes "live_step owner current r s s'" and "live_inv s"
  shows "live_inv s'"
  using assms
proof cases
  case (happens h)
  with watched_inv [OF happen_watched assms(2)] happen_rec show ?thesis by blast
next
  case (lags ls)
  have "live_inv (s\<lparr>lc_lag := ls\<rparr>)" using assms(2) lags(2) unfolding live_inv_def ctl_fair_def by simp
  with lags(1) show ?thesis by (simp only:)
next
  case (serves k script faults)
  with serve_inv [OF assms(2)] show ?thesis by simp
qed

lemma live_run_inv:
  assumes "(live_step owner current r)\<^sup>*\<^sup>* s s'" and "live_inv s"
  shows "live_inv s'"
  using assms by induction (auto dest: live_step_inv)

lemma live_start_inv:
  assumes "owned owner (evidence_of m)"
  shows "live_inv (live_start m)"
  using assms start_queue_derived [OF assms] by (simp add: live_inv_def live_start_def on_record_def ctl_fair_def)

lemma reachable_recorded:
  assumes "owned owner (evidence_of m0)" and "(live_step owner current r)\<^sup>*\<^sup>* (live_start m0) s"
    and "k \<notin> set (lc_queue s)" and "derived (ctl_evidence s) k = Some (i, t)"
    and "timestamp_settled (pod_or_zero (ctl_evidence s) k) (pod_events (ctl_evidence s) k)"
    and "whole_seconds (tr_DecisionTimestamp t) = tr_DecisionTimestamp t"
  shows "ctl_rec s (decisionName (pi_UID i)) t"
  using live_run_inv [OF assms(2) live_start_inv [OF assms(1)]] assms(3-6)
  by (auto simp: live_inv_def on_record_def)

end

text \<open>With current reads: the live decision ends with the transition, or it has been deleted since.\<close>

definition on_live :: "mem \<Rightarrow> string \<Rightarrow> SchedulingTransition \<Rightarrow> bool" where
  "on_live m n t \<longleftrightarrow> ends_with t (mem_live m n) \<or> (mem_live m n = None \<and> Del n \<in> set (m_log m))"

interpretation newest: live_record owner True on_live for owner
proof (unfold_locales, goal_cases)
  case (1 m' m n t)
  then show ?case by (simp add: on_live_def)
next
  case (2 m n t n')
  then show ?case by (auto simp: on_live_def delete_by_name_def ends_with_def split: option.splits)
next
  case (3 n d m t)
  then show ?case by (auto simp: on_live_def mem_create_frame) (auto simp: mem_create_def split: option.split)
next
  case (4 n d m t)
  then show ?case by (auto simp: on_live_def mem_update_frame) (auto simp: mem_update_def split: option.split)
next
  case (5 s n d s' t)
  then show ?case by (auto simp: on_live_def ctl_fair_def dest: cached_get_decision(3))
next
  case (6 d m m' t)
  then show ?case
    by (auto simp: on_live_def ends_with_def with_version_def dest!: mem_update_stored)
qed

text \<open>With outdated reads: some version that the server has accepted ends with the transition.\<close>

definition on_accepted :: "mem \<Rightarrow> string \<Rightarrow> SchedulingTransition \<Rightarrow> bool" where
  "on_accepted m n t \<longleftrightarrow> (\<exists>d. Put d \<in> set (m_log m) \<and> decision_name_of d = n \<and> ends_with t (Some d))"

interpretation accepted: live_record owner False on_accepted for owner
proof (unfold_locales, goal_cases)
  case (1 m' m n t)
  then show ?case by (simp add: on_accepted_def)
next
  case (2 m n t n')
  then show ?case by (auto simp: on_accepted_def delete_by_name_def)
next
  case (3 n d m t)
  then show ?case by (auto simp: on_accepted_def mem_create_def split: option.split)
next
  case (4 n d m t)
  then show ?case by (auto simp: on_accepted_def mem_update_def split: option.split)
next
  case (5 s n d s' t)
  then show ?case by (auto simp: on_accepted_def dest: cached_get_decision(1,2))
next
  case (6 d m m' t)
  then obtain cur v where "mem_live m' (decision_name_of d) =
      Some (with_version v (cur\<lparr>sd_Status := persist_status whole_seconds (sd_Status d)\<rparr>))" (is "_ = Some ?new")
    using mem_update_stored by blast
  then have "Put ?new \<in> set (m_log m')" "decision_name_of ?new = decision_name_of d"
    using log_live_put log_live_past by blast+
  moreover have "ends_with t (Some ?new)" using 6(2) by (simp add: ends_with_def with_version_def)
  ultimately show ?case unfolding on_accepted_def by blast
qed

section \<open>Properties\<close>

text \<open>
  The sample Pod is seen scheduled; while its first reconcile records that, a Preempted Event
  arrives and puts the Pod back into the queue; the second reconcile records the preemption. Then
  the Event goes, and the third reconcile reads its decision from an outdated cache.
\<close>

definition sample_preemption :: Event where
  "sample_preemption = sample_event ''Preempted'' 63900000005 ''m''"

definition live_first :: live_ctl where
  "live_first = serve sample_reconciler sample_req [NoFault] [[], [], [EventAdd sample_preemption]] (live_start (sample_world []))"

definition live_second :: live_ctl where
  "live_second = serve sample_reconciler sample_req [] [] live_first"

definition live_lagging :: live_ctl where
  "live_lagging = (happen (EventGone 0) live_second)\<lparr>lc_lag := [UpToDate, AtVersion ''vv'']\<rparr>"

definition live_third :: live_ctl where
  "live_third = serve sample_reconciler sample_req [] [] live_lagging"

lemma live_first_run: "(live_step sample_owner current sample_reconciler)\<^sup>*\<^sup>* (live_start (sample_world [])) live_first"
proof -
  have "sample_req \<in> set (lc_queue (live_start (sample_world [])))" "script_ok sample_owner [[], [], [EventAdd sample_preemption]]"
    by code_simp+
  then show ?thesis unfolding live_first_def by (intro r_into_rtranclp live_step.serves)
qed

lemma live_second_run: "(live_step sample_owner current sample_reconciler)\<^sup>*\<^sup>* (live_start (sample_world [])) live_second"
proof -
  have "sample_req \<in> set (lc_queue live_first)" by code_simp
  then have "live_step sample_owner current sample_reconciler live_first live_second"
    unfolding live_second_def by (rule live_step.serves) simp
  with live_first_run show ?thesis by (rule rtranclp.rtrancl_into_rtrancl)
qed

lemma live_third_run: "(live_step sample_owner False sample_reconciler)\<^sup>*\<^sup>* (live_start (sample_world [])) live_third"
proof -
  have "live_step sample_owner False sample_reconciler live_second (happen (EventGone 0) live_second)"
    by (rule live_step.happens) simp
  moreover have "live_step sample_owner False sample_reconciler (happen (EventGone 0) live_second) live_lagging"
    unfolding live_lagging_def by (rule live_step.lags) simp
  moreover have "sample_req \<in> set (lc_queue live_lagging)" by code_simp
  then have "live_step sample_owner False sample_reconciler live_lagging live_third"
    unfolding live_third_def by (rule live_step.serves) simp
  ultimately show ?thesis using live_second_run by (meson rtranclp.rtrancl_into_rtrancl)
qed

definition shows_outcome :: "SchedulingOutcome \<Rightarrow> live_ctl \<Rightarrow> bool" where
  "shows_outcome oc s \<longleftrightarrow> sample_req \<notin> set (lc_queue s) \<and>
     (case derived (ctl_evidence s) sample_req of None \<Rightarrow> False | Some (i, t) \<Rightarrow>
        pi_UID i = ''u1'' \<and> tr_Outcome t = oc \<and>
        timestamp_settled (pod_or_zero (ctl_evidence s) sample_req) (pod_events (ctl_evidence s) sample_req) \<and>
        whole_seconds (tr_DecisionTimestamp t) = tr_DecisionTimestamp t)"

text \<open>
  C6: no change is missed while the cluster goes on. However Pods and Events come, change and go
  between any two API calls of the reconciles, whichever calls the server refuses or answers into
  the void, and whichever decisions are deleted meanwhile: when a Pod has no request in the queue,
  the transition that its present evidence shows is the last one on its decision, unless the
  decision has been deleted. A reconcile thus may act on Events of one moment and a Pod of another:
  what has changed in between has put the request back into the queue. (Reads of decisions are
  current, each UID belongs to one namespaced name, and the evidence has a time of its own that the
  wire format keeps.)
\<close>

theorem no_lost_wakeup_live:
  assumes "owned owner (evidence_of m0)" and "(live_step owner True r)\<^sup>*\<^sup>* (live_start m0) s"
    and "k \<notin> set (lc_queue s)" and "derived (evidence_of (lc_mem s)) k = Some (i, t)"
    and "timestamp_settled (pod_or_zero (evidence_of (lc_mem s)) k) (pod_events (evidence_of (lc_mem s)) k)"
    and "whole_seconds (tr_DecisionTimestamp t) = tr_DecisionTimestamp t"
  shows "case mem_live (lc_mem s) (decisionName (pi_UID i)) of
      Some d \<Rightarrow> history_of d \<noteq> [] \<and> transitionsEqual (last (history_of d)) t
    | None \<Rightarrow> Del (decisionName (pi_UID i)) \<in> set (m_log (lc_mem s))"
  using newest.reachable_recorded [OF assms]
  by (auto simp: on_live_def ends_with_def split: option.splits)

theorem no_lost_wakeup_live_witness:
  "\<exists>d. mem_live (lc_mem live_second) ''sdec-u1'' = Some d \<and>
     tr_Outcome (last (history_of d)) = SchedulingOutcomePreempted"
proof -
  have "shows_outcome SchedulingOutcomePreempted live_second"
    "case mem_live (lc_mem live_second) ''sdec-u1'' of None \<Rightarrow> False | Some d \<Rightarrow> True"
    by code_simp+
  with no_lost_wakeup_live [OF sample_owned live_second_run, of sample_req] show ?thesis
    by (auto simp: shows_outcome_def decisionName_def transitionsEqual_def split: option.splits)
qed

text \<open>
  C23: the queue drains. After any such run, once the server answers and the cluster stands still,
  serving requests in any order, all queued ones among them, gives no error. It leaves every Pod with
  its present transition as the last one on its decision, except a Pod that had nothing queued and
  whose decision had been deleted.
\<close>

theorem live_queue_drains:
  assumes "owned owner (evidence_of m0)" and "(live_step owner True r)\<^sup>*\<^sup>* (live_start m0) s"
    and "set (lc_queue s) \<subseteq> set ks"
  shows "\<exists>m'. drain r ks (lc_mem s) = (replicate (length ks) None, m') \<and>
    evidence_of m' = evidence_of (lc_mem s) \<and>
    (\<forall>k i t. derived (evidence_of m') k = Some (i, t) \<longrightarrow>
       timestamp_settled (pod_or_zero (evidence_of m') k) (pod_events (evidence_of m') k) \<longrightarrow>
       whole_seconds (tr_DecisionTimestamp t) = tr_DecisionTimestamp t \<longrightarrow>
       (\<exists>d. mem_live m' (decisionName (pi_UID i)) = Some d \<and> history_of d \<noteq> [] \<and>
          transitionsEqual (last (history_of d)) t) \<or>
       k \<notin> set ks \<and> Del (decisionName (pi_UID i)) \<in> set (m_log (lc_mem s)))"
proof -
  have inv: "newest.live_inv owner s" by (rule newest.live_run_inv [OF assms(2) newest.live_start_inv [OF assms(1)]])
  then have "owned owner (ctl_evidence s)" by (simp add: newest.live_inv_def ctl_fair_def)
  from drain_up_to_date [OF this, of r ks] obtain m' where m': "drain r ks (lc_mem s) = (replicate (length ks) None, m')"
    "evidence_of m' = ctl_evidence s" and served: "\<And>k. k \<in> set ks \<or> up_to_date (ctl_evidence s) (mem_live (lc_mem s)) k \<Longrightarrow>
      up_to_date (ctl_evidence s) (mem_live m') k" by blast
  have "ends_with t (mem_live m' (decisionName (pi_UID i))) \<or> k \<notin> set ks \<and> Del (decisionName (pi_UID i)) \<in> set (m_log (lc_mem s))"
    if d: "derived (ctl_evidence s) k = Some (i, t)"
      "timestamp_settled (pod_or_zero (ctl_evidence s) k) (pod_events (ctl_evidence s) k)"
      "whole_seconds (tr_DecisionTimestamp t) = tr_DecisionTimestamp t" for k i t
  proof (cases "k \<in> set ks \<or> up_to_date (ctl_evidence s) (mem_live (lc_mem s)) k")
    case True
    with served d show ?thesis by (fastforce simp: up_to_date_defs)
  next
    case False
    with assms(3) newest.reachable_recorded [OF assms(1,2) _ d] have "on_live (lc_mem s) (decisionName (pi_UID i)) t" by blast
    with False d show ?thesis by (auto simp: on_live_def up_to_date_defs)
  qed
  with m' show ?thesis by (intro exI [of _ m']) (fastforce simp: ends_with_def split: option.splits)
qed

theorem live_queue_drains_witness:
  "\<exists>m' d. drain sample_reconciler [sample_req] (lc_mem live_first) = ([None], m') \<and>
     mem_live m' ''sdec-u1'' = Some d \<and> tr_Outcome (last (history_of d)) = SchedulingOutcomePreempted"
proof -
  let ?v = "ctl_evidence live_first"
  have "case derived ?v sample_req of None \<Rightarrow> False | Some (i, t) \<Rightarrow>
      pi_UID i = ''u1'' \<and> tr_Outcome t = SchedulingOutcomePreempted \<and>
      timestamp_settled (pod_or_zero ?v sample_req) (pod_events ?v sample_req) \<and>
      whole_seconds (tr_DecisionTimestamp t) = tr_DecisionTimestamp t" by code_simp
  then obtain i t where it: "derived ?v sample_req = Some (i, t)" "pi_UID i = ''u1''"
      "tr_Outcome t = SchedulingOutcomePreempted"
      "timestamp_settled (pod_or_zero ?v sample_req) (pod_events ?v sample_req)"
      "whole_seconds (tr_DecisionTimestamp t) = tr_DecisionTimestamp t" by (auto split: option.splits)
  have "set (lc_queue live_first) \<subseteq> set [sample_req]" by code_simp
  from live_queue_drains [OF sample_owned live_first_run this]
  obtain m' where run: "drain sample_reconciler [sample_req] (lc_mem live_first) = ([None], m')" "evidence_of m' = ?v"
    and stored: "\<forall>k i t. derived (evidence_of m') k = Some (i, t) \<longrightarrow>
       timestamp_settled (pod_or_zero (evidence_of m') k) (pod_events (evidence_of m') k) \<longrightarrow>
       whole_seconds (tr_DecisionTimestamp t) = tr_DecisionTimestamp t \<longrightarrow>
       (\<exists>d. mem_live m' (decisionName (pi_UID i)) = Some d \<and> history_of d \<noteq> [] \<and>
          transitionsEqual (last (history_of d)) t) \<or>
       k \<notin> set [sample_req] \<and> Del (decisionName (pi_UID i)) \<in> set (m_log (lc_mem live_first))"
    by (auto simp del: drain.simps)
  from stored [rule_format, of sample_req i t] run(2) it
  have "\<exists>d. mem_live m' (decisionName (pi_UID i)) = Some d \<and> history_of d \<noteq> [] \<and> transitionsEqual (last (history_of d)) t"
    by simp
  with run(1) it(2,3) show ?thesis by (auto simp: decisionName_def transitionsEqual_def simp del: drain.simps)
qed

text \<open>
  C7: with an outdated cache in addition. When the reads of decisions may return any accepted version
  or miss the object, a Pod that has no request in the queue still has the transition of its present
  evidence on record: the server has accepted a version of its decision that ends with it.
\<close>

theorem recorded_despite_stale_cache:
  assumes "owned owner (evidence_of m0)" and "(live_step owner False r)\<^sup>*\<^sup>* (live_start m0) s"
    and "k \<notin> set (lc_queue s)" and "derived (evidence_of (lc_mem s)) k = Some (i, t)"
    and "timestamp_settled (pod_or_zero (evidence_of (lc_mem s)) k) (pod_events (evidence_of (lc_mem s)) k)"
    and "whole_seconds (tr_DecisionTimestamp t) = tr_DecisionTimestamp t"
  shows "\<exists>d. Put d \<in> set (m_log (lc_mem s)) \<and> decision_name_of d = decisionName (pi_UID i) \<and>
    history_of d \<noteq> [] \<and> transitionsEqual (last (history_of d)) t"
  using accepted.reachable_recorded [OF assms]
  by (auto simp: on_accepted_def ends_with_def)

theorem recorded_despite_stale_cache_witness:
  "\<exists>d. Put d \<in> set (m_log (lc_mem live_third)) \<and> decision_name_of d = ''sdec-u1'' \<and>
     tr_Outcome (last (history_of d)) = SchedulingOutcomeScheduled"
proof -
  have "shows_outcome SchedulingOutcomeScheduled live_third" by code_simp
  with recorded_despite_stale_cache [OF sample_owned live_third_run, of sample_req] show ?thesis
    by (fastforce simp: shows_outcome_def decisionName_def transitionsEqual_def split: option.splits)
qed

text \<open>
  But not as the last one: the deduplication of \<open>appendTransitionWithRetry\<close> compares with the version
  it reads. The third reconcile finds the Pod scheduled again, reads the version before the
  preemption, takes the transition for recorded and returns no error; the live decision goes on to
  say Preempted, and nothing is left in the queue that would correct it.
\<close>

lemma stale_read_hides_change:
  "(live_step sample_owner False sample_reconciler)\<^sup>*\<^sup>* (live_start (sample_world [])) live_third \<and>
   shows_outcome SchedulingOutcomeScheduled live_third \<and>
   (case mem_live (lc_mem live_third) ''sdec-u1'' of None \<Rightarrow> False
    | Some d \<Rightarrow> tr_Outcome (last (history_of d)) = SchedulingOutcomePreempted)"
proof -
  have "shows_outcome SchedulingOutcomeScheduled live_third" by code_simp
  moreover have "case mem_live (lc_mem live_third) ''sdec-u1'' of None \<Rightarrow> False
    | Some d \<Rightarrow> tr_Outcome (last (history_of d)) = SchedulingOutcomePreempted" by code_simp
  ultimately show ?thesis using live_third_run by blast
qed

end
