(* ===== verification/Dashboard.thy ===== *)
theory Dashboard
  imports Extender
begin

text \<open>
  \<open>cmd/dashboard/main.go\<close>: the read-only view. \<open>decisionsHandler\<close> answers with the list of
  decisions, \<open>dashboardMux\<close> is the routing table that \<open>main\<close> registers; \<open>errstr\<close> is the
  \<open>Error\<close> method of API errors and \<open>indexHTML\<close> the embedded page.
\<close>

definition decisionsHandler ::
    "'w env \<Rightarrow> (api_error \<Rightarrow> string) \<Rightarrow> 'w \<Rightarrow> SchedulingDecision list http_response \<times> 'w" where
  "decisionsHandler E errstr w =
     (case ListDecisions E w of
        (Inl err, w') \<Rightarrow> (http_Error (errstr err) 500, w')
      | (Inr list, w') \<Rightarrow>
          (\<lparr>rs_Code = 200, rs_ContentType = ''application/json'', rs_Body = JsonBody (dl_Items list)\<rparr>, w'))"

text \<open>
  What the dashboard's client promises: \<open>main\<close> gives the handler the client of a manager, so a list
  is what the informer cache holds at that moment. The cache has one object per name, and each is a
  version the server has accepted; it may be behind.
\<close>

locale cached_client =
  fixes E :: "'w env" and cache :: "'w \<Rightarrow> string \<rightharpoonup> SchedulingDecision" and accepted :: "'w \<Rightarrow> SchedulingDecision set"
  assumes list_cached: "ListDecisions E w = (Inr l, w') \<Longrightarrow>
      distinct (map decision_name_of (dl_Items l)) \<and>
      (\<forall>d. d \<in> set (dl_Items l) \<longleftrightarrow> cache w' (decision_name_of d) = Some d)"
    and cache_accepted: "cache w n = Some d \<Longrightarrow> d \<in> accepted w \<and> decision_name_of d = n"

text \<open>
  \<open>http.ServeMux\<close> with the patterns \<open>/api/decisions\<close>, \<open>/healthz\<close> and \<open>/\<close>: the first two
  match their own path only, the last one every other path. (Paths are in the cleaned form; the
  library redirects any other spelling before it looks at the table.)
\<close>

definition dashboardMux ::
    "'w env \<Rightarrow> (api_error \<Rightarrow> string) \<Rightarrow> string \<Rightarrow> string \<Rightarrow> 'w \<Rightarrow>
     SchedulingDecision list http_response \<times> 'w" where
  "dashboardMux E errstr indexHTML path w =
     (if path = ''/api/decisions'' then decisionsHandler E errstr w
      else if path = ''/healthz'' then (\<lparr>rs_Code = 200, rs_ContentType = '''', rs_Body = EmptyBody\<rparr>, w)
      else if path \<noteq> ''/'' then (http_Error ''404 page not found'' 404, w)
      else (\<lparr>rs_Code = 200, rs_ContentType = ''text/html; charset=utf-8'', rs_Body = TextBody indexHTML\<rparr>, w))"

text \<open>
  What the dashboard serves. Only \<open>/api/decisions\<close> calls the API, and only by listing; the
  answer is 200 with exactly the listed decisions, or 500 when the list fails. Every path the
  routing table does not name is answered with 404, every other one with 200.
\<close>

theorem dashboardMux_spec:
  "(path = ''/api/decisions'' \<longrightarrow>
      dashboardMux E errstr html path w =
        (case fst (ListDecisions E w) of
           Inr l \<Rightarrow> \<lparr>rs_Code = 200, rs_ContentType = ''application/json'', rs_Body = JsonBody (dl_Items l)\<rparr>
         | Inl err \<Rightarrow> http_Error (errstr err) 500,
         snd (ListDecisions E w))) \<and>
   (path \<noteq> ''/api/decisions'' \<longrightarrow> snd (dashboardMux E errstr html path w) = w) \<and>
   (rs_Code (fst (dashboardMux E errstr html path w)) = 404 \<longleftrightarrow>
      path \<notin> {''/api/decisions'', ''/healthz'', ''/''})"
  by (auto simp: dashboardMux_def decisionsHandler_def http_Error_def split: prod.split sum.split)

theorem dashboardMux_spec_witness:
  "dashboardMux down_env (\<lambda>_. ''down'') ''html'' ''/api/decisions'' () = (http_Error ''down'' 500, ()) \<and>
   rs_Code (fst (dashboardMux down_env (\<lambda>_. ''down'') ''html'' ''/metrics'' ())) = 404"
  using dashboardMux_spec [of "''/api/decisions''" down_env "\<lambda>_. ''down''" "''html''" "()"]
    dashboardMux_spec [of "''/metrics''" down_env "\<lambda>_. ''down''" "''html''" "()"]
  by (simp add: down_env_def)

end
