(* ===== verification/Manager.thy ===== *)
theory Manager
  imports Reconciler
begin

text \<open>
  \<open>cmd/manager/main.go\<close> and the registration in \<open>SetupWithManager\<close>: from the parsed flags to the
  options of the controller manager. The calls into controller-runtime are the fields of
  \<open>manager_calls\<close>, functions on arbitrary configurations, schemes and worlds; a TLS option is a
  function on the TLS configuration, as in the source. The sequence of set-up calls is in \<open>Startup\<close>.
\<close>

section \<open>Flags and options\<close>

record manager_flags =
  fl_metricsAddr :: string
  fl_probeAddr :: string
  fl_enableLeaderElection :: bool
  fl_secureMetrics :: bool
  fl_webhookCertPath :: string
  fl_webhookCertName :: string
  fl_webhookCertKey :: string
  fl_metricsCertPath :: string
  fl_metricsCertName :: string
  fl_metricsCertKey :: string
  fl_enableHTTP2 :: bool
  fl_retentionWindow :: int

definition default_flags :: manager_flags where
  "default_flags =
     \<lparr>fl_metricsAddr = ''0'', fl_probeAddr = '':8081'', fl_enableLeaderElection = False,
      fl_secureMetrics = True, fl_webhookCertPath = '''', fl_webhookCertName = ''tls.crt'',
      fl_webhookCertKey = ''tls.key'', fl_metricsCertPath = '''', fl_metricsCertName = ''tls.crt'',
      fl_metricsCertKey = ''tls.key'', fl_enableHTTP2 = False,
      fl_retentionWindow = DefaultRetentionWindow\<rparr>"

record tls_config =
  NextProtos :: "string list"

type_synonym tls_opt = "tls_config \<Rightarrow> tls_config"

definition disableHTTP2 :: tls_opt where
  "disableHTTP2 c = c\<lparr>NextProtos := [''http/1.1'']\<rparr>"

definition manager_tlsOpts :: "manager_flags \<Rightarrow> tls_opt list" where
  "manager_tlsOpts f = (if \<not> fl_enableHTTP2 f then [] @ [disableHTTP2] else [])"

record webhook_options =
  wo_TLSOpts :: "tls_opt list"
  wo_CertDir :: string
  wo_CertName :: string
  wo_KeyName :: string

definition webhookServerOptions :: "manager_flags \<Rightarrow> webhook_options" where
  "webhookServerOptions f =
     (let o1 = \<lparr>wo_TLSOpts = manager_tlsOpts f, wo_CertDir = '''', wo_CertName = '''', wo_KeyName = ''''\<rparr>
      in if length (fl_webhookCertPath f) > 0
         then o1\<lparr>wo_CertDir := fl_webhookCertPath f, wo_CertName := fl_webhookCertName f,
                 wo_KeyName := fl_webhookCertKey f\<rparr>
         else o1)"

datatype filter_provider = WithAuthenticationAndAuthorization

record metrics_options =
  mo_BindAddress :: string
  mo_SecureServing :: bool
  mo_TLSOpts :: "tls_opt list"
  mo_FilterProvider :: "filter_provider option"
  mo_CertDir :: string
  mo_CertName :: string
  mo_KeyName :: string

definition metricsServerOptions :: "manager_flags \<Rightarrow> metrics_options" where
  "metricsServerOptions f =
     (let o1 = \<lparr>mo_BindAddress = fl_metricsAddr f, mo_SecureServing = fl_secureMetrics f,
                mo_TLSOpts = manager_tlsOpts f, mo_FilterProvider = None,
                mo_CertDir = '''', mo_CertName = '''', mo_KeyName = ''''\<rparr>;
          o2 = (if fl_secureMetrics f
                then o1\<lparr>mo_FilterProvider := Some WithAuthenticationAndAuthorization\<rparr> else o1)
      in if length (fl_metricsCertPath f) > 0
         then o2\<lparr>mo_CertDir := fl_metricsCertPath f, mo_CertName := fl_metricsCertName f,
                 mo_KeyName := fl_metricsCertKey f\<rparr>
         else o2)"

record 's manager_options =
  mgr_Scheme :: 's
  mgr_Metrics :: metrics_options
  mgr_WebhookServer :: webhook_options
  mgr_HealthProbeBindAddress :: string
  mgr_LeaderElection :: bool
  mgr_LeaderElectionID :: string

definition managerOptions :: "'s \<Rightarrow> manager_flags \<Rightarrow> 's manager_options" where
  "managerOptions scheme f =
     \<lparr>mgr_Scheme = scheme, mgr_Metrics = metricsServerOptions f, mgr_WebhookServer = webhookServerOptions f,
      mgr_HealthProbeBindAddress = fl_probeAddr f, mgr_LeaderElection = fl_enableLeaderElection f,
      mgr_LeaderElectionID = ''e8cc7387.purestorage.io''\<rparr>"

section \<open>Set-up\<close>

record ('s, 'cfg, 'w) manager_calls =
  NewManager :: "'cfg \<Rightarrow> 's manager_options \<Rightarrow> 'w \<Rightarrow> go_error option \<times> 'w"
  IndexField :: "string \<Rightarrow> (Event \<Rightarrow> string list) \<Rightarrow> 'w \<Rightarrow> go_error option \<times> 'w"
  Complete :: "string \<Rightarrow> (Event \<Rightarrow> NamespacedName list) \<Rightarrow> (Event \<Rightarrow> bool) \<Rightarrow>
    SchedulingDecisionReconciler \<Rightarrow> 'w \<Rightarrow> go_error option \<times> 'w"
  AddHealthzCheck :: "string \<Rightarrow> 'w \<Rightarrow> go_error option \<times> 'w"
  AddReadyzCheck :: "string \<Rightarrow> 'w \<Rightarrow> go_error option \<times> 'w"
  Start :: "'w \<Rightarrow> go_error option \<times> 'w"

definition eventInvolvedObjectIndex :: string where
  "eventInvolvedObjectIndex = ''involvedObject.nsName''"

text \<open>
  The builder chain: the controller for Pods with the Event watch, completed under its name.
\<close>

definition SetupWithManager ::
    "('s, 'cfg, 'w) manager_calls \<Rightarrow> SchedulingDecisionReconciler \<Rightarrow> 'w \<Rightarrow> go_error option \<times> 'w" where
  "SetupWithManager K r w =
     (case IndexField K eventInvolvedObjectIndex eventInvolvedObjectIndexer w of
        (Some err, w1) \<Rightarrow> (Some (Wrapf ''indexing event involvedObject'' err), w1)
      | (None, w1) \<Rightarrow> Complete K ''schedulingdecision'' mapEventToPodRequest relevantEventPredicate r w1)"

section \<open>Properties\<close>

text \<open>
  What the flags guarantee of the servers. Unless HTTP/2 is enabled, both servers end up
  offering HTTP/1.1 only, whatever their TLS configuration was; with it enabled neither
  configuration is touched. Metrics are served securely exactly when they are protected
  by authentication, and a server gets certificate files exactly when a path is given for it.
\<close>

theorem manager_servers_hardened:
  "NextProtos (foldl (\<lambda>c opt. opt c) cfg (mo_TLSOpts (metricsServerOptions f))) =
      (if fl_enableHTTP2 f then NextProtos cfg else [''http/1.1'']) \<and>
   wo_TLSOpts (webhookServerOptions f) = mo_TLSOpts (metricsServerOptions f) \<and>
   (mo_SecureServing (metricsServerOptions f) \<longleftrightarrow>
      mo_FilterProvider (metricsServerOptions f) = Some WithAuthenticationAndAuthorization) \<and>
   mo_CertDir (metricsServerOptions f) = fl_metricsCertPath f \<and>
   wo_CertDir (webhookServerOptions f) = fl_webhookCertPath f \<and>
   (mo_KeyName (metricsServerOptions f) = (if fl_metricsCertPath f = '''' then '''' else fl_metricsCertKey f)) \<and>
   (wo_KeyName (webhookServerOptions f) = (if fl_webhookCertPath f = '''' then '''' else fl_webhookCertKey f))"
  by (simp add: metricsServerOptions_def webhookServerOptions_def manager_tlsOpts_def disableHTTP2_def Let_def)

end
