(* ===== verification/Startup.thy ===== *)
theory Startup
  imports Dashboard Sweep Manager
begin

text \<open>
  How the binaries start and end: the registration of the API group (\<open>groupversion_info.go\<close> and
  the \<open>init\<close> function of the types) and the \<open>main\<close> functions of \<open>cmd/sweep\<close>, \<open>cmd/extender\<close>,
  \<open>cmd/dashboard\<close> and \<open>cmd/manager\<close>, the last with the scheme of its \<open>init\<close>. The calls into
  apimachinery, client-go and controller-runtime are the fields of \<open>setup_calls\<close>; schemes,
  configurations and worlds are arbitrary. Command line flags are arguments.
\<close>

section \<open>The API group\<close>

type_synonym GroupVersion = "string \<times> string"

record ('s, 'cfg, 'w) setup_calls =
  su_NewScheme :: 's
  su_ClientGo :: "'s \<Rightarrow> string option \<times> 's"
  su_AddToGroupVersion :: "GroupVersion \<Rightarrow> 's \<Rightarrow> 's"
  su_AddKnownTypes :: "GroupVersion \<Rightarrow> string list \<Rightarrow> 's \<Rightarrow> 's"
  su_GetConfig :: "'w \<Rightarrow> 'cfg option \<times> 'w"
  su_NewClient :: "'cfg \<Rightarrow> 's \<Rightarrow> 'w \<Rightarrow> (string, 'w env) result \<times> 'w"
  su_NewManager :: "'cfg \<Rightarrow> 's \<Rightarrow> string \<Rightarrow> 'w \<Rightarrow> (string, 'w env) result \<times> 'w"

text \<open>A scheme builder is a list of registration functions, run in order until one fails.\<close>

type_synonym 's scheme_builder = "('s \<Rightarrow> string option \<times> 's) list"

fun run_builder :: "'s scheme_builder \<Rightarrow> 's \<Rightarrow> string option \<times> 's" where
  "run_builder [] s = (None, s)"
| "run_builder (f # fs) s = (case f s of (Some err, s') \<Rightarrow> (Some err, s') | (None, s') \<Rightarrow> run_builder fs s')"

definition SchemeGroupVersion :: GroupVersion where
  "SchemeGroupVersion = (''scheduling.purestorage.io'', ''v1alpha1'')"

definition SchemeBuilder :: "('s, 'cfg, 'w) setup_calls \<Rightarrow> 's scheme_builder" where
  "SchemeBuilder K = [\<lambda>s. (None, su_AddToGroupVersion K SchemeGroupVersion s)]"

text \<open>
  \<open>init\<close> registers one more function with the package's builder. \<open>AddToScheme\<close> is a method value of
  the builder's address, so it runs what is registered when it is called, after all \<open>init\<close>
  functions.
\<close>

definition types_init :: "('s, 'cfg, 'w) setup_calls \<Rightarrow> 's scheme_builder \<Rightarrow> 's scheme_builder" where
  "types_init K builder =
     builder @ [\<lambda>s. (None, su_AddKnownTypes K SchemeGroupVersion
                       [''SchedulingDecision'', ''SchedulingDecisionList''] s)]"

definition AddToScheme :: "('s, 'cfg, 'w) setup_calls \<Rightarrow> 's \<Rightarrow> string option \<times> 's" where
  "AddToScheme K = run_builder (types_init K (SchemeBuilder K))"

section \<open>Processes\<close>

text \<open>How a process ends: \<open>main\<close> returns, \<open>log.Fatal\<close>, \<open>os.Exit(1)\<close>, a panic.\<close>

datatype process_end = Returned | Fatal string | FatalErr go_error | Exit1 | Panicked string

fun exit_code :: "process_end \<Rightarrow> nat" where
  "exit_code Returned = 0"
| "exit_code (Fatal msg) = 1"
| "exit_code (FatalErr err) = 1"
| "exit_code Exit1 = 1"
| "exit_code (Panicked msg) = 2"

text \<open>A new scheme with the built-in types and this API group, each under \<open>utilruntime.Must\<close>.\<close>

definition build_scheme :: "('s, 'cfg, 'w) setup_calls \<Rightarrow> (process_end, 's) result" where
  "build_scheme K =
     (case su_ClientGo K (su_NewScheme K) of
        (Some err, s) \<Rightarrow> Inl (Panicked err)
      | (None, s) \<Rightarrow>
          (case AddToScheme K s of (Some err, s') \<Rightarrow> Inl (Panicked err) | (None, s') \<Rightarrow> Inr s'))"

definition sweep_main :: "('s, 'cfg, 'w) setup_calls \<Rightarrow> 'w \<Rightarrow> process_end \<times> 'w" where
  "sweep_main K w =
     (case build_scheme K of
        Inl e \<Rightarrow> (e, w)
      | Inr scheme \<Rightarrow>
          (case su_GetConfig K w of
             (None, w1) \<Rightarrow> (Exit1, w1)
           | (Some cfg, w1) \<Rightarrow>
               (case su_NewClient K cfg scheme w1 of
                  (Inl err, w2) \<Rightarrow> (Fatal (''building client: '' @ err), w2)
                | (Inr E, w2) \<Rightarrow>
                    (case sweep E (Now E w2) w2 of
                       (SweepError err, w3) \<Rightarrow> (FatalErr err, w3)
                     | (SweepExit1 c, w3) \<Rightarrow> (Exit1, w3)
                     | (SweepDone c, w3) \<Rightarrow> (Returned, w3)))))"

text \<open>
  \<open>cmd/manager\<close>: its \<open>init\<close> builds the scheme, then \<open>main\<close> reads the configuration, creates the
  manager and registers what runs in it; \<open>f\<close> are the parsed flags.
\<close>

definition manager_main ::
    "('s, 'cfg, 'w) setup_calls \<Rightarrow> ('s, 'cfg, 'w) manager_calls \<Rightarrow> manager_flags \<Rightarrow> 'w \<Rightarrow> process_end \<times> 'w" where
  "manager_main K M f w =
     (case build_scheme K of
        Inl e \<Rightarrow> (e, w)
      | Inr scheme \<Rightarrow>
          (case su_GetConfig K w of
             (None, w1) \<Rightarrow> (Exit1, w1)
           | (Some cfg, w1) \<Rightarrow>
               (case NewManager M cfg (managerOptions scheme f) w1 of
                  (Some err, w2) \<Rightarrow> (Exit1, w2)
                | (None, w2) \<Rightarrow>
                    (case SetupWithManager M \<lparr>RetentionWindow = fl_retentionWindow f\<rparr> w2 of
                       (Some err, w3) \<Rightarrow> (Exit1, w3)
                     | (None, w3) \<Rightarrow>
                         (case AddHealthzCheck M ''healthz'' w3 of
                            (Some err, w4) \<Rightarrow> (Exit1, w4)
                          | (None, w4) \<Rightarrow>
                              (case AddReadyzCheck M ''readyz'' w4 of
                                 (Some err, w5) \<Rightarrow> (Exit1, w5)
                               | (None, w5) \<Rightarrow>
                                   (case Start M w5 of (Some err, w6) \<Rightarrow> (Exit1, w6) | (None, w6) \<Rightarrow> (Returned, w6))))))))"

section \<open>HTTP servers\<close>

text \<open>\<open>ListenAndServe\<close> returns when the server was closed or failed.\<close>

datatype serve_error = ErrServerClosed | ServeError string

record 'h http_server =
  sv_Addr :: string
  sv_Handler :: 'h
  sv_ReadHeaderTimeout :: int

definition five_seconds :: int where
  "five_seconds = 5 * 1000000000"

text \<open>The routing table of the extender; a path it does not name gets the library's 404 answer.\<close>

definition extenderMux ::
    "'w env \<Rightarrow> (string \<Rightarrow> (string, ExtenderArgs) result) \<Rightarrow> string \<Rightarrow> string \<Rightarrow> 'w \<Rightarrow>
     ExtenderFilterResult http_response \<times> 'w" where
  "extenderMux E decode path body w =
     (if path = ''/filter'' then filterHandler E decode body w
      else if path = ''/healthz'' then (\<lparr>rs_Code = 200, rs_ContentType = '''', rs_Body = EmptyBody\<rparr>, w)
      else (http_Error ''404 page not found'' 404, w))"

text \<open>The result of serving, as both servers treat it.\<close>

definition serving_result :: "serve_error option \<Rightarrow> process_end option" where
  "serving_result err =
     (case err of Some (ServeError msg) \<Rightarrow> Some (Fatal (''serving: '' @ msg)) | _ \<Rightarrow> None)"

definition extender_main ::
    "('s, 'cfg, 'w) setup_calls \<Rightarrow> (string \<Rightarrow> (string, ExtenderArgs) result) \<Rightarrow>
     ((string \<Rightarrow> string \<Rightarrow> 'w \<Rightarrow> ExtenderFilterResult http_response \<times> 'w) http_server \<Rightarrow> 'w \<Rightarrow>
        serve_error option \<times> 'w) \<Rightarrow> string \<Rightarrow> 'w \<Rightarrow> process_end \<times> 'w" where
  "extender_main K decode listenAndServe addr w =
     (case su_ClientGo K (su_NewScheme K) of
        (Some err, s) \<Rightarrow> (Panicked err, w)
      | (None, scheme) \<Rightarrow>
          (case su_GetConfig K w of
             (None, w1) \<Rightarrow> (Exit1, w1)
           | (Some cfg, w1) \<Rightarrow>
               (case su_NewClient K cfg scheme w1 of
                  (Inl err, w2) \<Rightarrow> (Fatal (''building client: '' @ err), w2)
                | (Inr E, w2) \<Rightarrow>
                    (case listenAndServe \<lparr>sv_Addr = addr, sv_Handler = extenderMux E decode,
                                          sv_ReadHeaderTimeout = five_seconds\<rparr> w2 of
                       (err, w3) \<Rightarrow>
                         (case serving_result err of Some e \<Rightarrow> (e, w3) | None \<Rightarrow> (Returned, w3))))))"

text \<open>
  The dashboard serves in a goroutine of its own while \<open>main\<close> waits for the manager: what is
  modelled of the two is the order in which they return.
\<close>

datatype dashboard_event = ServerReturns "serve_error option" | ManagerReturns "string option"

fun dashboard_wait :: "dashboard_event list \<Rightarrow> process_end option" where
  "dashboard_wait [] = None"
| "dashboard_wait (ServerReturns err # es) =
     (case serving_result err of Some e \<Rightarrow> Some e | None \<Rightarrow> dashboard_wait es)"
| "dashboard_wait (ManagerReturns (Some err) # es) = Some (Fatal (''running manager: '' @ err))"
| "dashboard_wait (ManagerReturns None # es) = Some Returned"

definition dashboard_setup ::
    "('s, 'cfg, 'w) setup_calls \<Rightarrow> (string, string) result \<Rightarrow> (api_error \<Rightarrow> string) \<Rightarrow> string \<Rightarrow> 'w \<Rightarrow>
     (process_end, (string \<Rightarrow> 'w \<Rightarrow> SchedulingDecision list http_response \<times> 'w) http_server) result \<times> 'w" where
  "dashboard_setup K indexFile errstr addr w =
     (case build_scheme K of
        Inl e \<Rightarrow> (Inl e, w)
      | Inr scheme \<Rightarrow>
          (case su_GetConfig K w of
             (None, w1) \<Rightarrow> (Inl Exit1, w1)
           | (Some cfg, w1) \<Rightarrow>
               (case su_NewManager K cfg scheme ''0'' w1 of
                  (Inl err, w2) \<Rightarrow> (Inl (Fatal (''building manager: '' @ err)), w2)
                | (Inr E, w2) \<Rightarrow>
                    (case indexFile of
                       Inl err \<Rightarrow> (Inl (Fatal (''reading embedded index.html: '' @ err)), w2)
                     | Inr indexHTML \<Rightarrow>
                         (Inr \<lparr>sv_Addr = addr, sv_Handler = dashboardMux E errstr indexHTML,
                               sv_ReadHeaderTimeout = five_seconds\<rparr>, w2)))))"

definition dashboard_main ::
    "('s, 'cfg, 'w) setup_calls \<Rightarrow> (string, string) result \<Rightarrow> (api_error \<Rightarrow> string) \<Rightarrow> string \<Rightarrow>
     dashboard_event list \<Rightarrow> 'w \<Rightarrow> process_end option" where
  "dashboard_main K indexFile errstr addr events w =
     (case fst (dashboard_setup K indexFile errstr addr w) of
        Inl e \<Rightarrow> Some e
      | Inr server \<Rightarrow> dashboard_wait events)"

section \<open>Properties\<close>

text \<open>The scheme every binary but the extender works with.\<close>

definition api_scheme :: "('s, 'cfg, 'w) setup_calls \<Rightarrow> 's \<Rightarrow> 's" where
  "api_scheme K s = su_AddKnownTypes K (''scheduling.purestorage.io'', ''v1alpha1'')
     [''SchedulingDecision'', ''SchedulingDecisionList'']
     (su_AddToGroupVersion K (''scheduling.purestorage.io'', ''v1alpha1'') s)"

lemma AddToScheme_eq: "AddToScheme K s = (None, api_scheme K s)"
  by (simp add: AddToScheme_def types_init_def SchemeBuilder_def SchemeGroupVersion_def api_scheme_def)

lemma build_scheme_eq:
  "build_scheme K =
     (case su_ClientGo K (su_NewScheme K) of (Some err, s) \<Rightarrow> Inl (Panicked err) | (None, s) \<Rightarrow> Inr (api_scheme K s))"
  by (simp add: build_scheme_def AddToScheme_eq split: prod.split option.split)

text \<open>The dashboard exits normally exactly when the manager does, before any serving error.\<close>

definition harmless :: "dashboard_event \<Rightarrow> bool" where
  "harmless e \<longleftrightarrow> e \<in> {ServerReturns None, ServerReturns (Some ErrServerClosed)}"

lemma dashboard_wait_Returned:
  "dashboard_wait es = Some Returned \<longleftrightarrow> (\<exists>rest. dropWhile harmless es = ManagerReturns None # rest)"
  by (induction es rule: dashboard_wait.induct)
    (auto simp: serving_result_def harmless_def split: option.splits serve_error.splits)

lemma exit_code_0 [simp]: "exit_code e = 0 \<longleftrightarrow> e = Returned"
  by (cases e) simp_all

text \<open>A successful set-up of the scheme, the configuration and the client or manager.\<close>

definition connected ::
    "('s, 'cfg, 'w) setup_calls \<Rightarrow> ('cfg \<Rightarrow> 's \<Rightarrow> 'w \<Rightarrow> (string, 'w env) result \<times> 'w) \<Rightarrow> ('s \<Rightarrow> 's) \<Rightarrow>
     'w \<Rightarrow> 'w env \<Rightarrow> 'w \<Rightarrow> bool" where
  "connected K connect register w E w' \<longleftrightarrow>
     (\<exists>s cfg w1. su_ClientGo K (su_NewScheme K) = (None, s) \<and> su_GetConfig K w = (Some cfg, w1) \<and>
        connect cfg (register s) w1 = (Inr E, w'))"

lemma sweep_main_Returned:
  "fst (sweep_main K w) = Returned \<longleftrightarrow>
     (\<exists>E w' c. connected K (su_NewClient K) (api_scheme K) w E w' \<and> fst (sweep E (Now E w') w') = SweepDone c)"
  by (auto simp: sweep_main_def build_scheme_eq connected_def
      split: prod.splits option.splits sum.splits sweep_end.splits)

lemma extender_main_Returned:
  "fst (extender_main K decode serve addr w) = Returned \<longleftrightarrow>
     (\<exists>E w'. connected K (su_NewClient K) (\<lambda>s. s) w E w' \<and>
        fst (serve \<lparr>sv_Addr = addr, sv_Handler = extenderMux E decode, sv_ReadHeaderTimeout = five_seconds\<rparr> w')
          \<in> {None, Some ErrServerClosed})"
  by (auto simp: extender_main_def connected_def serving_result_def
      split: prod.splits option.splits sum.splits serve_error.splits)

text \<open>The specification of the manager's set-up: run the calls in order, stop at the first error.\<close>

fun run_until_error :: "('w \<Rightarrow> 'e option \<times> 'w) list \<Rightarrow> 'w \<Rightarrow> bool \<times> 'w" where
  "run_until_error [] w = (True, w)"
| "run_until_error (f # fs) w =
     (case f w of (Some e, w') \<Rightarrow> (False, w') | (None, w') \<Rightarrow> run_until_error fs w')"

definition manager_steps ::
    "('s, 'cfg, 'w) setup_calls \<Rightarrow> ('s, 'cfg, 'w) manager_calls \<Rightarrow> manager_flags \<Rightarrow> 's \<Rightarrow> 'cfg \<Rightarrow>
     ('w \<Rightarrow> go_error option \<times> 'w) list" where
  "manager_steps K M f s cfg =
     [NewManager M cfg (managerOptions (api_scheme K s) f),
      IndexField M eventInvolvedObjectIndex eventInvolvedObjectIndexer,
      Complete M ''schedulingdecision'' mapEventToPodRequest relevantEventPredicate
        \<lparr>RetentionWindow = fl_retentionWindow f\<rparr>,
      AddHealthzCheck M ''healthz'', AddReadyzCheck M ''readyz'', Start M]"

lemma manager_main_steps:
  assumes "su_ClientGo K (su_NewScheme K) = (None, s)" and "su_GetConfig K w = (Some cfg, w1)"
  shows "manager_main K M f w =
    (case run_until_error (manager_steps K M f s cfg) w1 of (ok, w') \<Rightarrow> (if ok then Returned else Exit1, w'))"
  using assms
  by (simp add: manager_main_def manager_steps_def build_scheme_eq SetupWithManager_def split: prod.split option.split)

lemma manager_main_Returned:
  "fst (manager_main K M f w) = Returned \<longleftrightarrow>
     (\<exists>s cfg w1. su_ClientGo K (su_NewScheme K) = (None, s) \<and> su_GetConfig K w = (Some cfg, w1) \<and>
        fst (run_until_error (manager_steps K M f s cfg) w1))"
proof (cases "su_ClientGo K (su_NewScheme K)")
  case (Pair err s)
  show ?thesis
  proof (cases err)
    case None
    show ?thesis
    proof (cases "su_GetConfig K w")
      case (Pair c w1)
      then show ?thesis
        using \<open>su_ClientGo K (su_NewScheme K) = (err, s)\<close> None manager_main_steps [of K s w _ w1 M f]
        by (cases c) (auto simp: manager_main_def build_scheme_eq split: prod.split)
    qed
  qed (simp add: Pair manager_main_def build_scheme_eq)
qed

text \<open>A panic while the scheme is built is the only way to exit code 2.\<close>

lemma exit_code_2: "exit_code e = 2 \<longleftrightarrow> (\<exists>msg. e = Panicked msg)"
  by (cases e) simp_all

lemma panics:
  "exit_code (fst (sweep_main K w)) = 2 \<longleftrightarrow> fst (su_ClientGo K (su_NewScheme K)) \<noteq> None"
  "exit_code (fst (extender_main K decode serve addr w)) = 2 \<longleftrightarrow> fst (su_ClientGo K (su_NewScheme K)) \<noteq> None"
  "exit_code (fst (manager_main K M f w)) = 2 \<longleftrightarrow> fst (su_ClientGo K (su_NewScheme K)) \<noteq> None"
  by (auto simp: exit_code_2 sweep_main_def extender_main_def manager_main_def build_scheme_eq serving_result_def
      split: prod.splits option.splits sum.splits sweep_end.splits serve_error.splits)

lemma dashboard_main_Returned:
  "dashboard_main K indexFile errstr addr es w = Some Returned \<longleftrightarrow>
     (\<exists>E w' html. connected K (\<lambda>cfg s. su_NewManager K cfg s ''0'') (api_scheme K) w E w' \<and> indexFile = Inr html) \<and>
     (\<exists>rest. dropWhile harmless es = ManagerReturns None # rest)"
  by (auto simp: dashboard_main_def dashboard_setup_def build_scheme_eq connected_def dashboard_wait_Returned
      split: prod.splits option.splits sum.splits)

text \<open>
  C36: how the processes end. A sweep process has exit code 0 exactly when its scheme,
  configuration and client could be set up, the list was read and no deletion failed, so a
  failed sweep is visible to the CronJob; the extender exactly when it was set up and its server
  was closed; the dashboard exactly when it was set up and the manager stopped without an error
  before a serving error, while a closed server alone does not end it; the manager exactly when the
  scheme of its \<open>init\<close> was built, the configuration was found and the calls of \<open>manager_steps\<close> all
  succeeded in that order: the manager created with that scheme, the Event index and then the
  controller that reads through it registered, both health checks added, and the run itself ended
  without an error. Sweep, dashboard and manager work with a scheme in which both types of the API
  group are registered after the group itself. Sweep, extender and manager exit with code 2, a panic,
  exactly when the built-in types cannot be registered, and with code 1 after every other failure.
\<close>

theorem binaries_exit_codes:
  "(exit_code (fst (sweep_main K w)) = 0 \<longleftrightarrow>
      (\<exists>E w' c. connected K (su_NewClient K) (api_scheme K) w E w' \<and> fst (sweep E (Now E w') w') = SweepDone c)) \<and>
   (exit_code (fst (extender_main K decode serve addr w)) = 0 \<longleftrightarrow>
      (\<exists>E w'. connected K (su_NewClient K) (\<lambda>s. s) w E w' \<and>
         fst (serve \<lparr>sv_Addr = addr, sv_Handler = extenderMux E decode, sv_ReadHeaderTimeout = five_seconds\<rparr> w')
           \<in> {None, Some ErrServerClosed})) \<and>
   (dashboard_main K indexFile errstr addr es w = Some Returned \<longleftrightarrow>
      (\<exists>E w' html. connected K (\<lambda>cfg s. su_NewManager K cfg s ''0'') (api_scheme K) w E w' \<and> indexFile = Inr html) \<and>
      (\<exists>rest. dropWhile harmless es = ManagerReturns None # rest)) \<and>
   (exit_code (fst (manager_main K M f w)) = 0 \<longleftrightarrow>
      (\<exists>s cfg w1. su_ClientGo K (su_NewScheme K) = (None, s) \<and> su_GetConfig K w = (Some cfg, w1) \<and>
         fst (run_until_error (manager_steps K M f s cfg) w1))) \<and>
   (exit_code (fst (sweep_main K w)) = 2 \<longleftrightarrow> fst (su_ClientGo K (su_NewScheme K)) \<noteq> None) \<and>
   (exit_code (fst (extender_main K decode serve addr w)) = 2 \<longleftrightarrow> fst (su_ClientGo K (su_NewScheme K)) \<noteq> None) \<and>
   (exit_code (fst (manager_main K M f w)) = 2 \<longleftrightarrow> fst (su_ClientGo K (su_NewScheme K)) \<noteq> None)"
  by (simp only: exit_code_0 sweep_main_Returned extender_main_Returned dashboard_main_Returned
      manager_main_Returned panics simp_thms)

end
