(* ===== verification/Html.thy ===== *)
theory Html
  imports Go_Strings
begin

text \<open>
  The markup of the dashboard's page: \<open>escapeHtml\<close> of \<open>cmd/dashboard/static/index.html\<close>, and the
  other side of it, the part of the HTML tokenizer that the page's fragments need (start tags with
  double-quoted attributes, end tags, character data, the five character references). Markup
  outside of that part gives \<open>None\<close>. Text is UTF-8, as a list of bytes.

  \<open>renders s ts\<close> says that a fragment reads as the tokens \<open>ts\<close>, whatever follows it; its rules
  build up what the browser sees in the way the page builds up its strings.
\<close>

section \<open>Escaping\<close>

definition dquote :: char where "dquote = CHR 0x22"

definition squote :: char where "squote = CHR 0x27"

definition escape_char :: "char \<Rightarrow> string" where
  "escape_char c =
     (if c = CHR ''&'' then ''&amp;'' else if c = CHR ''<'' then ''&lt;'' else if c = CHR ''>'' then ''&gt;''
      else if c = dquote then ''&quot;'' else if c = squote then ''&#39;'' else [c])"

definition escapeHtml :: "string \<Rightarrow> string" where
  "escapeHtml s = concat (map escape_char s)"

section \<open>The browser's side\<close>

definition char_refs :: "(string \<times> char) list" where
  "char_refs = [(''&amp;'', CHR ''&''), (''&lt;'', CHR ''<''), (''&gt;'', CHR ''>''), (''&quot;'', dquote), (''&#39;'', squote)]"

lemma char_refs_length: "find (\<lambda>(r, c). prefix r s) char_refs = Some (r, x) \<Longrightarrow> 0 < length r \<and> prefix r s"
  by (auto simp: char_refs_def split: if_splits)

function unescape :: "string \<Rightarrow> string" where
  "unescape [] = []"
| "unescape (c # s) =
     (case find (\<lambda>(r, x). prefix r (c # s)) char_refs of
        None \<Rightarrow> c # unescape s
      | Some (r, x) \<Rightarrow> x # unescape (drop (length r) (c # s)))"
  by pat_completeness auto
termination
proof (relation "measure length", goal_cases)
  case (3 c s p r x)
  then have "0 < length r" using char_refs_length by blast
  then show ?case by simp
qed simp_all

datatype token =
    Open string "(string \<times> string) list"
  | Close string
  | Chars string

text \<open>After the name of a start tag: \<open> key="value"\<close> any number of times, then \<open>>\<close>.\<close>

function scan_attrs :: "string \<Rightarrow> ((string \<times> string) list \<times> string) option" where
  "scan_attrs [] = None"
| "scan_attrs (c # s) =
     (if c = CHR ''>'' then Some ([], s)
      else if c = CHR '' '' then
        (let k = takeWhile (\<lambda>c. c \<noteq> CHR ''='') s; v = drop (length k + 2) s; x = takeWhile (\<lambda>c. c \<noteq> dquote) v
         in if take 2 (drop (length k) s) = [CHR ''='', dquote] \<and> length x < length v
            then (case scan_attrs (drop (length x + 1) v) of
                    None \<Rightarrow> None
                  | Some (as, rest) \<Rightarrow> Some ((k, unescape x) # as, rest))
            else None)
      else None)"
  by pat_completeness auto
termination by (relation "measure length") auto

lemma scan_attrs_length: "scan_attrs s = Some (as, rest) \<Longrightarrow> length rest < length s"
proof (induction s arbitrary: as rule: length_induct)
  case (1 s)
  show ?case
  proof (cases s)
    case (Cons c s')
    have "length rest < Suc (length s')" if "scan_attrs (drop n s') = Some (a, rest)" for n a
    proof -
      have "length (drop n s') < length s" using Cons by simp
      with 1(1) that have "length rest < length (drop n s')" by blast
      then show ?thesis by simp
    qed
    with Cons 1(2) show ?thesis by (auto simp: Let_def split: if_splits option.splits)
  qed (use 1 in simp)
qed

definition scan_tag :: "string \<Rightarrow> (token \<times> string) option" where
  "scan_tag s =
     (if s \<noteq> [] \<and> hd s = CHR ''/'' then
        (let n = takeWhile (\<lambda>c. c \<noteq> CHR ''>'') (tl s)
         in if length n < length (tl s) then Some (Close n, drop (length n + 1) (tl s)) else None)
      else
        (let n = takeWhile (\<lambda>c. c \<noteq> CHR '' '' \<and> c \<noteq> CHR ''>'') s
         in case scan_attrs (drop (length n) s) of
              None \<Rightarrow> None
            | Some (as, rest) \<Rightarrow> Some (Open n as, rest)))"

lemma scan_tag_length: "scan_tag s = Some (t, rest) \<Longrightarrow> length rest \<le> length s"
  by (auto simp: scan_tag_def Let_def split: if_splits option.splits dest: scan_attrs_length)

function html_tokens :: "string \<Rightarrow> token list option" where
  "html_tokens [] = Some []"
| "html_tokens (c # s) =
     (if c = CHR ''<'' then
        (case scan_tag s of
           None \<Rightarrow> None
         | Some (t, rest) \<Rightarrow> map_option (Cons t) (html_tokens rest))
      else
        (let x = takeWhile (\<lambda>c. c \<noteq> CHR ''<'') (c # s)
         in map_option (Cons (Chars (unescape x))) (html_tokens (drop (length x) (c # s)))))"
  by pat_completeness auto
termination by (relation "measure length") (auto dest: scan_tag_length)

declare html_tokens.simps(2) [simp del]

section \<open>Escaped text is text\<close>

lemma escapeHtml_simps [simp]:
  "escapeHtml [] = []" "escapeHtml (c # s) = escape_char c @ escapeHtml s" "escapeHtml (s @ t) = escapeHtml s @ escapeHtml t"
  by (simp_all add: escapeHtml_def)

lemma unescape_escape_char: "unescape (escape_char c @ s) = c # unescape s"
  by (auto simp: escape_char_def char_refs_def dquote_def squote_def)

lemma unescape_escapeHtml_append: "unescape (escapeHtml s @ t) = s @ unescape t"
  by (induction s) (simp_all add: unescape_escape_char)

lemma unescape_plain_append: "CHR ''&'' \<notin> set s \<Longrightarrow> unescape (s @ t) = s @ unescape t"
  by (induction s) (auto simp: char_refs_def)

lemma unescape_inverse [simp]: "unescape (escapeHtml s) = s" "CHR ''&'' \<notin> set s \<Longrightarrow> unescape s = s"
  using unescape_escapeHtml_append [of s "[]"] unescape_plain_append [of s "[]"] by simp_all

lemma escapeHtml_inert: "CHR ''<'' \<notin> set (escapeHtml s)" "CHR ''>'' \<notin> set (escapeHtml s)"
  "dquote \<notin> set (escapeHtml s)" "squote \<notin> set (escapeHtml s)"
  by (auto simp: escapeHtml_def escape_char_def dquote_def squote_def split: if_splits)

lemma escapeHtml_eq_Nil [simp]: "escapeHtml s = [] \<longleftrightarrow> s = []"
  by (cases s) (auto simp: escape_char_def)

section \<open>Building up\<close>

lemma takeWhile_until: "c \<notin> set xs \<Longrightarrow> takeWhile (\<lambda>x. x \<noteq> c) (xs @ c # ys) = xs"
  by (induction xs) auto

definition attr_string :: "(string \<times> string) list \<Rightarrow> string" where
  "attr_string as = concat (map (\<lambda>(k, v). '' '' @ k @ ''='' @ [dquote] @ v @ [dquote]) as)"

definition open_tag :: "string \<Rightarrow> (string \<times> string) list \<Rightarrow> string" where
  "open_tag n as = ''<'' @ n @ attr_string as @ ''>''"

definition close_tag :: "string \<Rightarrow> string" where
  "close_tag n = ''</'' @ n @ ''>''"

definition tag_name :: "string \<Rightarrow> bool" where
  "tag_name n \<longleftrightarrow> n \<noteq> [] \<and> set n \<inter> {CHR '' '', CHR ''>'', CHR ''/'', CHR ''=''} = {}"

definition attr_value :: "string \<Rightarrow> bool" where
  "attr_value v \<longleftrightarrow> dquote \<notin> set v"

definition renders :: "string \<Rightarrow> token list \<Rightarrow> bool" where
  "renders s ts \<longleftrightarrow> (\<forall>k. html_tokens (s @ k) = map_option ((@) ts) (html_tokens k))"

lemma append_section: "(@) [] = (\<lambda>ys. ys)" "(@) (x # xs) = (\<lambda>ys. x # xs @ ys)" "(@) (xs @ zs) = (\<lambda>ys. xs @ zs @ ys)"
  by auto

lemma renders_tokens: "renders s ts \<Longrightarrow> html_tokens s = Some ts"
  unfolding renders_def by (drule spec [of _ "[]"]) simp

lemma renders_Nil: "renders [] []"
  by (simp add: renders_def append_section option.map_ident)

lemma renders_append: "renders s ts \<Longrightarrow> renders t us \<Longrightarrow> renders (s @ t) (ts @ us)"
  by (simp add: renders_def option.map_comp comp_def append_section(3))

lemma renders_concat: "(\<And>x. x \<in> set xs \<Longrightarrow> renders (f x) (g x)) \<Longrightarrow> renders (concat (map f xs)) (concat (map g xs))"
  by (induction xs) (auto intro: renders_Nil renders_append)

lemma scan_attrs_tag:
  assumes "\<And>k v. (k, v) \<in> set as \<Longrightarrow> tag_name k \<and> attr_value v"
  shows "scan_attrs (attr_string as @ CHR ''>'' # s) =
    Some (map (\<lambda>(k, v). (k, unescape v)) as, s)"
  using assms
proof (induction as)
  case (Cons a as)
  obtain k v where a: "a = (k, v)" by force
  with Cons.prems have k: "CHR ''='' \<notin> set k" and v: "dquote \<notin> set v" by (auto simp: tag_name_def attr_value_def)
  let ?t = "attr_string as @ CHR ''>'' # s"
  from Cons have IH: "scan_attrs ?t = Some (map (\<lambda>(k, v). (k, unescape v)) as, s)" by auto
  have "drop (Suc (Suc (length k))) (k @ x # y # z) = z" "take 2 (drop (length k) (k @ x # y # z)) = [x, y]"
    "drop (Suc (length v)) (v @ x # z) = z" for x y z
    by simp_all
  with IH show ?case by (simp add: a attr_string_def Let_def takeWhile_until k v del: drop_append)
qed (simp add: attr_string_def)

lemma renders_open:
  assumes "tag_name n" and "\<And>k v. (k, v) \<in> set as \<Longrightarrow> tag_name k \<and> attr_value v"
  shows "renders (open_tag n as) [Open n (map (\<lambda>(k, v). (k, unescape v)) as)]"
  unfolding renders_def
proof
  fix s
  let ?attrs = "attr_string as @ CHR ''>'' # s"
  have name: "takeWhile (\<lambda>c. c \<noteq> CHR '' '' \<and> c \<noteq> CHR ''>'') (n @ ?attrs) = n"
  proof -
    have "\<forall>c\<in>set n. c \<noteq> CHR '' '' \<and> c \<noteq> CHR ''>''" using assms(1) by (auto simp: tag_name_def)
    moreover have "takeWhile (\<lambda>c. c \<noteq> CHR '' '' \<and> c \<noteq> CHR ''>'') ?attrs = []"
      by (cases as) (simp_all add: attr_string_def case_prod_beta)
    ultimately show ?thesis by (subst takeWhile_append2) auto
  qed
  have "n @ ?attrs \<noteq> []" "hd (n @ ?attrs) \<noteq> CHR ''/''" using assms(1) by (cases n, auto simp: tag_name_def)+
  then have "scan_tag (n @ ?attrs) = Some (Open n (map (\<lambda>(k, v). (k, unescape v)) as), s)"
    using scan_attrs_tag [OF assms(2)] by (simp add: scan_tag_def Let_def name del: append_assoc)
  then show "html_tokens (open_tag n as @ s) =
      map_option ((@) [Open n (map (\<lambda>(k, v). (k, unescape v)) as)]) (html_tokens s)"
    by (simp add: open_tag_def html_tokens.simps(2) append_section)
qed

lemma renders_close:
  assumes "tag_name n"
  shows "renders (close_tag n) [Close n]"
proof -
  have "takeWhile (\<lambda>c. c \<noteq> CHR ''>'') (n @ CHR ''>'' # s) = n" for s
    using assms by (simp add: tag_name_def takeWhile_until)
  then show ?thesis
    by (simp add: renders_def append_section close_tag_def html_tokens.simps(2) scan_tag_def Let_def)
qed

definition text_token :: "string \<Rightarrow> token list" where
  "text_token s = (if s = [] then [] else [Chars s])"

text \<open>Text in front of a tag is one token, with the references of the text resolved.\<close>

lemma html_tokens_text:
  assumes "CHR ''<'' \<notin> set s" and "s \<noteq> []"
  shows "html_tokens (s @ CHR ''<'' # x) = map_option (Cons (Chars (unescape s))) (html_tokens (CHR ''<'' # x))"
proof -
  from assms(2) obtain c s' where s: "s = c # s'" by (cases s) auto
  with assms(1) have c: "c \<noteq> CHR ''<''" by auto
  from takeWhile_until [OF assms(1), of x] have take: "takeWhile (\<lambda>c. c \<noteq> CHR ''<'') (c # s' @ CHR ''<'' # x) = s"
    by (simp add: s)
  have drop: "drop (length s) (c # s' @ CHR ''<'' # x) = CHR ''<'' # x" by (simp add: s)
  have "html_tokens (c # s' @ CHR ''<'' # x) = map_option (Cons (Chars (unescape s))) (html_tokens (CHR ''<'' # x))"
    unfolding html_tokens.simps(2) [of c] Let_def take drop using c by simp
  then show ?thesis by (simp add: s)
qed

lemma renders_text:
  assumes "CHR ''<'' \<notin> set s" and "renders (CHR ''<'' # t) us"
  shows "renders (s @ CHR ''<'' # t) (text_token (unescape s) @ us)"
proof (cases "s = []")
  case False
  then have "unescape s \<noteq> []" by (cases s) (simp_all split: option.split)
  with False assms show ?thesis
    by (simp add: renders_def text_token_def html_tokens_text append_section(2) option.map_comp comp_def)
qed (use assms(2) in \<open>simp add: text_token_def\<close>)

end
