(* ===== verification/Js_Numbers.thy ===== *)
theory Js_Numbers
  imports Sch_Prelude "HOL-Library.Log_Nat" Complex_Main
begin

text \<open>
  The numbers of the dashboard's page. A JavaScript number is an IEEE 754 double; here it is the
  rational number it stands for, and \<open>dbl\<close> rounds to the nearest one, ties to even, with 53
  significant bits. (The page adds, divides and scales counts and latencies, so nothing comes near
  the limits of the exponent: there are no infinities, no subnormals and no signed zeros.) The
  locale \<open>double_rounding\<close> holds what the page's arithmetic needs of the rounding.
\<close>

section \<open>Rounding\<close>

definition round_half_even :: "rat \<Rightarrow> int" where
  "round_half_even x =
     (let n = \<lfloor>x\<rfloor>; r = x - of_int n
      in if r < 1 / 2 then n else if 1 / 2 < r then n + 1 else if even n then n else n + 1)"

definition two_powi :: "int \<Rightarrow> rat" where
  "two_powi e = (if 0 \<le> e then 2 ^ nat e else 1 / 2 ^ nat (- e))"

definition floor_log2 :: "rat \<Rightarrow> int" where
  "floor_log2 x =
     (case quotient_of x of (p, q) \<Rightarrow>
        let e = bitlen p - bitlen q in if two_powi e \<le> x then e else e - 1)"

definition dbl :: "rat \<Rightarrow> rat" where
  "dbl x = (if x = 0 then 0 else let u = two_powi (floor_log2 \<bar>x\<bar> - 52) in of_int (round_half_even (x / u)) * u)"

text \<open>\<open>Math.round\<close>: the nearest integer, ties towards positive infinity.\<close>

definition math_round :: "rat \<Rightarrow> int" where
  "math_round x = \<lfloor>x + 1 / 2\<rfloor>"

section \<open>Facts\<close>

lemma round_half_even_cases: "round_half_even x = \<lfloor>x\<rfloor> \<and> x - of_int \<lfloor>x\<rfloor> \<le> 1 / 2 \<or> round_half_even x = \<lfloor>x\<rfloor> + 1 \<and> 1 / 2 \<le> x - of_int \<lfloor>x\<rfloor>"
  by (auto simp: round_half_even_def Let_def)

lemma round_half_even_int [simp]: "round_half_even (of_int n) = n"
  by (simp add: round_half_even_def)

lemma round_half_even_mono:
  assumes "x \<le> y"
  shows "round_half_even x \<le> round_half_even y"
proof (cases "\<lfloor>x\<rfloor> = \<lfloor>y\<rfloor>")
  case True
  with assms show ?thesis by (auto simp: round_half_even_def Let_def)
next
  case False
  with floor_mono [OF assms] have "\<lfloor>x\<rfloor> + 1 \<le> \<lfloor>y\<rfloor>" by simp
  with round_half_even_cases [of x] round_half_even_cases [of y] show ?thesis by linarith
qed

lemma round_half_even_between:
  "of_int a \<le> x \<Longrightarrow> a \<le> round_half_even x" "x \<le> of_int b \<Longrightarrow> round_half_even x \<le> b"
  using round_half_even_mono [of "of_int a" x] round_half_even_mono [of x "of_int b"] by simp_all

lemma two_powi_pos [simp]: "0 < two_powi e"
  by (simp add: two_powi_def)

lemma two_powi_nat: "two_powi (int n) = 2 ^ n"
  by (simp add: two_powi_def)

lemma two_powi_add: "two_powi (d + e) = two_powi d * two_powi e"
proof -
  have *: "two_powi e = 2 powi e" for e
    by (simp add: two_powi_def power_int_def power_one_over inverse_eq_divide)
  show ?thesis by (simp add: * power_int_add)
qed

lemma two_powi_mono: "d \<le> e \<Longrightarrow> two_powi d \<le> two_powi e"
proof -
  assume "d \<le> e"
  then have "two_powi e = two_powi d * 2 ^ nat (e - d)"
    using two_powi_add [of d "e - d"] two_powi_nat [of "nat (e - d)"] by simp
  moreover have "two_powi d * 1 \<le> two_powi d * 2 ^ nat (e - d)" by (intro mult_left_mono) (simp_all add: less_imp_le)
  ultimately show ?thesis by simp
qed

lemma floor_log2_bounds:
  assumes "0 < x"
  shows "two_powi (floor_log2 x) \<le> x" and "x < two_powi (floor_log2 x + 1)"
proof -
  obtain p q where pq: "quotient_of x = (p, q)" by force
  then have x: "x = of_int p / of_int q" and "0 < q" by (simp_all add: quotient_of_div quotient_of_denom_pos)
  with assms have "0 < p" by (simp add: zero_less_divide_iff)
  define a b where "a = bitlen p" and "b = bitlen q"
  have pb: "two_powi (a - 1) \<le> of_int p" "of_int p < two_powi a"
    and qb: "two_powi (b - 1) \<le> of_int q" "of_int q < two_powi b"
    using bitlen_bounds [OF \<open>0 < p\<close>] bitlen_bounds [OF \<open>0 < q\<close>] \<open>0 < p\<close> \<open>0 < q\<close>
    by (auto simp: two_powi_def a_def b_def bitlen_def)
  have "of_int p < two_powi (a - b + 1) * two_powi (b - 1)" using pb(2) two_powi_add [of "a - b + 1" "b - 1"] by simp
  also have "\<dots> \<le> two_powi (a - b + 1) * of_int q" using qb(1) by (simp add: mult_left_mono less_imp_le)
  finally have upper: "x < two_powi (a - b + 1)" using \<open>0 < q\<close> by (simp add: x divide_less_eq)
  have "two_powi (a - b - 1) * of_int q \<le> two_powi (a - b - 1) * two_powi b" using qb(2) by (simp add: mult_left_mono less_imp_le)
  also have "\<dots> \<le> of_int p" using pb(1) two_powi_add [of "a - b - 1" b] by simp
  finally have lower: "two_powi (a - b - 1) \<le> x" using \<open>0 < q\<close> by (simp add: x le_divide_eq)
  show "two_powi (floor_log2 x) \<le> x" and "x < two_powi (floor_log2 x + 1)"
    using upper lower by (auto simp: floor_log2_def pq Let_def a_def b_def)
qed

lemma floor_log2_mono:
  assumes "0 < x" and "x \<le> y"
  shows "floor_log2 x \<le> floor_log2 y"
proof (rule ccontr)
  assume "\<not> floor_log2 x \<le> floor_log2 y"
  then have "two_powi (floor_log2 y + 1) \<le> two_powi (floor_log2 x)" by (intro two_powi_mono) simp
  with floor_log2_bounds [of x] floor_log2_bounds [of y] assms show False by simp
qed

text \<open>On a binade the rounding is that of a scale; the ends of the binade are on it.\<close>

lemma dbl_scale: "0 < x \<Longrightarrow> dbl x = of_int (round_half_even (x / two_powi (floor_log2 x - 52))) * two_powi (floor_log2 x - 52)"
  by (simp add: dbl_def Let_def)

lemma dbl_binade:
  assumes "0 < x"
  shows "two_powi (floor_log2 x) \<le> dbl x" and "dbl x \<le> two_powi (floor_log2 x + 1)"
proof -
  define u where "u = two_powi (floor_log2 x - 52)"
  have u: "0 < u" "two_powi (floor_log2 x) = of_int (2 ^ 52) * u" "two_powi (floor_log2 x + 1) = of_int (2 ^ 53) * u"
    using two_powi_add [of 52 "floor_log2 x - 52"] two_powi_add [of 53 "floor_log2 x - 52"]
      two_powi_nat [of 52] two_powi_nat [of 53] by (simp_all add: u_def add.commute)
  have "of_int (2 ^ 52) \<le> x / u" "x / u \<le> of_int (2 ^ 53)"
    using floor_log2_bounds [OF assms] u by (simp_all add: le_divide_eq divide_le_eq less_imp_le)
  then have "2 ^ 52 \<le> round_half_even (x / u)" "round_half_even (x / u) \<le> 2 ^ 53"
    by (auto intro: round_half_even_between simp del: of_int_power)
  then have "of_int (2 ^ 52) \<le> (of_int (round_half_even (x / u)) :: rat)"
    "(of_int (round_half_even (x / u)) :: rat) \<le> of_int (2 ^ 53)" by (simp_all only: of_int_le_iff)
  then show "two_powi (floor_log2 x) \<le> dbl x" and "dbl x \<le> two_powi (floor_log2 x + 1)"
    unfolding dbl_scale [OF assms] u_def [symmetric] u(2,3) using u(1) by (simp_all add: mult_right_mono)
qed

lemma dbl_mono_pos:
  assumes "0 < x" and "x \<le> y"
  shows "dbl x \<le> dbl y"
proof (cases "floor_log2 x = floor_log2 y")
  case True
  let ?u = "two_powi (floor_log2 y - 52)"
  have "round_half_even (x / ?u) \<le> round_half_even (y / ?u)"
    using assms by (intro round_half_even_mono) (simp add: divide_right_mono less_imp_le)
  then have "(of_int (round_half_even (x / ?u)) :: rat) \<le> of_int (round_half_even (y / ?u))" by simp
  then show ?thesis using assms True by (simp add: dbl_scale mult_right_mono less_imp_le)
next
  case False
  with floor_log2_mono [OF assms] have "two_powi (floor_log2 x + 1) \<le> two_powi (floor_log2 y)"
    by (intro two_powi_mono) simp
  with dbl_binade(2) [of x] dbl_binade(1) [of y] assms show ?thesis by simp
qed

lemma dbl_zero [simp]: "dbl 0 = 0"
  by (simp add: dbl_def)

lemma dbl_mono: "0 \<le> x \<Longrightarrow> x \<le> y \<Longrightarrow> dbl x \<le> dbl y"
  using dbl_mono_pos [of x y] order.strict_trans2 [OF two_powi_pos dbl_binade(1), of y]
  by (cases "x = 0"; cases "y = 0") (auto simp: le_less)

lemma dbl_int:
  assumes "0 \<le> n" and "n \<le> 2 ^ 53"
  shows "dbl (of_int n) = of_int n"
proof (cases "n = 0")
  case False
  with assms have n: "0 < (of_int n :: rat)" by simp
  define e where "e = floor_log2 (of_int n)"
  have "two_powi e \<le> of_int n" using floor_log2_bounds [OF n] by (simp add: e_def)
  also have "(of_int n :: rat) \<le> of_int (2 ^ 53)" using assms(2) by (simp only: of_int_le_iff)
  finally have le: "two_powi e \<le> 2 ^ 53" by simp
  have "e \<le> 53"
  proof (rule ccontr)
    assume "\<not> e \<le> 53"
    then have "two_powi 54 \<le> two_powi e" by (intro two_powi_mono) simp
    with le show False by (simp add: two_powi_def)
  qed
  have "\<exists>m :: int. of_int n / two_powi (e - 52) = of_int m"
  proof (cases "e \<le> 52")
    case True
    then have "(of_int n :: rat) / two_powi (e - 52) = of_int (n * 2 ^ nat (52 - e))" by (simp add: two_powi_def)
    then show ?thesis ..
  next
    case False
    with \<open>e \<le> 53\<close> have "e = 53" by simp
    with floor_log2_bounds(1) [OF n] have "(of_int (2 ^ 53) :: rat) \<le> of_int n" by (simp add: e_def two_powi_def)
    then have "n = 2 ^ 53" using assms(2) by (simp only: of_int_le_iff)
    then have "(of_int n :: rat) / two_powi (e - 52) = of_int (2 ^ 52)" using \<open>e = 53\<close> by (simp add: two_powi_def)
    then show ?thesis ..
  qed
  then obtain m where m: "(of_int n :: rat) / two_powi (e - 52) = of_int m" ..
  then have "(of_int n :: rat) = of_int m * two_powi (e - 52)" using two_powi_pos [of "e - 52"] by (simp add: field_simps)
  then show ?thesis using dbl_scale [OF n] m by (simp add: e_def)
qed simp

lemma floor_log2_unique:
  assumes "two_powi e \<le> x" and "x < two_powi (e + 1)"
  shows "floor_log2 x = e"
proof -
  have x: "0 < x" using assms(1) two_powi_pos [of e] by (rule order.strict_trans2 [rotated])
  note b = floor_log2_bounds [OF x]
  have "\<not> floor_log2 x < e"
    using two_powi_mono [of "floor_log2 x + 1" e] assms(1) b(2) by auto
  moreover have "\<not> e < floor_log2 x"
    using two_powi_mono [of "e + 1" "floor_log2 x"] assms(2) b(1) by auto
  ultimately show ?thesis by simp
qed

lemma dbl_div_power:
  assumes "0 \<le> x"
  shows "dbl (x / 2 ^ k) = dbl x / 2 ^ k"
proof (cases "x = 0")
  case False
  with assms have x: "0 < x" "0 < x / 2 ^ k" by simp_all
  have two: "two_powi (e - int k) = two_powi e / 2 ^ k" for e
    using two_powi_add [of "e - int k" "int k"] by (simp add: two_powi_nat field_simps)
  let ?e = "floor_log2 x"
  have "floor_log2 (x / 2 ^ k) = ?e - int k"
  proof (rule floor_log2_unique)
    show "two_powi (?e - int k) \<le> x / 2 ^ k"
      using floor_log2_bounds(1) [OF x(1)] by (simp add: two divide_right_mono)
    have "two_powi (?e - int k + 1) = two_powi (?e + 1) / 2 ^ k" using two [of "?e + 1"] by (simp add: algebra_simps)
    then show "x / 2 ^ k < two_powi (?e - int k + 1)"
      using floor_log2_bounds(2) [OF x(1)] by (simp add: divide_strict_right_mono)
  qed
  moreover have "two_powi (?e - int k - 52) = two_powi (?e - 52) / 2 ^ k" using two [of "?e - 52"] by (simp add: algebra_simps)
  ultimately show ?thesis by (simp add: dbl_scale x)
qed simp

section \<open>The interface\<close>

locale double_rounding =
  fixes R :: "rat \<Rightarrow> rat"
  assumes mono: "0 \<le> x \<Longrightarrow> x \<le> y \<Longrightarrow> R x \<le> R y"
    and int_exact: "0 \<le> n \<Longrightarrow> n \<le> 2 ^ 53 \<Longrightarrow> R (of_int n) = of_int n"
    and div_power: "0 \<le> x \<Longrightarrow> R (x / 2 ^ k) = R x / 2 ^ k"
begin

text \<open>A rounded value stays between two integers that its exact value is between.\<close>

lemma between:
  assumes "of_int a \<le> x" and "x \<le> of_int b" and "0 \<le> a" and "b \<le> 2 ^ 53"
  shows "of_int a \<le> R x" and "R x \<le> of_int b"
proof -
  have "0 \<le> x" using assms(1,3) by (meson of_int_0_le_iff order_trans)
  have "(of_int a :: rat) \<le> of_int b" using assms(1,2) by (rule order_trans)
  then have "a \<le> b" by simp
  have "R (of_int a) \<le> R x" "R x \<le> R (of_int b)" using assms \<open>0 \<le> x\<close> by (simp_all add: mono)
  with assms \<open>a \<le> b\<close> show "of_int a \<le> R x" and "R x \<le> of_int b" by (simp_all add: int_exact)
qed

lemma between_dyadic:
  assumes "of_int a / 2 ^ k \<le> x" and "x \<le> of_int b / 2 ^ k" and "0 \<le> a" and "b \<le> 2 ^ 53"
  shows "of_int a / 2 ^ k \<le> R x" and "R x \<le> of_int b / 2 ^ k"
proof -
  have x: "of_int a \<le> x * 2 ^ k" "x * 2 ^ k \<le> of_int b" using assms(1,2) by (simp_all add: field_simps)
  have "0 \<le> x * 2 ^ k" using x(1) assms(3) by (meson of_int_0_le_iff order_trans)
  then have "R x = R (x * 2 ^ k) / 2 ^ k" using div_power [of "x * 2 ^ k" k] by simp
  with between [OF x assms(3,4)] show "of_int a / 2 ^ k \<le> R x" and "R x \<le> of_int b / 2 ^ k"
    by (simp_all add: divide_right_mono)
qed

end

interpretation ieee: double_rounding dbl
  by unfold_locales (auto intro: dbl_mono dbl_int simp: dbl_div_power)

lemma math_round_between: "of_int a \<le> x \<Longrightarrow> x \<le> of_int b \<Longrightarrow> a \<le> math_round x \<and> math_round x \<le> b"
  unfolding math_round_def by (auto simp: le_floor_iff floor_le_iff)

end
