(* ===== verification/Wire_Json.thy ===== *)
theory Wire_Json
  imports Reconciler Rfc3339 "HOL-Library.Monad_Syntax"
begin

text \<open>
  The resource on the wire: the JSON form that the field tags of
  \<open>api/v1alpha1/schedulingdecision_types.go\<close> prescribe, and the schema that its kubebuilder markers
  generate. A field with \<open>omitempty\<close> is left out when it is empty, except for structs (the
  timestamps and \<open>sourceRef\<close>), on which \<open>omitempty\<close> has no effect; \<open>omitzero\<close> leaves out a zero
  struct. What the encoding of \<open>metav1\<close> types does is a parameter (\<open>json_calls\<close>): the text of a
  time, the object metadata, and the server's check of the \<open>date-time\<close> format. Its laws are the
  locale \<open>json_lib\<close>, interpreted with RFC 3339.
\<close>

datatype json =
    JNull
  | JNum int
  | JStr string
  | JArr "json list"
  | JObj "(string \<times> json) list"

record json_calls =
  jc_formatTime :: "gotime \<Rightarrow> string"
  jc_parseTime :: "string \<Rightarrow> gotime option"
  jc_isDateTime :: "string \<Rightarrow> bool"
  jc_meta :: "ObjectMeta \<Rightarrow> json option"
  jc_parseMeta :: "json \<Rightarrow> ObjectMeta option"

section \<open>Encoding\<close>

text \<open>One field of an object: present under a condition.\<close>

definition opt :: "string \<Rightarrow> bool \<Rightarrow> json \<Rightarrow> (string \<times> json) list" where
  "opt k c j = (if c then [(k, j)] else [])"

abbreviation opt_str :: "string \<Rightarrow> string \<Rightarrow> (string \<times> json) list" where
  "opt_str k s \<equiv> opt k (s \<noteq> '''') (JStr s)"

abbreviation opt_int :: "string \<Rightarrow> int \<Rightarrow> (string \<times> json) list" where
  "opt_int k n \<equiv> opt k (n \<noteq> 0) (JNum n)"

abbreviation always :: "string \<Rightarrow> json \<Rightarrow> (string \<times> json) list" where
  "always k j \<equiv> opt k True j"

fun outcome_string :: "SchedulingOutcome \<Rightarrow> string" where
  "outcome_string OutcomeUnset = ''''"
| "outcome_string SchedulingOutcomeScheduled = ''Scheduled''"
| "outcome_string SchedulingOutcomeFailedScheduling = ''FailedScheduling''"
| "outcome_string SchedulingOutcomePreempted = ''Preempted''"

definition time_json :: "json_calls \<Rightarrow> gotime \<Rightarrow> json" where
  "time_json C t = (if time_is_zero t then JNull else JStr (jc_formatTime C t))"

definition CandidateNode_json :: "CandidateNode \<Rightarrow> json" where
  "CandidateNode_json n = JObj
     (always ''name'' (JStr (cn_Name n)) @
      opt_str ''filterResult'' (cn_FilterResult n) @
      opt ''score'' (cn_Score n \<noteq> None) (JNum (case cn_Score n of None \<Rightarrow> 0 | Some x \<Rightarrow> x)))"

definition VolumeContext_json :: "VolumeContext \<Rightarrow> json" where
  "VolumeContext_json v = JObj
     (opt_str ''pvcName'' (vc_PVCName v) @
      opt_str ''storageClass'' (vc_StorageClass v) @
      opt_str ''driverType'' (vc_DriverType v) @
      opt_str ''bindingMode'' (vc_BindingMode v) @
      opt_str ''topologyConstraint'' (vc_TopologyConstraint v))"

definition SourceRef_json :: "SourceRef \<Rightarrow> json" where
  "SourceRef_json r = JObj
     (opt_str ''eventUID'' (sr_EventUID r) @ opt_str ''auditRequestID'' (sr_AuditRequestID r))"

definition SchedulingDecisionSpec_json :: "SchedulingDecisionSpec \<Rightarrow> json" where
  "SchedulingDecisionSpec_json s = JObj
     (always ''podName'' (JStr (sp_PodName s)) @
      always ''podNamespace'' (JStr (sp_PodNamespace s)) @
      always ''podUID'' (JStr (sp_PodUID s)) @
      opt_str ''schedulerName'' (sp_SchedulerName s) @
      opt ''volumeContext'' (sp_VolumeContext s \<noteq> None)
        (case sp_VolumeContext s of None \<Rightarrow> JNull | Some v \<Rightarrow> VolumeContext_json v))"

definition SchedulingTransition_json :: "json_calls \<Rightarrow> SchedulingTransition \<Rightarrow> json" where
  "SchedulingTransition_json C t = JObj
     (always ''outcome'' (JStr (outcome_string (tr_Outcome t))) @
      opt_str ''chosenNode'' (tr_ChosenNode t) @
      opt_str ''reasonSummary'' (tr_ReasonSummary t) @
      always ''decisionTimestamp'' (time_json C (tr_DecisionTimestamp t)) @
      opt_int ''schedulingLatencyMs'' (tr_SchedulingLatencyMs t) @
      opt ''candidateNodes'' (tr_CandidateNodes t \<noteq> []) (JArr (map CandidateNode_json (tr_CandidateNodes t))) @
      always ''sourceRef'' (SourceRef_json (tr_SourceRef t)))"

definition SchedulingDecisionStatus_json :: "json_calls \<Rightarrow> SchedulingDecisionStatus \<Rightarrow> json" where
  "SchedulingDecisionStatus_json C s = JObj
     (opt_str ''outcome'' (outcome_string (st_Outcome s)) @
      opt_str ''chosenNode'' (st_ChosenNode s) @
      opt_str ''reasonSummary'' (st_ReasonSummary s) @
      always ''decisionTimestamp'' (time_json C (st_DecisionTimestamp s)) @
      opt_int ''schedulingLatencyMs'' (st_SchedulingLatencyMs s) @
      opt ''transitions'' (st_Transitions s \<noteq> []) (JArr (map (SchedulingTransition_json C) (st_Transitions s))))"

text \<open>The inlined type metadata is \<open>kind\<close> and \<open>apiVersion\<close>, as the client fills them in.\<close>

definition SchedulingDecision_json :: "json_calls \<Rightarrow> SchedulingDecision \<Rightarrow> json" where
  "SchedulingDecision_json C d = JObj
     (always ''kind'' (JStr ''SchedulingDecision'') @
      always ''apiVersion'' (JStr ''scheduling.purestorage.io/v1alpha1'') @
      opt ''metadata'' (jc_meta C (sd_ObjectMeta d) \<noteq> None)
        (case jc_meta C (sd_ObjectMeta d) of None \<Rightarrow> JNull | Some j \<Rightarrow> j) @
      always ''spec'' (SchedulingDecisionSpec_json (sd_Spec d)) @
      opt ''status'' (sd_Status d \<noteq> zero_Status) (SchedulingDecisionStatus_json C (sd_Status d)))"

section \<open>Decoding\<close>

text \<open>
  A missing field and a null leave the zero value, unknown fields are ignored, a value of the
  wrong kind or a number out of range is an error.
\<close>

definition json_field :: "(string \<times> json) list \<Rightarrow> string \<Rightarrow> (json \<Rightarrow> 'a option) \<Rightarrow> 'a \<Rightarrow> 'a option" where
  "json_field kvs k dec z =
     (case map_of kvs k of None \<Rightarrow> Some z | Some j \<Rightarrow> if j = JNull then Some z else dec j)"

fun str_of_json :: "json \<Rightarrow> string option" where
  "str_of_json (JStr s) = Some s"
| "str_of_json _ = None"

fun int_of_json :: "json \<Rightarrow> int option" where
  "int_of_json (JNum n) = (if int64 n then Some n else None)"
| "int_of_json _ = None"

fun array_of_json :: "(json \<Rightarrow> 'a option) \<Rightarrow> json \<Rightarrow> 'a list option" where
  "array_of_json dec (JArr js) = those (map dec js)"
| "array_of_json dec _ = None"

fun object_of_json :: "((string \<times> json) list \<Rightarrow> 'a option) \<Rightarrow> json \<Rightarrow> 'a option" where
  "object_of_json dec (JObj kvs) = dec kvs"
| "object_of_json dec _ = None"

fun time_of_json :: "json_calls \<Rightarrow> json \<Rightarrow> gotime option" where
  "time_of_json C (JStr s) = jc_parseTime C s"
| "time_of_json C _ = None"

text \<open>The schema admits no other outcomes, so none arrive from the server.\<close>

definition outcome_of_json :: "json \<Rightarrow> SchedulingOutcome option" where
  "outcome_of_json j =
     (case str_of_json j of
        None \<Rightarrow> None
      | Some s \<Rightarrow> find (\<lambda>x. outcome_string x = s)
          [OutcomeUnset, SchedulingOutcomeScheduled, SchedulingOutcomeFailedScheduling, SchedulingOutcomePreempted])"

definition CandidateNode_of_json :: "json \<Rightarrow> CandidateNode option" where
  "CandidateNode_of_json = object_of_json (\<lambda>kvs. do {
     name \<leftarrow> json_field kvs ''name'' str_of_json '''';
     filterResult \<leftarrow> json_field kvs ''filterResult'' str_of_json '''';
     score \<leftarrow> json_field kvs ''score'' (\<lambda>j. map_option Some (int_of_json j)) None;
     Some \<lparr>cn_Name = name, cn_FilterResult = filterResult, cn_Score = score\<rparr> })"

definition VolumeContext_of_json :: "json \<Rightarrow> VolumeContext option" where
  "VolumeContext_of_json = object_of_json (\<lambda>kvs. do {
     pvcName \<leftarrow> json_field kvs ''pvcName'' str_of_json '''';
     storageClass \<leftarrow> json_field kvs ''storageClass'' str_of_json '''';
     driverType \<leftarrow> json_field kvs ''driverType'' str_of_json '''';
     bindingMode \<leftarrow> json_field kvs ''bindingMode'' str_of_json '''';
     topologyConstraint \<leftarrow> json_field kvs ''topologyConstraint'' str_of_json '''';
     Some \<lparr>vc_PVCName = pvcName, vc_StorageClass = storageClass, vc_DriverType = driverType,
           vc_BindingMode = bindingMode, vc_TopologyConstraint = topologyConstraint\<rparr> })"

definition SourceRef_of_json :: "json \<Rightarrow> SourceRef option" where
  "SourceRef_of_json = object_of_json (\<lambda>kvs. do {
     eventUID \<leftarrow> json_field kvs ''eventUID'' str_of_json '''';
     auditRequestID \<leftarrow> json_field kvs ''auditRequestID'' str_of_json '''';
     Some \<lparr>sr_EventUID = eventUID, sr_AuditRequestID = auditRequestID\<rparr> })"

definition SchedulingDecisionSpec_of_json :: "json \<Rightarrow> SchedulingDecisionSpec option" where
  "SchedulingDecisionSpec_of_json = object_of_json (\<lambda>kvs. do {
     podName \<leftarrow> json_field kvs ''podName'' str_of_json '''';
     podNamespace \<leftarrow> json_field kvs ''podNamespace'' str_of_json '''';
     podUID \<leftarrow> json_field kvs ''podUID'' str_of_json '''';
     schedulerName \<leftarrow> json_field kvs ''schedulerName'' str_of_json '''';
     volumeContext \<leftarrow> json_field kvs ''volumeContext'' (\<lambda>j. map_option Some (VolumeContext_of_json j)) None;
     Some \<lparr>sp_PodName = podName, sp_PodNamespace = podNamespace, sp_PodUID = podUID,
           sp_SchedulerName = schedulerName, sp_VolumeContext = volumeContext\<rparr> })"

definition SchedulingTransition_of_json :: "json_calls \<Rightarrow> json \<Rightarrow> SchedulingTransition option" where
  "SchedulingTransition_of_json C = object_of_json (\<lambda>kvs. do {
     outcome \<leftarrow> json_field kvs ''outcome'' outcome_of_json OutcomeUnset;
     chosenNode \<leftarrow> json_field kvs ''chosenNode'' str_of_json '''';
     reasonSummary \<leftarrow> json_field kvs ''reasonSummary'' str_of_json '''';
     decisionTimestamp \<leftarrow> json_field kvs ''decisionTimestamp'' (time_of_json C) zero_time;
     latency \<leftarrow> json_field kvs ''schedulingLatencyMs'' int_of_json 0;
     candidateNodes \<leftarrow> json_field kvs ''candidateNodes'' (array_of_json CandidateNode_of_json) [];
     sourceRef \<leftarrow> json_field kvs ''sourceRef'' SourceRef_of_json zero_SourceRef;
     Some \<lparr>tr_Outcome = outcome, tr_ChosenNode = chosenNode, tr_ReasonSummary = reasonSummary,
           tr_DecisionTimestamp = decisionTimestamp, tr_SchedulingLatencyMs = latency,
           tr_CandidateNodes = candidateNodes, tr_SourceRef = sourceRef\<rparr> })"

definition SchedulingDecisionStatus_of_json :: "json_calls \<Rightarrow> json \<Rightarrow> SchedulingDecisionStatus option" where
  "SchedulingDecisionStatus_of_json C = object_of_json (\<lambda>kvs. do {
     outcome \<leftarrow> json_field kvs ''outcome'' outcome_of_json OutcomeUnset;
     chosenNode \<leftarrow> json_field kvs ''chosenNode'' str_of_json '''';
     reasonSummary \<leftarrow> json_field kvs ''reasonSummary'' str_of_json '''';
     decisionTimestamp \<leftarrow> json_field kvs ''decisionTimestamp'' (time_of_json C) zero_time;
     latency \<leftarrow> json_field kvs ''schedulingLatencyMs'' int_of_json 0;
     transitions \<leftarrow> json_field kvs ''transitions'' (array_of_json (SchedulingTransition_of_json C)) [];
     Some \<lparr>st_Outcome = outcome, st_ChosenNode = chosenNode, st_ReasonSummary = reasonSummary,
           st_DecisionTimestamp = decisionTimestamp, st_SchedulingLatencyMs = latency,
           st_Transitions = transitions\<rparr> })"

definition zero_ObjectMeta :: ObjectMeta where
  "zero_ObjectMeta = \<lparr>om_Name = '''', om_Labels = Map.empty, om_ResourceVersion = ''''\<rparr>"

definition zero_Spec :: SchedulingDecisionSpec where
  "zero_Spec = \<lparr>sp_PodName = '''', sp_PodNamespace = '''', sp_PodUID = '''', sp_SchedulerName = '''',
     sp_VolumeContext = None\<rparr>"

definition SchedulingDecision_of_json :: "json_calls \<Rightarrow> json \<Rightarrow> SchedulingDecision option" where
  "SchedulingDecision_of_json C = object_of_json (\<lambda>kvs. do {
     metadata \<leftarrow> json_field kvs ''metadata'' (jc_parseMeta C) zero_ObjectMeta;
     spec \<leftarrow> json_field kvs ''spec'' SchedulingDecisionSpec_of_json zero_Spec;
     status \<leftarrow> json_field kvs ''status'' (SchedulingDecisionStatus_of_json C) zero_Status;
     Some \<lparr>sd_ObjectMeta = metadata, sd_Spec = spec, sd_Status = status\<rparr> })"

section \<open>Round trips\<close>

lemma json_field_Nil [simp]: "json_field [] k dec z = Some z"
  by (simp add: json_field_def)

lemma json_field_opt [simp]:
  "json_field (opt k c j @ kvs) k dec z =
     (if c then if j = JNull then Some z else dec j else json_field kvs k dec z)"
  "k' \<noteq> k \<Longrightarrow> json_field (opt k c j @ kvs) k' dec z = json_field kvs k' dec z"
  "json_field (opt k c j) k dec z = (if c \<and> j \<noteq> JNull then dec j else Some z)"
  "k' \<noteq> k \<Longrightarrow> json_field (opt k c j) k' dec z = Some z"
  by (simp_all add: json_field_def opt_def)

lemma omitted_value [simp]: "(if x = z then Some z else Some x) = Some x"
  by simp

lemma those_map_Some: "(\<And>x. x \<in> set xs \<Longrightarrow> dec (enc x) = Some (f x)) \<Longrightarrow> those (map dec (map enc xs)) = Some (map f xs)"
  by (induction xs) simp_all

lemma outcome_json [simp]: "outcome_of_json (JStr (outcome_string x)) = Some x"
  by (cases x) (simp_all add: outcome_of_json_def)

lemma outcome_string_empty [simp]: "outcome_string x = [] \<longleftrightarrow> x = OutcomeUnset"
  by (cases x) simp_all

text \<open>The values that fit into the fields: 64-bit numbers, and times with a four-digit year.\<close>

definition json_transition :: "SchedulingTransition \<Rightarrow> bool" where
  "json_transition t \<longleftrightarrow> json_time (tr_DecisionTimestamp t) \<and> int64 (tr_SchedulingLatencyMs t) \<and>
     list_all (\<lambda>n. pred_option int64 (cn_Score n)) (tr_CandidateNodes t)"

definition json_status :: "SchedulingDecisionStatus \<Rightarrow> bool" where
  "json_status s \<longleftrightarrow> json_time (st_DecisionTimestamp s) \<and> int64 (st_SchedulingLatencyMs s) \<and>
     list_all json_transition (st_Transitions s)"

text \<open>The metadata encoding keeps a value: it is left out only when it is zero.\<close>

definition meta_survives :: "json_calls \<Rightarrow> ObjectMeta \<Rightarrow> bool" where
  "meta_survives C m =
     (case jc_meta C m of None \<Rightarrow> m = zero_ObjectMeta
      | Some j \<Rightarrow> j \<noteq> JNull \<and> jc_parseMeta C j = Some m)"

lemma CandidateNode_round_trip:
  "pred_option int64 (cn_Score n) \<Longrightarrow> CandidateNode_of_json (CandidateNode_json n) = Some n"
  by (auto simp: CandidateNode_of_json_def CandidateNode_json_def split: option.split)

lemma VolumeContext_round_trip [simp]: "VolumeContext_of_json (VolumeContext_json v) = Some v"
  by (simp add: VolumeContext_of_json_def VolumeContext_json_def)

lemma SourceRef_round_trip [simp]: "SourceRef_of_json (SourceRef_json r) = Some r"
  by (simp add: SourceRef_of_json_def SourceRef_json_def)

lemma json_objects [simp]: "VolumeContext_json v \<noteq> JNull" "SourceRef_json r \<noteq> JNull"
  "SchedulingDecisionSpec_json s \<noteq> JNull" "SchedulingDecisionStatus_json C st \<noteq> JNull"
  by (simp_all add: VolumeContext_json_def SourceRef_json_def SchedulingDecisionSpec_json_def
      SchedulingDecisionStatus_json_def)

lemma Spec_round_trip [simp]: "SchedulingDecisionSpec_of_json (SchedulingDecisionSpec_json s) = Some s"
  by (auto simp: SchedulingDecisionSpec_of_json_def SchedulingDecisionSpec_json_def split: option.split)

locale json_lib =
  fixes C :: json_calls and ptime :: "gotime \<Rightarrow> gotime"
  assumes parse_time: "json_time t \<Longrightarrow> jc_parseTime C (jc_formatTime C t) = Some (ptime t)"
    and ptime_zero: "ptime zero_time = zero_time"
    and date_time: "json_time t \<Longrightarrow> jc_isDateTime C (jc_formatTime C t)"
    and meta_object: "jc_meta C m = Some j \<Longrightarrow> \<exists>kvs. j = JObj kvs"
begin

lemma time_field: "json_time t \<Longrightarrow>
    (if time_json C t = JNull then Some zero_time else time_of_json C (time_json C t)) = Some (ptime t)"
  using parse_time ptime_zero by (cases t) (auto simp: time_json_def time_is_zero_def zero_time_def)

lemma Transition_round_trip:
  assumes "json_transition t"
  shows "SchedulingTransition_of_json C (SchedulingTransition_json C t) = Some (persist_transition ptime t)"
proof -
  have "those (map CandidateNode_of_json (map CandidateNode_json (tr_CandidateNodes t))) =
      Some (map (\<lambda>n. n) (tr_CandidateNodes t))"
    using assms by (intro those_map_Some) (simp add: json_transition_def list_all_iff CandidateNode_round_trip)
  with assms show ?thesis
    by (simp add: SchedulingTransition_of_json_def SchedulingTransition_json_def time_field
        json_transition_def persist_transition_def)
qed

lemma Status_round_trip:
  assumes "json_status s"
  shows "SchedulingDecisionStatus_of_json C (SchedulingDecisionStatus_json C s) = Some (persist_status ptime s)"
proof -
  have "those (map (SchedulingTransition_of_json C) (map (SchedulingTransition_json C) (st_Transitions s))) =
      Some (map (persist_transition ptime) (st_Transitions s))"
    using assms by (intro those_map_Some) (simp add: json_status_def list_all_iff Transition_round_trip)
  with assms show ?thesis
    by (simp add: SchedulingDecisionStatus_of_json_def SchedulingDecisionStatus_json_def time_field
        json_status_def persist_status_def)
qed

lemma persist_zero: "persist_status ptime zero_Status = zero_Status"
  by (simp add: persist_status_def zero_Status_def ptime_zero)

lemma Decision_round_trip:
  assumes "json_status (sd_Status d)" and "meta_survives C (sd_ObjectMeta d)"
  shows "SchedulingDecision_of_json C (SchedulingDecision_json C d) =
    Some (d\<lparr>sd_Status := persist_status ptime (sd_Status d)\<rparr>)"
proof -
  have "(if sd_Status d \<noteq> zero_Status
        then SchedulingDecisionStatus_of_json C (SchedulingDecisionStatus_json C (sd_Status d))
        else Some zero_Status) = Some (persist_status ptime (sd_Status d))"
    using Status_round_trip [OF assms(1)] persist_zero by auto
  then show ?thesis
    using assms(2)
    by (auto simp: SchedulingDecision_of_json_def SchedulingDecision_json_def meta_survives_def
        split: option.splits if_splits)
qed

end

end
