(* ===== verification/Schema.thy ===== *)
theory Schema
  imports Wire_Json
begin

text \<open>
  The structural schema that the kubebuilder markers of the API types generate (required fields,
  the enum of outcomes, formats), what the server checks with it, and the result that everything
  the controller writes passes the check. The encoding is the one of \<open>Wire_Json\<close>, instantiated
  here with RFC 3339 times.
\<close>

section \<open>The schema\<close>

datatype schema =
    StringS
  | DateTimeS
  | EnumS "string list"
  | Int64S
  | ArrayS schema
  | ObjectS "string list" "(string \<times> schema) list"

text \<open>Validation: required fields are present, and known fields have the right form; null has none.\<close>

definition json_get :: "(string \<times> json) list \<Rightarrow> string \<Rightarrow> json option" where
  "json_get kvs k = map_of kvs k"

fun conforms :: "(string \<Rightarrow> bool) \<Rightarrow> schema \<Rightarrow> json \<Rightarrow> bool" where
  "conforms p StringS j = (case j of JStr s \<Rightarrow> True | _ \<Rightarrow> False)"
| "conforms p DateTimeS j = (case j of JStr s \<Rightarrow> p s | _ \<Rightarrow> False)"
| "conforms p (EnumS xs) j = (case j of JStr s \<Rightarrow> s \<in> set xs | _ \<Rightarrow> False)"
| "conforms p Int64S j = (case j of JNum n \<Rightarrow> int64 n | _ \<Rightarrow> False)"
| "conforms p (ArrayS s) j = (case j of JArr js \<Rightarrow> \<forall>x\<in>set js. conforms p s x | _ \<Rightarrow> False)"
| "conforms p (ObjectS req props) j =
     (case j of
        JObj kvs \<Rightarrow> set req \<subseteq> fst ` set kvs \<and>
          (\<forall>ks\<in>set props. case json_get kvs (fst ks) of None \<Rightarrow> True | Some x \<Rightarrow> conforms p (snd ks) x)
      | _ \<Rightarrow> False)"

definition outcomeSchema :: schema where
  "outcomeSchema = EnumS [''Scheduled'', ''FailedScheduling'', ''Preempted'']"

definition candidateNodeSchema :: schema where
  "candidateNodeSchema = ObjectS [''name'']
     [(''name'', StringS), (''filterResult'', StringS), (''score'', Int64S)]"

definition volumeContextSchema :: schema where
  "volumeContextSchema = ObjectS []
     [(''pvcName'', StringS), (''storageClass'', StringS), (''driverType'', StringS),
      (''bindingMode'', StringS), (''topologyConstraint'', StringS)]"

definition sourceRefSchema :: schema where
  "sourceRefSchema = ObjectS [] [(''eventUID'', StringS), (''auditRequestID'', StringS)]"

definition specSchema :: schema where
  "specSchema = ObjectS [''podName'', ''podNamespace'', ''podUID'']
     [(''podName'', StringS), (''podNamespace'', StringS), (''podUID'', StringS),
      (''schedulerName'', StringS), (''volumeContext'', volumeContextSchema)]"

definition transitionSchema :: schema where
  "transitionSchema = ObjectS [''outcome'', ''decisionTimestamp'']
     [(''outcome'', outcomeSchema), (''chosenNode'', StringS), (''reasonSummary'', StringS),
      (''decisionTimestamp'', DateTimeS), (''schedulingLatencyMs'', Int64S),
      (''candidateNodes'', ArrayS candidateNodeSchema), (''sourceRef'', sourceRefSchema)]"

definition statusSchema :: schema where
  "statusSchema = ObjectS []
     [(''outcome'', outcomeSchema), (''chosenNode'', StringS), (''reasonSummary'', StringS),
      (''decisionTimestamp'', DateTimeS), (''schedulingLatencyMs'', Int64S),
      (''transitions'', ArrayS transitionSchema)]"

definition decisionSchema :: schema where
  "decisionSchema = ObjectS [''spec'']
     [(''apiVersion'', StringS), (''kind'', StringS), (''metadata'', ObjectS [] []),
      (''spec'', specSchema), (''status'', statusSchema)]"

section \<open>What is written conforms\<close>

text \<open>A time that is written as text, and evidence whose times are such times.\<close>

definition written_time :: "gotime \<Rightarrow> bool" where
  "written_time t \<longleftrightarrow> json_time t \<and> \<not> time_is_zero t"

definition evidence_times :: "gotime \<Rightarrow> Pod \<Rightarrow> Event list \<Rightarrow> bool" where
  "evidence_times now pod events \<longleftrightarrow> written_time now \<and>
     list_all (\<lambda>e. written_time (eventTimestamp e)) events \<and>
     list_all (\<lambda>c. json_time (pc_LastTransitionTime c)) (pod_Conditions pod)"

lemma int64_0 [simp]: "int64 0"
  by (simp add: int64_def)

lemma latencyMs_int64: "int64 (latencyMs a b)"
proof -
  have "int64 (x sdiv 1000000)" if "int64 x" for x
    using that unfolding int64_def signed_divide_int_def by (auto simp: sgn_if abs_if)
  then show ?thesis by (simp add: latencyMs_def milliseconds_def time_sub_def)
qed

lemma decisionTimestamp_written:
  assumes "evidence_times now pod events" and "cond = None \<or> cond = podScheduledCondition pod"
    and "\<And>e. ev = Some e \<Longrightarrow> e \<in> set events"
  shows "written_time (decisionTimestamp now cond ev)"
proof -
  have c: "c \<in> set (pod_Conditions pod)" if "podScheduledCondition pod = Some c" for c
    using that by (auto simp: podScheduledCondition_def find_Some_iff)
  have e: "written_time (eventTimestamp e)" if "ev = Some e" for e
    using assms(1) assms(3) [OF that] by (simp add: evidence_times_def list_all_iff)
  show ?thesis
    using assms(1,2) c e
    by (auto simp: decisionTimestamp_def evidence_times_def written_time_def list_all_iff split: option.splits)
qed

lemma candidateNodesFrom_scores: "n \<in> set (candidateNodesFrom events) \<Longrightarrow> cn_Score n = None"
  by (auto simp: candidateNodesFrom_def split: option.splits if_splits)

lemma deriveTransition_json:
  assumes "deriveTransition now pod podFound events = Some (i, t)" and "evidence_times now pod events"
  shows "json_transition t \<and> \<not> time_is_zero (tr_DecisionTimestamp t) \<and> tr_Outcome t \<noteq> OutcomeUnset"
proof -
  have nodes: "\<forall>n\<in>set (tr_CandidateNodes t). cn_Score n = None" and "tr_Outcome t \<noteq> OutcomeUnset"
    using deriveTransition_fields_lemma [OF assms(1)] candidateNodesFrom_scores by (auto split: if_splits)
  moreover have "written_time (tr_DecisionTimestamp t) \<and> int64 (tr_SchedulingLatencyMs t)"
    using assms(1)
  proof (cases rule: deriveTransition_cases)
    case (preempted ev)
    then have t: "t = snd (identityAndTransitionFromPreemption pod podFound ev)" by simp
    from preempted(1) have "ev \<in> set events" by (blast dest: latestEventWithReason_Some)
    with assms(2) t show ?thesis
      by (auto simp: evidence_times_def list_all_iff latencyMs_int64)
  qed (use assms(2) in \<open>auto simp: latencyMs_int64 intro!: decisionTimestamp_written dest: latestEventWithReason_Some\<close>)
  ultimately show ?thesis by (simp add: json_transition_def written_time_def list_all_iff)
qed

lemma json_get_opt [simp]:
  "json_get (opt k c j @ kvs) x = (if x = k \<and> c then Some j else json_get kvs x)"
  "json_get (opt k c j) x = (if x = k \<and> c then Some j else None)"
  by (simp_all add: opt_def json_get_def)

lemma keys_opt [simp]: "fst ` set (opt k c j) = (if c then {k} else {})"
  by (simp add: opt_def)

lemma CandidateNode_conforms:
  "pred_option int64 (cn_Score n) \<Longrightarrow> conforms p candidateNodeSchema (CandidateNode_json n)"
  by (cases "cn_Score n") (simp_all add: candidateNodeSchema_def CandidateNode_json_def image_Un)

lemma Spec_conforms: "conforms p specSchema (SchedulingDecisionSpec_json s)"
proof -
  have "conforms p volumeContextSchema (VolumeContext_json v)" for v
    by (simp add: volumeContextSchema_def VolumeContext_json_def)
  then show ?thesis
    by (simp add: specSchema_def SchedulingDecisionSpec_json_def image_Un split: option.split)
qed

lemma outcome_conforms: "x \<noteq> OutcomeUnset \<Longrightarrow> conforms p outcomeSchema (JStr (outcome_string x))"
  by (cases x) (simp_all add: outcomeSchema_def)

lemma SourceRef_conforms: "conforms p sourceRefSchema (SourceRef_json r)"
  by (simp add: sourceRefSchema_def SourceRef_json_def)

text \<open>The transitions of a status that conforms.\<close>

lemma status_conforms_transitions:
  "conforms p statusSchema (SchedulingDecisionStatus_json C s) \<Longrightarrow> t \<in> set (st_Transitions s) \<Longrightarrow>
     conforms p transitionSchema (SchedulingTransition_json C t)"
  by (cases "st_Transitions s = []") (auto simp: statusSchema_def SchedulingDecisionStatus_json_def)

lemma decision_conforms_status:
  "conforms p decisionSchema (SchedulingDecision_json C d) \<Longrightarrow> t \<in> set (history_of d) \<Longrightarrow>
     conforms p transitionSchema (SchedulingTransition_json C t)"
  by (cases "sd_Status d = zero_Status")
    (auto simp: decisionSchema_def SchedulingDecision_json_def zero_Status_def intro: status_conforms_transitions)

context json_lib
begin

lemma time_conforms:
  "json_time t \<Longrightarrow> \<not> time_is_zero t \<Longrightarrow> conforms (jc_isDateTime C) DateTimeS (time_json C t)"
  by (simp add: time_json_def date_time)

lemma Transition_conforms:
  assumes "json_transition t" and "\<not> time_is_zero (tr_DecisionTimestamp t)" and "tr_Outcome t \<noteq> OutcomeUnset"
  shows "conforms (jc_isDateTime C) transitionSchema (SchedulingTransition_json C t)"
proof -
  have "\<forall>n\<in>set (tr_CandidateNodes t). conforms (jc_isDateTime C) candidateNodeSchema (CandidateNode_json n)"
    using assms(1) by (simp add: json_transition_def list_all_iff CandidateNode_conforms)
  moreover have "int64 (tr_SchedulingLatencyMs t)"
    "conforms (jc_isDateTime C) DateTimeS (time_json C (tr_DecisionTimestamp t))"
    using assms(1,2) by (simp_all add: json_transition_def time_conforms del: conforms.simps)
  ultimately show ?thesis
    using outcome_conforms [OF assms(3)] SourceRef_conforms
    by (simp add: transitionSchema_def SchedulingTransition_json_def image_Un)
qed

lemma applied_status_conforms:
  assumes "json_transition t" and "\<not> time_is_zero (tr_DecisionTimestamp t)" and "tr_Outcome t \<noteq> OutcomeUnset"
    and "\<And>t'. t' \<in> set (st_Transitions st) \<Longrightarrow> conforms (jc_isDateTime C) transitionSchema (SchedulingTransition_json C t')"
  shows "conforms (jc_isDateTime C) statusSchema (SchedulingDecisionStatus_json C (applyTransition st t))"
proof -
  have "\<forall>t'\<in>set (st_Transitions (applyTransition st t)).
      conforms (jc_isDateTime C) transitionSchema (SchedulingTransition_json C t')"
    using Transition_conforms [OF assms(1-3)] assms(4) by auto
  moreover have "int64 (tr_SchedulingLatencyMs t)"
    "conforms (jc_isDateTime C) DateTimeS (time_json C (tr_DecisionTimestamp t))"
    using assms(1,2) by (simp_all add: json_transition_def time_conforms del: conforms.simps)
  ultimately show ?thesis
    using outcome_conforms [OF assms(3)]
    by (simp add: statusSchema_def SchedulingDecisionStatus_json_def applyTransition_def)
qed

lemma decision_conforms:
  assumes "sd_Status d \<noteq> zero_Status \<Longrightarrow>
      conforms (jc_isDateTime C) statusSchema (SchedulingDecisionStatus_json C (sd_Status d))"
  shows "conforms (jc_isDateTime C) decisionSchema (SchedulingDecision_json C d)"
proof -
  have "conforms (jc_isDateTime C) (ObjectS [] []) j" if "jc_meta C m = Some j" for m j
    using meta_object [OF that] by auto
  with assms Spec_conforms show ?thesis
    by (auto simp: decisionSchema_def SchedulingDecision_json_def image_Un split: option.split)
qed

end

section \<open>RFC 3339\<close>

text \<open>
  The library as the program uses it: RFC 3339 times, and of the metadata the name, the version
  and the labels that the controller sets.
\<close>

definition label_fields :: "(string \<rightharpoonup> string) \<Rightarrow> (string \<times> json) list" where
  "label_fields ls = concat (map (\<lambda>k. case ls k of None \<Rightarrow> [] | Some v \<Rightarrow> [(k, JStr v)]) [podUIDLabel, ExpiresAtLabel])"

definition meta_json :: "ObjectMeta \<Rightarrow> json option" where
  "meta_json m = Some (JObj
     (opt_str ''name'' (om_Name m) @
      opt ''labels'' (label_fields (om_Labels m) \<noteq> []) (JObj (label_fields (om_Labels m))) @
      opt_str ''resourceVersion'' (om_ResourceVersion m)))"

definition labels_of_json :: "json \<Rightarrow> (string \<rightharpoonup> string) option" where
  "labels_of_json = object_of_json (\<lambda>kvs. Some (\<lambda>k. Option.bind (map_of kvs k) str_of_json))"

definition meta_of_json :: "json \<Rightarrow> ObjectMeta option" where
  "meta_of_json = object_of_json (\<lambda>kvs. do {
     name \<leftarrow> json_field kvs ''name'' str_of_json '''';
     labels \<leftarrow> json_field kvs ''labels'' labels_of_json Map.empty;
     version \<leftarrow> json_field kvs ''resourceVersion'' str_of_json '''';
     Some \<lparr>om_Name = name, om_Labels = labels, om_ResourceVersion = version\<rparr> })"

definition rfc_calls :: json_calls where
  "rfc_calls =
     \<lparr>jc_formatTime = format_rfc3339, jc_parseTime = parse_rfc3339,
      jc_isDateTime = (\<lambda>s. parse_rfc3339 s \<noteq> None), jc_meta = meta_json, jc_parseMeta = meta_of_json\<rparr>"

interpretation rfc: json_lib rfc_calls whole_seconds
  by unfold_locales
    (auto simp: rfc_calls_def parse_format_rfc3339 meta_json_def whole_seconds_def zero_time_def)

lemma label_fields_lookup:
  assumes "dom ls \<subseteq> {podUIDLabel, ExpiresAtLabel}"
  shows "(\<lambda>k. Option.bind (map_of (label_fields ls) k) str_of_json) = ls"
proof
  fix k
  show "Option.bind (map_of (label_fields ls) k) str_of_json = ls k"
    using assms
    by (cases "ls podUIDLabel"; cases "ls ExpiresAtLabel"; cases "ls k")
      (auto simp: label_fields_def dom_def)
qed

lemma meta_json_survives:
  assumes "dom (om_Labels m) \<subseteq> {podUIDLabel, ExpiresAtLabel}"
  shows "meta_survives rfc_calls m"
proof -
  note labels = label_fields_lookup [OF assms]
  moreover from labels have "label_fields (om_Labels m) = [] \<Longrightarrow> om_Labels m = (\<lambda>x. None)"
    by (metis bind.bind_lzero map_of.simps(1))
  ultimately show ?thesis
    by (cases m) (auto simp: meta_survives_def rfc_calls_def meta_json_def meta_of_json_def labels_of_json_def)
qed

section \<open>Properties\<close>

text \<open>
  C11: the wire round trip. Decoding the JSON form of a decision gives back its metadata and spec
  unchanged and its status as \<open>persist_status\<close> says: every field as it was, every timestamp cut
  to what its text keeps, omitted fields restored to their empty values. This is the law about
  stored objects on which the store model of the controller rests.
\<close>

theorem decision_json_round_trip:
  assumes "json_lib C ptime" and "json_status (sd_Status d)" and "meta_survives C (sd_ObjectMeta d)"
  shows "SchedulingDecision_of_json C (SchedulingDecision_json C d) =
    Some (d\<lparr>sd_Status := persist_status ptime (sd_Status d)\<rparr>)"
  using json_lib.Decision_round_trip [OF assms] .

text \<open>A decision with one transition, at a time with a fraction of a second.\<close>

definition wire_transition :: SchedulingTransition where
  "wire_transition =
     (newTransition SchedulingOutcomeScheduled (Time 63900000010 250000000))
       \<lparr>tr_ChosenNode := ''n1'', tr_CandidateNodes := [\<lparr>cn_Name = ''n1'', cn_FilterResult = '''', cn_Score = None\<rparr>]\<rparr>"

definition wire_decision :: SchedulingDecision where
  "wire_decision =
     (newDecision 5 ''sdec-u1'' \<lparr>pi_UID = ''u1'', pi_Name = ''web'', pi_Namespace = ''ns'', pi_SchedulerName = ''''\<rparr> None)
       \<lparr>sd_Status := applyTransition zero_Status wire_transition\<rparr>"

theorem decision_json_round_trip_witness:
  "SchedulingDecision_of_json rfc_calls (SchedulingDecision_json rfc_calls wire_decision) =
     Some (wire_decision\<lparr>sd_Status := persist_status whole_seconds (sd_Status wire_decision)\<rparr>) \<and>
   time_json rfc_calls (st_DecisionTimestamp (sd_Status wire_decision)) = JStr ''2025-11-29T08:00:10Z''"
proof
  have "json_status (sd_Status wire_decision)"
    by (simp add: wire_decision_def wire_transition_def applyTransition_def newTransition_def zero_Status_def
        json_status_def json_transition_def json_time_def)
  moreover have "meta_survives rfc_calls (sd_ObjectMeta wire_decision)"
    by (rule meta_json_survives) (auto simp: wire_decision_def newDecision_def)
  ultimately show "SchedulingDecision_of_json rfc_calls (SchedulingDecision_json rfc_calls wire_decision) =
     Some (wire_decision\<lparr>sd_Status := persist_status whole_seconds (sd_Status wire_decision)\<rparr>)"
    by (rule decision_json_round_trip [OF rfc.json_lib_axioms])
  show "time_json rfc_calls (st_DecisionTimestamp (sd_Status wire_decision)) = JStr ''2025-11-29T08:00:10Z''"
    by code_simp
qed

text \<open>
  C12: everything the controller writes is valid. The object it creates for a derived transition
  conforms to the resource's schema (its required fields present, its empty status left out), and
  so does every conforming object after the transition is applied to its status: the outcome is
  one of the enum, the required timestamps are texts and not null, and numbers have 64 bits. The
  hypothesis on the evidence is that the clock and the Event times are set and that all times
  have a four-digit year.
\<close>

theorem written_decisions_conform:
  assumes "json_lib C ptime" and "evidence_times now pod events"
    and "deriveTransition now pod podFound events = Some (i, t)"
  shows "conforms (jc_isDateTime C) decisionSchema (SchedulingDecision_json C (newDecision x name i vol)) \<and>
    (conforms (jc_isDateTime C) decisionSchema (SchedulingDecision_json C d) \<longrightarrow>
     conforms (jc_isDateTime C) decisionSchema
       (SchedulingDecision_json C (d\<lparr>sd_Status := applyTransition (sd_Status d) t\<rparr>)))"
proof (intro conjI impI)
  show "conforms (jc_isDateTime C) decisionSchema (SchedulingDecision_json C (newDecision x name i vol))"
    by (rule json_lib.decision_conforms [OF assms(1)]) simp
next
  assume "conforms (jc_isDateTime C) decisionSchema (SchedulingDecision_json C d)"
  note history = decision_conforms_status [OF this]
  from deriveTransition_json [OF assms(3,2)]
  show "conforms (jc_isDateTime C) decisionSchema
      (SchedulingDecision_json C (d\<lparr>sd_Status := applyTransition (sd_Status d) t\<rparr>))"
    by (intro json_lib.decision_conforms [OF assms(1)])
      (simp add: json_lib.applied_status_conforms [OF assms(1)] history del: conforms.simps)
qed

theorem written_decisions_conform_witness:
  "\<exists>i t d. deriveTransition (Time 63900000010 0) sample_pod True [] = Some (i, t) \<and>
     d = newDecision 5 ''sdec-u1'' i None \<and>
     conforms (jc_isDateTime rfc_calls) decisionSchema
       (SchedulingDecision_json rfc_calls (d\<lparr>sd_Status := applyTransition (sd_Status d) t\<rparr>))"
proof -
  have "deriveTransition (Time 63900000010 0) sample_pod True [] \<noteq> None" by code_simp
  then obtain i t where it: "deriveTransition (Time 63900000010 0) sample_pod True [] = Some (i, t)" by auto
  have "evidence_times (Time 63900000010 0) sample_pod []" by code_simp
  from written_decisions_conform [OF rfc.json_lib_axioms this it] it show ?thesis by blast
qed

end
