(* ===== verification/Page_Data.thy ===== *)
theory Page_Data
  imports Html Js_Numbers Schema "HOL-Library.AList" "HOL-Library.List_Lexorder"
begin

text \<open>
  The figures of the dashboard's page, \<open>cmd/dashboard/static/index.html\<close>: the accessors over the
  JSON of a decision, the statistics cards, the heatmap and the latency chart. The response is
  written from Go structs, so a field that is there has its type; a field that is missing or null
  is falsy to the page. Objects used as tables keep their keys in insertion order. Looking up a key
  that the object does not have finds what \<open>Object.prototype\<close> has under that name, a function or
  an accessor and never a number or a table: the page has no use for it, and the model gives
  \<open>None\<close>.
\<close>

section \<open>Reading a decision\<close>

definition js_prop :: "string \<Rightarrow> json \<Rightarrow> json option" where
  "js_prop k j = (case j of JObj kvs \<Rightarrow> (case map_of kvs k of Some JNull \<Rightarrow> None | x \<Rightarrow> x) | _ \<Rightarrow> None)"

definition js_field :: "string \<Rightarrow> string \<Rightarrow> json \<Rightarrow> json option" where
  "js_field a b d = Option.bind (js_prop a d) (js_prop b)"

definition js_text :: "json option \<Rightarrow> string" where
  "js_text x = (case x of Some (JStr s) \<Rightarrow> s | _ \<Rightarrow> '''')"

definition js_or :: "string \<Rightarrow> string \<Rightarrow> string" where
  "js_or s t = (if s = '''' then t else s)"

definition em_dash :: string where
  "em_dash = [CHR 0xE2, CHR 0x80, CHR 0x94]"

definition outcomeOf :: "json \<Rightarrow> string" where
  "outcomeOf d = js_text (js_field ''status'' ''outcome'' d)"

definition nodeOf :: "json \<Rightarrow> string" where
  "nodeOf d = js_text (js_field ''status'' ''chosenNode'' d)"

definition latency_ms :: "json \<Rightarrow> int" where
  "latency_ms d = (case js_field ''status'' ''schedulingLatencyMs'' d of Some (JNum n) \<Rightarrow> n | _ \<Rightarrow> 0)"

definition latencyOf :: "json \<Rightarrow> rat" where
  "latencyOf d = dbl (of_int (latency_ms d))"

definition schedulerOf :: "json \<Rightarrow> string" where
  "schedulerOf d = js_or (js_text (js_field ''spec'' ''schedulerName'' d)) ''(unknown)''"

definition driverOf :: "json \<Rightarrow> string" where
  "driverOf d = js_or (js_text (Option.bind (js_field ''spec'' ''volumeContext'' d) (js_prop ''driverType''))) em_dash"

definition transitionsOf :: "json \<Rightarrow> json list" where
  "transitionsOf d = (case js_field ''status'' ''transitions'' d of Some (JArr ts) \<Rightarrow> ts | _ \<Rightarrow> [])"

text \<open>An integer as text, as the page's numbers are up to \<open>2 ^ 53\<close>.\<close>

definition js_number :: "rat \<Rightarrow> string" where
  "js_number x = format_int \<lfloor>x\<rfloor>"

section \<open>Cards\<close>

record page_stats =
  ps_Scheduled :: nat
  ps_FailedScheduling :: nat
  ps_Preempted :: nat
  ps_latencySum :: rat
  ps_latencyCount :: nat

definition stats_step :: "page_stats \<Rightarrow> json \<Rightarrow> page_stats" where
  "stats_step st d =
     (let o' = outcomeOf d; lat = latencyOf d;
          st1 = (if o' = ''Scheduled'' then st\<lparr>ps_Scheduled := ps_Scheduled st + 1\<rparr>
                 else if o' = ''FailedScheduling'' then st\<lparr>ps_FailedScheduling := ps_FailedScheduling st + 1\<rparr>
                 else if o' = ''Preempted'' then st\<lparr>ps_Preempted := ps_Preempted st + 1\<rparr> else st)
      in if o' = ''Scheduled'' \<and> 0 < lat
         then st1\<lparr>ps_latencySum := dbl (ps_latencySum st + lat), ps_latencyCount := ps_latencyCount st + 1\<rparr>
         else st1)"

definition page_stats_of :: "json list \<Rightarrow> page_stats" where
  "page_stats_of list = foldl stats_step
     \<lparr>ps_Scheduled = 0, ps_FailedScheduling = 0, ps_Preempted = 0, ps_latencySum = 0, ps_latencyCount = 0\<rparr> list"

text \<open>The rounded mean of a sum and a positive count.\<close>

definition js_mean :: "rat \<Rightarrow> nat \<Rightarrow> int" where
  "js_mean s n = math_round (dbl (s / of_nat n))"

definition card_html :: "string \<times> string \<times> string \<Rightarrow> string" where
  "card_html c = (case c of (label, val, cls) \<Rightarrow>
     open_tag ''div'' [(''class'', ''card '' @ cls)] @ open_tag ''div'' [(''class'', ''label'')] @ label @ close_tag ''div'' @
     open_tag ''div'' [(''class'', ''value'')] @ val @ close_tag ''div'' @ close_tag ''div'')"

definition renderStats :: "json list \<Rightarrow> string" where
  "renderStats list =
     (let st = page_stats_of list;
          avgLatency = (if ps_latencyCount st \<noteq> 0 then js_mean (ps_latencySum st) (ps_latencyCount st) else 0)
      in concat (map card_html
           [(''Total decisions'', format_nat (length list), ''''),
            (''Scheduled'', format_nat (ps_Scheduled st), ''scheduled''),
            (''Failed scheduling'', format_nat (ps_FailedScheduling st), ''failed''),
            (''Preempted'', format_nat (ps_Preempted st), ''preempted''),
            (''Avg. latency (ms)'', format_int avgLatency, '''')]))"

section \<open>Tables\<close>

definition object_prototype :: "string list" where
  "object_prototype =
     [''constructor'', ''hasOwnProperty'', ''isPrototypeOf'', ''propertyIsEnumerable'', ''toLocaleString'',
      ''toString'', ''valueOf'', ''__proto__'', ''__defineGetter__'', ''__defineSetter__'',
      ''__lookupGetter__'', ''__lookupSetter__'']"

text \<open>\<open>obj[k] = f(obj[k])\<close>, for a table that is read before it is written.\<close>

definition js_tally :: "string \<Rightarrow> ('v option \<Rightarrow> 'v) \<Rightarrow> (string \<times> 'v) list \<Rightarrow> (string \<times> 'v) list option" where
  "js_tally k f obj =
     (if map_of obj k = None \<and> k \<in> set object_prototype then None
      else Some (AList.update k (f (map_of obj k)) obj))"

text \<open>\<open>Array.prototype.sort\<close> without a comparator: by UTF-16 code units, here from the UTF-8 bytes.\<close>

definition utf16_rank :: "char \<Rightarrow> nat" where
  "utf16_rank c =
     (let b = of_char c :: nat in if 240 \<le> b then b - 2 else if b = 238 \<or> b = 239 then b + 5 else b)"

definition js_key :: "string \<Rightarrow> nat list" where
  "js_key s = map utf16_rank s"

definition js_sorted :: "string list \<Rightarrow> string list" where
  "js_sorted ks = sort_key js_key ks"

text \<open>\<open>Object.keys\<close>: array indices in ascending order, then the other keys as inserted.\<close>

definition array_index :: "string \<Rightarrow> nat option" where
  "array_index k =
     (case parse_uint k of Inl _ \<Rightarrow> None
      | Inr n \<Rightarrow> if format_nat n = k \<and> n < 4294967295 then Some n else None)"

definition js_keys :: "(string \<times> 'v) list \<Rightarrow> string list" where
  "js_keys obj =
     (let ks = map fst obj
      in sort_key (the \<circ> array_index) (filter (\<lambda>k. array_index k \<noteq> None) ks) @ filter (\<lambda>k. array_index k = None) ks)"

section \<open>Heatmap\<close>

record heat =
  ht_counts :: "(string \<times> (string \<times> nat) list) list"
  ht_nodes :: "(string \<times> unit) list"
  ht_schedulers :: "(string \<times> unit) list"

definition heat_node :: "json \<Rightarrow> string" where
  "heat_node d = js_or (nodeOf d) ''(none)''"

definition heat_step :: "json \<Rightarrow> heat \<Rightarrow> heat option" where
  "heat_step d h =
     (if outcomeOf d \<noteq> ''Scheduled'' then Some h
      else
        let s = schedulerOf d; n = heat_node d
        in case js_tally n (\<lambda>v. case v of None \<Rightarrow> 1 | Some x \<Rightarrow> x + 1)
                  (case map_of (ht_counts h) s of None \<Rightarrow> [] | Some row \<Rightarrow> row) of
             None \<Rightarrow> None
           | Some row \<Rightarrow>
               (case js_tally s (\<lambda>_. row) (ht_counts h) of
                  None \<Rightarrow> None
                | Some counts \<Rightarrow>
                    Some \<lparr>ht_counts = counts, ht_nodes = AList.update n () (ht_nodes h),
                          ht_schedulers = AList.update s () (ht_schedulers h)\<rparr>))"

fun heat_fold :: "json list \<Rightarrow> heat \<Rightarrow> heat option" where
  "heat_fold [] h = Some h"
| "heat_fold (d # ds) h = Option.bind (heat_step d h) (heat_fold ds)"

definition heat_cell :: "heat \<Rightarrow> string \<Rightarrow> string \<Rightarrow> nat" where
  "heat_cell h s n =
     (case map_of (ht_counts h) s of None \<Rightarrow> 0
      | Some row \<Rightarrow> (case map_of row n of None \<Rightarrow> 0 | Some v \<Rightarrow> v))"

definition heat_max :: "heat \<Rightarrow> string list \<Rightarrow> string list \<Rightarrow> nat" where
  "heat_max h schedulerList nodeList =
     foldl max 1 (concat (map (\<lambda>s. map (heat_cell h s) nodeList) schedulerList))"

definition heat_alpha :: "nat \<Rightarrow> nat \<Rightarrow> rat" where
  "heat_alpha v m = dbl (dbl (15 / 100) + dbl (dbl (65 / 100) * dbl (of_nat v / of_nat m)))"

text \<open>\<open>toFixed(2)\<close>: the nearest number of hundredths, the larger one of two.\<close>

definition hundredths :: "rat \<Rightarrow> nat" where
  "hundredths x = nat \<lfloor>100 * x + 1 / 2\<rfloor>"

definition toFixed2 :: "rat \<Rightarrow> string" where
  "toFixed2 x = format_nat (hundredths x div 100) @ ''.'' @ fmt2 (hundredths x mod 100)"

definition cell_html :: "nat \<Rightarrow> nat \<Rightarrow> string" where
  "cell_html m v =
     open_tag ''td'' [(''class'', ''cell''),
       (''style'', if v \<noteq> 0 then ''background: rgba(54,84,224,'' @ toFixed2 (heat_alpha v m) @ '');'' else '''')] @
     (if v \<noteq> 0 then format_nat v else '''') @ close_tag ''td''"

definition heatmap_html :: "string list \<Rightarrow> string list \<Rightarrow> (string \<Rightarrow> string \<Rightarrow> nat) \<Rightarrow> nat \<Rightarrow> string" where
  "heatmap_html schedulerList nodeList cell m =
     open_tag ''table'' [(''id'', ''heatmap-table'')] @ open_tag ''thead'' [] @ open_tag ''tr'' [] @
     open_tag ''th'' [(''class'', ''row-label'')] @ (''Node '' @ [CHR 0x5C] @ '' Scheduler'') @ close_tag ''th'' @
     concat (map (\<lambda>s. open_tag ''th'' [] @ escapeHtml s @ close_tag ''th'') schedulerList) @
     close_tag ''tr'' @ close_tag ''thead'' @ open_tag ''tbody'' [] @
     concat (map (\<lambda>n. open_tag ''tr'' [] @
         open_tag ''td'' [(''class'', ''row-label'')] @ escapeHtml n @ close_tag ''td'' @
         concat (map (\<lambda>s. cell_html m (cell s n)) schedulerList) @ close_tag ''tr'') nodeList) @
     close_tag ''tbody'' @ close_tag ''table''"

definition renderHeatmap :: "json list \<Rightarrow> string option" where
  "renderHeatmap list =
     (case heat_fold list \<lparr>ht_counts = [], ht_nodes = [], ht_schedulers = []\<rparr> of
        None \<Rightarrow> None
      | Some h \<Rightarrow>
          let schedulerList = js_sorted (js_keys (ht_schedulers h));
              nodeList = js_sorted (js_keys (ht_nodes h))
          in Some (if schedulerList = []
               then open_tag ''div'' [(''class'', ''empty'')] @ ''No Scheduled decisions yet.'' @ close_tag ''div''
               else heatmap_html schedulerList nodeList (heat_cell h) (heat_max h schedulerList nodeList)))"

section \<open>Latency chart\<close>

record chart =
  ch_sums :: "(string \<times> rat) list"
  ch_counts :: "(string \<times> nat) list"

definition chart_step :: "json \<Rightarrow> chart \<Rightarrow> chart option" where
  "chart_step d c =
     (if outcomeOf d \<noteq> ''Scheduled'' \<or> latencyOf d \<le> 0 then Some c
      else
        let s = schedulerOf d
        in case js_tally s (\<lambda>v. dbl ((case v of None \<Rightarrow> 0 | Some x \<Rightarrow> x) + latencyOf d)) (ch_sums c) of
             None \<Rightarrow> None
           | Some sums' \<Rightarrow>
               (case js_tally s (\<lambda>v. (case v of None \<Rightarrow> 0 | Some x \<Rightarrow> x) + 1) (ch_counts c) of
                  None \<Rightarrow> None
                | Some counts \<Rightarrow> Some \<lparr>ch_sums = sums', ch_counts = counts\<rparr>))"

fun chart_fold :: "json list \<Rightarrow> chart \<Rightarrow> chart option" where
  "chart_fold [] c = Some c"
| "chart_fold (d # ds) c = Option.bind (chart_step d c) (chart_fold ds)"

definition chart_rows :: "chart \<Rightarrow> (string \<times> int) list" where
  "chart_rows c =
     sort_key (\<lambda>(_, avg). - avg)
       (map (\<lambda>s. (s, js_mean (the (map_of (ch_sums c) s)) (the (map_of (ch_counts c) s)))) (js_keys (ch_sums c)))"

definition bar_pct :: "int \<Rightarrow> int \<Rightarrow> int" where
  "bar_pct avg m = max 4 (math_round (dbl (dbl (of_int avg / of_int m) * 100)))"

definition chart_max :: "(string \<times> int) list \<Rightarrow> int" where
  "chart_max rows = (let m = Max (set (map snd rows)) in if m = 0 then 1 else m)"

definition bar_html :: "int \<Rightarrow> string \<times> int \<Rightarrow> string" where
  "bar_html m r = (case r of (name, avg) \<Rightarrow>
     open_tag ''div'' [(''class'', ''bar-row'')] @ open_tag ''div'' [(''class'', ''name'')] @ escapeHtml name @ close_tag ''div'' @
     open_tag ''div'' [(''class'', ''bar-track'')] @
     open_tag ''div'' [(''class'', ''bar-fill''), (''style'', ''width:'' @ format_int (bar_pct avg m) @ ''%'')] @
     close_tag ''div'' @ close_tag ''div'' @
     open_tag ''div'' [(''class'', ''val'')] @ (format_int avg @ '' ms'') @ close_tag ''div'' @ close_tag ''div'')"

definition renderLatencyChart :: "json list \<Rightarrow> string option" where
  "renderLatencyChart list =
     (case chart_fold list \<lparr>ch_sums = [], ch_counts = []\<rparr> of
        None \<Rightarrow> None
      | Some c \<Rightarrow>
          let rows = chart_rows c
          in Some (if rows = []
               then open_tag ''div'' [(''class'', ''empty'')] @ ''No latency data yet.'' @ close_tag ''div''
               else concat (map (bar_html (chart_max rows)) rows)))"

section \<open>What the figures are\<close>

lemma page_stats_count:
  "ps_Scheduled (page_stats_of list) = length (filter (\<lambda>d. outcomeOf d = ''Scheduled'') list)"
  "ps_FailedScheduling (page_stats_of list) = length (filter (\<lambda>d. outcomeOf d = ''FailedScheduling'') list)"
  "ps_Preempted (page_stats_of list) = length (filter (\<lambda>d. outcomeOf d = ''Preempted'') list)"
proof -
  have "ps_Scheduled (foldl stats_step st list) = ps_Scheduled st + length (filter (\<lambda>d. outcomeOf d = ''Scheduled'') list)"
    "ps_FailedScheduling (foldl stats_step st list) =
       ps_FailedScheduling st + length (filter (\<lambda>d. outcomeOf d = ''FailedScheduling'') list)"
    "ps_Preempted (foldl stats_step st list) = ps_Preempted st + length (filter (\<lambda>d. outcomeOf d = ''Preempted'') list)" for st
    by (induction list arbitrary: st) (simp_all add: stats_step_def Let_def)
  then show "ps_Scheduled (page_stats_of list) = length (filter (\<lambda>d. outcomeOf d = ''Scheduled'') list)"
    "ps_FailedScheduling (page_stats_of list) = length (filter (\<lambda>d. outcomeOf d = ''FailedScheduling'') list)"
    "ps_Preempted (page_stats_of list) = length (filter (\<lambda>d. outcomeOf d = ''Preempted'') list)"
    by (simp_all add: page_stats_of_def)
qed

text \<open>The decisions that have a latency to show, and the sum of their latencies as the page adds them up.\<close>

definition timed :: "json \<Rightarrow> bool" where
  "timed d \<longleftrightarrow> outcomeOf d = ''Scheduled'' \<and> 0 < latencyOf d"

definition dbl_sum :: "rat \<Rightarrow> rat list \<Rightarrow> rat" where
  "dbl_sum a ls = foldl (\<lambda>a l. dbl (a + l)) a ls"

lemma dbl_sum_simps [simp]: "dbl_sum a [] = a" "dbl_sum a (l # ls) = dbl_sum (dbl (a + l)) ls"
  by (simp_all add: dbl_sum_def)

lemma page_stats_latency:
  "ps_latencySum (page_stats_of list) = dbl_sum 0 (map latencyOf (filter timed list))"
  "ps_latencyCount (page_stats_of list) = length (filter timed list)"
proof -
  have "ps_latencySum (foldl stats_step st list) = dbl_sum (ps_latencySum st) (map latencyOf (filter timed list))"
    "ps_latencyCount (foldl stats_step st list) = ps_latencyCount st + length (filter timed list)" for st
    by (induction list arbitrary: st) (simp_all add: stats_step_def timed_def Let_def)
  then show "ps_latencySum (page_stats_of list) = dbl_sum 0 (map latencyOf (filter timed list))"
    "ps_latencyCount (page_stats_of list) = length (filter timed list)"
    by (simp_all add: page_stats_of_def)
qed

lemma dbl_sum_exact:
  assumes "\<And>n. n \<in> set ns \<Longrightarrow> 0 \<le> n" and "0 \<le> a" and "a + sum_list ns \<le> 2 ^ 53"
  shows "dbl_sum (of_int a) (map of_int ns) = of_int (a + sum_list ns)"
  using assms
proof (induction ns arbitrary: a)
  case (Cons n ns)
  have "0 \<le> sum_list ns" using Cons.prems(1) by (intro sum_list_nonneg) simp
  with Cons.prems have "dbl (of_int (a + n)) = of_int (a + n)" by (intro ieee.int_exact) auto
  with Cons.IH [of "a + n"] Cons.prems show ?case by (simp add: add.assoc)
qed simp

lemma int_member_le_sum_list: "n \<in> set ns \<Longrightarrow> (\<And>m. m \<in> set ns \<Longrightarrow> 0 \<le> m) \<Longrightarrow> n \<le> sum_list ns" for n :: int
proof (induction ns)
  case (Cons m ns)
  then have "0 \<le> sum_list ns" by (intro sum_list_nonneg) simp
  with Cons show ?case by (cases "n = m") (auto intro: order_trans)
qed simp

lemma int_sum_list_bounds:
  "\<forall>n\<in>set ns. lo \<le> n \<Longrightarrow> int (length ns) * lo \<le> sum_list ns"
  "\<forall>n\<in>set ns. n \<le> hi \<Longrightarrow> sum_list ns \<le> int (length ns) * hi"
  by (induction ns) (auto simp: algebra_simps)

text \<open>A mean lies between the least and the greatest of its values, rounding included.\<close>

lemma mean_between:
  assumes "ns \<noteq> []" and "\<And>n. n \<in> set ns \<Longrightarrow> lo \<le> n \<and> n \<le> hi" and "0 \<le> lo" and "sum_list ns \<le> 2 ^ 53"
  shows "lo \<le> js_mean (dbl_sum 0 (map of_int ns)) (length ns)" and "js_mean (dbl_sum 0 (map of_int ns)) (length ns) \<le> hi"
proof -
  let ?k = "int (length ns)" and ?hi = "min hi (2 ^ 53)"
  have nonneg: "0 \<le> n" if "n \<in> set ns" for n using assms(2) [OF that] assms(3) by simp
  have small: "n \<le> ?hi" if "n \<in> set ns" for n
    using int_member_le_sum_list [of n ns] that nonneg assms(2,4) by force
  have k: "0 < ?k" using assms(1) by simp
  have "?k * lo \<le> sum_list ns" "sum_list ns \<le> ?k * ?hi"
    using assms(2) small by (auto intro!: int_sum_list_bounds)
  then have "(of_int (?k * lo) :: rat) \<le> of_int (sum_list ns)" "(of_int (sum_list ns) :: rat) \<le> of_int (?k * ?hi)"
    by (simp_all only: of_int_le_iff)
  with k have "of_int lo \<le> (of_int (sum_list ns) :: rat) / of_nat (length ns)"
    "(of_int (sum_list ns) :: rat) / of_nat (length ns) \<le> of_int ?hi"
    by (simp_all add: le_divide_eq divide_le_eq mult.commute del: of_int_min)
  from math_round_between [OF ieee.between [OF this assms(3)]]
  have "lo \<le> math_round (dbl (of_int (sum_list ns) / of_nat (length ns)))"
    "math_round (dbl (of_int (sum_list ns) / of_nat (length ns))) \<le> ?hi" by simp_all
  moreover have "dbl_sum 0 (map of_int ns) = of_int (sum_list ns)"
    using dbl_sum_exact [of ns 0] nonneg assms(4) by simp
  ultimately show "lo \<le> js_mean (dbl_sum 0 (map of_int ns)) (length ns)"
    and "js_mean (dbl_sum 0 (map of_int ns)) (length ns) \<le> hi" by (simp_all add: js_mean_def)
qed

subsection \<open>Heatmap\<close>

lemma js_tally_lookup:
  "js_tally k f obj = Some obj' \<Longrightarrow> map_of obj' = (map_of obj)(k \<mapsto> f (map_of obj k)) \<and> obj' = AList.update k (f (map_of obj k)) obj"
  by (auto simp: js_tally_def update_conv' split: if_splits)

lemma js_tally_plain: "k \<notin> set object_prototype \<Longrightarrow> js_tally k f obj = Some (AList.update k (f (map_of obj k)) obj)"
  by (simp add: js_tally_def)

definition in_cell :: "string \<Rightarrow> string \<Rightarrow> json \<Rightarrow> bool" where
  "in_cell s n d \<longleftrightarrow> outcomeOf d = ''Scheduled'' \<and> schedulerOf d = s \<and> heat_node d = n"

lemma heat_step_cell:
  "heat_step d h = Some h' \<Longrightarrow> heat_cell h' s n = heat_cell h s n + (if in_cell s n d then 1 else 0)"
  by (auto simp: heat_step_def heat_cell_def in_cell_def Let_def
      split: if_splits option.splits dest!: js_tally_lookup)

lemma heat_fold_cell:
  "heat_fold ds h = Some h' \<Longrightarrow> heat_cell h' s n = heat_cell h s n + length (filter (in_cell s n) ds)"
  by (induction ds arbitrary: h) (auto simp: bind_eq_Some_conv heat_step_cell)

lemma heat_step_tables:
  "heat_step d h = Some h' \<Longrightarrow>
    (if outcomeOf d = ''Scheduled''
     then ht_nodes h' = AList.update (heat_node d) () (ht_nodes h) \<and>
       ht_schedulers h' = AList.update (schedulerOf d) () (ht_schedulers h)
     else h' = h)"
  by (auto simp: heat_step_def Let_def split: if_splits option.splits)

lemma heat_step_keys:
  "heat_step d h = Some h' \<Longrightarrow> distinct (map fst (ht_schedulers h)) \<and> distinct (map fst (ht_nodes h)) \<Longrightarrow>
    distinct (map fst (ht_schedulers h')) \<and> distinct (map fst (ht_nodes h')) \<and>
    fst ` set (ht_schedulers h') = (if outcomeOf d = ''Scheduled'' then {schedulerOf d} else {}) \<union> fst ` set (ht_schedulers h) \<and>
    fst ` set (ht_nodes h') = (if outcomeOf d = ''Scheduled'' then {heat_node d} else {}) \<union> fst ` set (ht_nodes h)"
  by (drule heat_step_tables) (simp add: dom_update distinct_update split: if_splits)

lemma heat_fold_keys:
  "heat_fold ds h = Some h' \<Longrightarrow> distinct (map fst (ht_schedulers h)) \<and> distinct (map fst (ht_nodes h)) \<Longrightarrow>
    distinct (map fst (ht_schedulers h')) \<and> distinct (map fst (ht_nodes h')) \<and>
    fst ` set (ht_schedulers h') = schedulerOf ` {d \<in> set ds. outcomeOf d = ''Scheduled''} \<union> fst ` set (ht_schedulers h) \<and>
    fst ` set (ht_nodes h') = heat_node ` {d \<in> set ds. outcomeOf d = ''Scheduled''} \<union> fst ` set (ht_nodes h)"
proof (induction ds arbitrary: h)
  case (Cons d ds)
  then obtain h1 where h1: "heat_step d h = Some h1" "heat_fold ds h1 = Some h'" by (auto simp: bind_eq_Some_conv)
  note step = heat_step_keys [OF h1(1) Cons.prems(2)]
  have "{x \<in> set (d # ds). outcomeOf x = ''Scheduled''} =
      (if outcomeOf d = ''Scheduled'' then {d} else {}) \<union> {x \<in> set ds. outcomeOf x = ''Scheduled''}" by auto
  with Cons.IH [OF h1(2)] step show ?case by (simp add: image_Un)
qed auto

definition plain_names :: "json \<Rightarrow> bool" where
  "plain_names d \<longleftrightarrow> schedulerOf d \<notin> set object_prototype \<and> heat_node d \<notin> set object_prototype"

lemma heat_fold_defined: "(\<And>d. d \<in> set ds \<Longrightarrow> plain_names d) \<Longrightarrow> \<exists>h'. heat_fold ds h = Some h'"
proof (induction ds arbitrary: h)
  case (Cons d ds)
  then have "\<exists>h1. heat_step d h = Some h1" by (simp add: heat_step_def Let_def js_tally_plain plain_names_def)
  with Cons show ?case by auto
qed simp

lemma js_keys_perm: "distinct (map fst obj) \<Longrightarrow> distinct (js_keys obj) \<and> set (js_keys obj) = fst ` set obj"
  by (auto simp: js_keys_def Let_def)

lemma js_sorted_props [simp]: "set (js_sorted ks) = set ks" "distinct (js_sorted ks) = distinct ks" "js_sorted ks = [] \<longleftrightarrow> ks = []"
  by (simp_all add: js_sorted_def) (metis length_0_conv length_sort)

end
