(* ===== verification/Page_Figures.thy ===== *)
theory Page_Figures
  imports Page_Data
begin

text \<open>
  What the browser sees of the page's figures: the markup of the cards, the heatmap and the latency
  chart as tokens, with every number and name in its place.
\<close>

section \<open>Markup\<close>

lemma renders_open_Cons:
  assumes "tag_name n" and "list_all (\<lambda>(k, v). tag_name k \<and> attr_value v) as"
    and "as' = map (\<lambda>(k, v). (k, unescape v)) as" and "renders s us"
  shows "renders (open_tag n as @ s) (Open n as' # us)"
  using renders_append [OF renders_open [OF assms(1)] assms(4), of as] assms(2,3) by (fastforce simp: list_all_iff)

lemma renders_close_Cons: "tag_name n \<Longrightarrow> renders s us \<Longrightarrow> renders (close_tag n @ s) (Close n # us)"
  using renders_append [OF renders_close, of n s us] by simp

lemma renders_text_Cons:
  assumes "CHR ''<'' \<notin> set t" and "x = unescape t" and "renders (close_tag n @ s) us"
  shows "renders (t @ close_tag n @ s) (text_token x @ us)"
  using renders_text [OF assms(1), of "''/'' @ n @ ''>'' @ s" us] assms(2,3) by (simp add: close_tag_def)

lemma renders_text_last:
  assumes "CHR ''<'' \<notin> set t" and "x = unescape t" and "tag_name n"
  shows "renders (t @ close_tag n) (text_token x @ [Close n])"
  using renders_text [OF assms(1), of "''/'' @ n @ ''>''" "[Close n]"] renders_close [OF assms(3)] assms(2)
  by (simp add: close_tag_def)

lemma renders_concat_Cons:
  assumes "\<And>x. x \<in> set xs \<Longrightarrow> renders (f x) (g x)" and "renders s us"
  shows "renders (concat (map f xs) @ s) (concat (map g xs) @ us)"
  using renders_append [OF renders_concat assms(2), of xs f g] assms(1) by blast

lemmas renders_rules = renders_open_Cons renders_close_Cons renders_text_Cons renders_text_last
  renders_concat_Cons renders_close

text \<open>Numbers are plain text, and so is what the page writes itself.\<close>

definition plain_text :: "string \<Rightarrow> bool" where
  "plain_text s \<longleftrightarrow> set s \<inter> {CHR ''&'', CHR ''<'', dquote} = {}"

lemma plain_text_simps [simp]:
  "plain_text []" "plain_text (c # s) \<longleftrightarrow> c \<notin> {CHR ''&'', CHR ''<'', dquote} \<and> plain_text s"
  "plain_text (s @ t) \<longleftrightarrow> plain_text s \<and> plain_text t"
  by (auto simp: plain_text_def)

lemma digit_plain: "is_digit c \<Longrightarrow> c \<notin> {CHR ''&'', CHR ''<'', dquote}"
  by (auto simp: is_digit_def dquote_def)

lemma format_nat_plain [simp]: "plain_text (format_nat n)"
  using format_nat_digits [of n] digit_plain by (auto simp: plain_text_def)

lemma format_int_plain [simp]: "plain_text (format_int i)"
  by (auto simp: format_int_def dquote_def)

lemma toFixed2_plain [simp]: "plain_text (toFixed2 x)"
proof -
  have "plain_text [digit_char d]" if "d < 10" for d using digit_plain [of "digit_char d"] that by simp
  then have "plain_text (fmt2 n)" if "n < 100" for n
    using that by (simp add: fmt2_def less_mult_imp_div_less)
  then show ?thesis by (simp add: toFixed2_def dquote_def)
qed

declare unescape.simps(2) [simp del]

lemma plain_textD: "plain_text s \<Longrightarrow> CHR ''<'' \<notin> set s" "plain_text s \<Longrightarrow> attr_value s" "plain_text s \<Longrightarrow> unescape s = s"
  by (auto simp: plain_text_def attr_value_def)

lemmas markup_simps = tag_name_def dquote_def plain_textD escapeHtml_inert

section \<open>Cards\<close>

definition card_tokens :: "string \<times> string \<times> string \<Rightarrow> token list" where
  "card_tokens c = (case c of (label, val, cls) \<Rightarrow>
     Open ''div'' [(''class'', ''card '' @ cls)] # Open ''div'' [(''class'', ''label'')] # text_token label @
     Close ''div'' # Open ''div'' [(''class'', ''value'')] # text_token val @ Close ''div'' # [Close ''div''])"

lemma renders_card:
  "plain_text label \<Longrightarrow> plain_text val \<Longrightarrow> plain_text cls \<Longrightarrow>
    renders (card_html (label, val, cls)) (card_tokens (label, val, cls))"
  unfolding card_html_def card_tokens_def prod.case
  by (intro renders_rules) (simp_all add: markup_simps)

section \<open>Heatmap\<close>

definition cell_tokens :: "nat \<Rightarrow> nat \<Rightarrow> token list" where
  "cell_tokens m v =
     Open ''td'' [(''class'', ''cell''),
       (''style'', if v \<noteq> 0 then ''background: rgba(54,84,224,'' @ toFixed2 (heat_alpha v m) @ '');'' else '''')] #
     text_token (if v \<noteq> 0 then format_nat v else '''') @ [Close ''td'']"

lemma renders_cell: "renders (cell_html m v) (cell_tokens m v)"
  unfolding cell_html_def cell_tokens_def
  by (intro renders_rules) (simp_all add: markup_simps)

definition heat_tokens :: "string list \<Rightarrow> string list \<Rightarrow> (string \<Rightarrow> string \<Rightarrow> nat) \<Rightarrow> nat \<Rightarrow> token list" where
  "heat_tokens S N cell m =
     Open ''table'' [(''id'', ''heatmap-table'')] # Open ''thead'' [] # Open ''tr'' [] #
     Open ''th'' [(''class'', ''row-label'')] # text_token (''Node '' @ [CHR 0x5C] @ '' Scheduler'') @ Close ''th'' #
     concat (map (\<lambda>s. Open ''th'' [] # text_token s @ [Close ''th'']) S) @
     Close ''tr'' # Close ''thead'' # Open ''tbody'' [] #
     concat (map (\<lambda>n. Open ''tr'' [] # Open ''td'' [(''class'', ''row-label'')] # text_token n @ Close ''td'' #
       concat (map (\<lambda>s. cell_tokens m (cell s n)) S) @ [Close ''tr'']) N) @
     Close ''tbody'' # [Close ''table'']"

lemma renders_heatmap:
  "renders (heatmap_html S N cell m) (heat_tokens S N cell m)"
  unfolding heatmap_html_def heat_tokens_def
  by (intro renders_rules renders_cell) (simp_all add: markup_simps)

section \<open>Latency chart\<close>

definition bar_tokens :: "int \<Rightarrow> string \<times> int \<Rightarrow> token list" where
  "bar_tokens m r = (case r of (name, avg) \<Rightarrow>
     Open ''div'' [(''class'', ''bar-row'')] # Open ''div'' [(''class'', ''name'')] # text_token name @ Close ''div'' #
     Open ''div'' [(''class'', ''bar-track'')] #
     Open ''div'' [(''class'', ''bar-fill''), (''style'', ''width:'' @ format_int (bar_pct avg m) @ ''%'')] #
     Close ''div'' # Close ''div'' #
     Open ''div'' [(''class'', ''val'')] # text_token (format_int avg @ '' ms'') @ Close ''div'' # [Close ''div''])"

lemma renders_bar: "renders (bar_html m r) (bar_tokens m r)"
proof (cases r)
  case (Pair name avg)
  show ?thesis
    unfolding Pair bar_html_def bar_tokens_def prod.case
    by (intro renders_rules) (simp_all add: markup_simps)
qed

definition timed_at :: "string \<Rightarrow> json \<Rightarrow> bool" where
  "timed_at s d \<longleftrightarrow> timed d \<and> schedulerOf d = s"

lemma chart_step_cases:
  "chart_step d c = Some c' \<Longrightarrow>
    (if timed d then
       ch_sums c' = AList.update (schedulerOf d)
         (dbl ((case map_of (ch_sums c) (schedulerOf d) of None \<Rightarrow> 0 | Some x \<Rightarrow> x) + latencyOf d)) (ch_sums c) \<and>
       ch_counts c' = AList.update (schedulerOf d)
         ((case map_of (ch_counts c) (schedulerOf d) of None \<Rightarrow> 0 | Some x \<Rightarrow> x) + 1) (ch_counts c)
     else c' = c)"
  by (auto simp: chart_step_def timed_def Let_def split: if_splits option.splits dest!: js_tally_lookup)

lemma chart_fold_sums:
  "chart_fold ds c = Some c' \<Longrightarrow>
    map_of (ch_sums c') s =
      (if filter (timed_at s) ds = [] then map_of (ch_sums c) s
       else Some (dbl_sum (case map_of (ch_sums c) s of None \<Rightarrow> 0 | Some x \<Rightarrow> x) (map latencyOf (filter (timed_at s) ds)))) \<and>
    map_of (ch_counts c') s =
      (if filter (timed_at s) ds = [] then map_of (ch_counts c) s
       else Some ((case map_of (ch_counts c) s of None \<Rightarrow> 0 | Some x \<Rightarrow> x) + length (filter (timed_at s) ds)))"
proof (induction ds arbitrary: c)
  case (Cons d ds)
  then obtain c1 where c1: "chart_step d c = Some c1" "chart_fold ds c1 = Some c'" by (auto simp: bind_eq_Some_conv)
  from chart_step_cases [OF c1(1)] Cons.IH [OF c1(2)] show ?case
    by (auto simp: timed_at_def [of s d] update_conv' split: if_splits)
qed simp

lemma chart_fold_keys:
  "chart_fold ds c = Some c' \<Longrightarrow> distinct (map fst (ch_sums c)) \<Longrightarrow>
    distinct (map fst (ch_sums c')) \<and> fst ` set (ch_sums c') = schedulerOf ` {d \<in> set ds. timed d} \<union> fst ` set (ch_sums c)"
proof (induction ds arbitrary: c)
  case (Cons d ds)
  then obtain c1 where c1: "chart_step d c = Some c1" "chart_fold ds c1 = Some c'" by (auto simp: bind_eq_Some_conv)
  have "{x \<in> set (d # ds). timed x} = (if timed d then {d} else {}) \<union> {x \<in> set ds. timed x}" by auto
  with chart_step_cases [OF c1(1)] Cons.IH [OF c1(2)] Cons.prems(2) show ?case
    by (auto simp: dom_update distinct_update split: if_splits)
qed simp

definition empty_chart :: chart where
  "empty_chart = \<lparr>ch_sums = [], ch_counts = []\<rparr>"

text \<open>A row per scheduler with a latency to show, and its mean.\<close>

lemma chart_rows_set:
  assumes "chart_fold ds empty_chart = Some c"
  shows "set (chart_rows c) =
    (\<lambda>s. (s, js_mean (dbl_sum 0 (map latencyOf (filter (timed_at s) ds))) (length (filter (timed_at s) ds)))) `
      schedulerOf ` {d \<in> set ds. timed d}"
proof -
  have keys: "distinct (map fst (ch_sums c)) \<and> fst ` set (ch_sums c) = schedulerOf ` {d \<in> set ds. timed d}"
    using chart_fold_keys [OF assms] by (simp add: empty_chart_def)
  then have set_keys: "set (js_keys (ch_sums c)) = schedulerOf ` {d \<in> set ds. timed d}"
    using js_keys_perm [of "ch_sums c"] by simp
  have rows: "set (chart_rows c) = (\<lambda>s. (s, js_mean (the (map_of (ch_sums c) s)) (the (map_of (ch_counts c) s)))) `
      set (js_keys (ch_sums c))" by (simp add: chart_rows_def)
  show ?thesis
    unfolding rows set_keys
  proof (rule image_cong [OF refl])
    fix s assume "s \<in> schedulerOf ` {d \<in> set ds. timed d}"
    then have "filter (timed_at s) ds \<noteq> []" by (auto simp: filter_empty_conv timed_at_def)
    with chart_fold_sums [OF assms, of s]
    show "(s, js_mean (the (map_of (ch_sums c) s)) (the (map_of (ch_counts c) s))) =
      (s, js_mean (dbl_sum 0 (map latencyOf (filter (timed_at s) ds))) (length (filter (timed_at s) ds)))"
      by (simp add: empty_chart_def)
  qed
qed

lemma chart_rows_sorted: "sorted (rev (map snd (chart_rows c)))"
proof -
  have "sorted (map (\<lambda>(_, avg). - avg) (chart_rows c))" unfolding chart_rows_def by (rule sorted_sort_key)
  moreover have "sorted (rev (map snd rs))" if "sorted (map (\<lambda>(_, avg). - avg) rs)" for rs :: "(string \<times> int) list"
    using that by (induction rs) (auto simp: sorted_append)
  ultimately show ?thesis by blast
qed

lemma bar_pct_bounds:
  assumes "0 \<le> avg" and "avg \<le> m" and "0 < m"
  shows "4 \<le> bar_pct avg m" and "bar_pct avg m \<le> 100"
proof -
  have "(0 :: rat) \<le> of_int avg / of_int m" "of_int avg / of_int m \<le> (1 :: rat)"
    using assms by (simp_all add: divide_le_eq)
  then have "of_int 0 \<le> dbl (of_int avg / of_int m) * 100" "dbl (of_int avg / of_int m) * 100 \<le> of_int 100"
    using ieee.between [of 0 "of_int avg / of_int m" 1] by simp_all
  from math_round_between [OF ieee.between [OF this]] show "4 \<le> bar_pct avg m" and "bar_pct avg m \<le> 100"
    by (simp_all add: bar_pct_def)
qed

lemma chart_max_ge: "r \<in> set rows \<Longrightarrow> 0 \<le> snd r \<Longrightarrow> snd r \<le> chart_max rows \<and> 0 < chart_max rows"
proof -
  assume "r \<in> set rows" and "0 \<le> snd r"
  then have "snd r \<le> Max (set (map snd rows))" by (intro Max_ge) auto
  with \<open>0 \<le> snd r\<close> show ?thesis by (auto simp: chart_max_def Let_def)
qed

lemma chart_fold_defined: "(\<And>d. d \<in> set ds \<Longrightarrow> plain_names d) \<Longrightarrow> \<exists>c'. chart_fold ds c = Some c'"
proof (induction ds arbitrary: c)
  case (Cons d ds)
  then have "\<exists>c1. chart_step d c = Some c1" by (simp add: chart_step_def Let_def js_tally_plain plain_names_def)
  with Cons show ?case by auto
qed simp

lemma chart_rows_distinct:
  assumes "chart_fold ds empty_chart = Some c"
  shows "distinct (map fst (chart_rows c))"
proof -
  have "distinct (js_keys (ch_sums c))"
    using chart_fold_keys [OF assms] js_keys_perm [of "ch_sums c"] by (simp add: empty_chart_def)
  then have "inj_on fst (set (chart_rows c))" "distinct (chart_rows c)"
    by (auto simp: chart_rows_def distinct_map inj_on_def)
  then show ?thesis by (simp add: distinct_map)
qed

text \<open>The mean of a scheduler is between its least and its greatest latency.\<close>

lemma chart_row_bounds:
  assumes "\<forall>d\<in>set ds. plain_names d \<and> 0 \<le> latency_ms d" and "sum_list (map latency_ms ds) \<le> 2 ^ 53"
    and "chart_fold ds empty_chart = Some c" and "(s, avg) \<in> set (chart_rows c)"
  shows "(\<exists>d\<in>set ds. timed_at s d \<and> latency_ms d \<le> avg) \<and> (\<exists>d\<in>set ds. timed_at s d \<and> avg \<le> latency_ms d) \<and> 0 \<le> avg"
proof -
  define xs where "xs = filter (timed_at s) ds"
  define ns where "ns = map latency_ms xs"
  from assms(4) have avg: "avg = js_mean (dbl_sum 0 (map latencyOf xs)) (length xs)" and "xs \<noteq> []"
    unfolding chart_rows_set [OF assms(3)] by (auto simp: xs_def filter_empty_conv timed_at_def)
  have small: "latency_ms d \<le> 2 ^ 53" if "d \<in> set ds" for d
    using int_member_le_sum_list [of "latency_ms d" "map latency_ms ds"] that assms(1,2) by force
  have "map latencyOf xs = map of_int ns"
    using assms(1) small by (auto simp: ns_def xs_def latencyOf_def intro: ieee.int_exact)
  then have mean: "avg = js_mean (dbl_sum 0 (map of_int ns)) (length ns)"
    unfolding avg by (simp only: ns_def length_map)
  have "sum_list ns \<le> 2 ^ 53"
  proof -
    have "sum_list (map latency_ms (filter P ds)) \<le> sum_list (map latency_ms ds)" for P
      using assms(1) by (induction ds) auto
    with assms(2) show ?thesis unfolding ns_def xs_def by (rule order_trans [rotated])
  qed
  moreover have ns: "ns \<noteq> []" "\<And>n. n \<in> set ns \<Longrightarrow> Min (set ns) \<le> n \<and> n \<le> Max (set ns)" "0 \<le> Min (set ns)"
  proof -
    show "ns \<noteq> []" using \<open>xs \<noteq> []\<close> by (simp add: ns_def)
    moreover have "\<forall>n\<in>set ns. 0 \<le> n" using assms(1) by (auto simp: ns_def xs_def)
    ultimately show "0 \<le> Min (set ns)" by simp
  qed simp
  ultimately have "Min (set ns) \<le> avg" "avg \<le> Max (set ns)"
    unfolding mean by (blast intro: mean_between)+
  moreover have "Min (set ns) \<in> set ns" "Max (set ns) \<in> set ns" using ns(1) by simp_all
  ultimately show ?thesis using ns(3) by (auto simp: ns_def xs_def)
qed

section \<open>Properties\<close>

text \<open>
  Every decision falls into one cell: the cells add up to the number of decisions counted.
\<close>

lemma partition_count:
  assumes "finite A" and "\<And>d. d \<in> set ds \<Longrightarrow> P d \<Longrightarrow> f d \<in> A"
  shows "(\<Sum>x\<in>A. length (filter (\<lambda>d. P d \<and> f d = x) ds)) = length (filter P ds)"
  using assms(2)
proof (induction ds)
  case (Cons d ds)
  have "(\<Sum>x\<in>A. length (filter (\<lambda>d. P d \<and> f d = x) (d # ds))) =
      (\<Sum>x\<in>A. (if f d = x then (if P d then 1 else 0) else 0)) + (\<Sum>x\<in>A. length (filter (\<lambda>d. P d \<and> f d = x) ds))"
    unfolding sum.distrib [symmetric] by (rule sum.cong) auto
  also have "(\<Sum>x\<in>A. (if f d = x then (if P d then 1 else 0 :: nat) else 0)) = (if P d then 1 else 0)"
    using assms(1) Cons.prems by (auto simp: sum.delta')
  finally show ?case using Cons by simp
qed simp

lemma cells_total:
  assumes "distinct S" and "distinct N"
    and "\<And>d. d \<in> set ds \<Longrightarrow> outcomeOf d = ''Scheduled'' \<Longrightarrow> schedulerOf d \<in> set S \<and> heat_node d \<in> set N"
  shows "(\<Sum>n\<leftarrow>N. \<Sum>s\<leftarrow>S. length (filter (in_cell s n) ds)) = length (filter (\<lambda>d. outcomeOf d = ''Scheduled'') ds)"
proof -
  have "(\<Sum>n\<leftarrow>N. \<Sum>s\<leftarrow>S. length (filter (in_cell s n) ds)) = (\<Sum>(n, s)\<in>set N \<times> set S. length (filter (in_cell s n) ds))"
    using assms(1,2) by (simp add: sum_list_distinct_conv_sum_set sum.cartesian_product)
  also have "\<dots> = (\<Sum>x\<in>set N \<times> set S.
      length (filter (\<lambda>d. outcomeOf d = ''Scheduled'' \<and> (heat_node d, schedulerOf d) = x) ds))"
    by (rule sum.cong [OF refl]) (auto simp: in_cell_def intro!: arg_cong [where f = length] filter_cong)
  also have "\<dots> = length (filter (\<lambda>d. outcomeOf d = ''Scheduled'') ds)"
    using assms(3) by (intro partition_count) auto
  finally show ?thesis .
qed

lemma heat_max_ge:
  assumes "s \<in> set S" and "n \<in> set N"
  shows "heat_cell h s n \<le> heat_max h S N" and "1 \<le> heat_max h S N"
proof -
  have fold: "a \<le> foldl max a xs \<and> (\<forall>x\<in>set xs. x \<le> foldl max a xs)" for a :: nat and xs
  proof (induction xs arbitrary: a)
    case (Cons x xs)
    from Cons [of "max a x"] show ?case by auto
  qed simp
  have "heat_cell h s n \<in> set (concat (map (\<lambda>s. map (heat_cell h s) N) S))" using assms by auto
  then show "heat_cell h s n \<le> heat_max h S N" and "1 \<le> heat_max h S N"
    unfolding heat_max_def using fold by blast+
qed

lemma heat_alpha_bounds:
  assumes "1 \<le> v" and "v \<le> m"
  shows "15 \<le> hundredths (heat_alpha v m)" and "hundredths (heat_alpha v m) \<le> 80"
proof -
  let ?q = "dbl (of_nat v / of_nat m)" and ?base = "dbl (15 / 100)" and ?scale = "dbl (65 / 100)"
  have q: "0 \<le> ?q" "?q \<le> 1"
    using assms ieee.between [of 0 "of_nat v / of_nat m" 1] by (simp_all add: divide_le_eq)
  have base: "157286 / 2 ^ 20 \<le> ?base" "?base \<le> 157287 / 2 ^ 20"
    using ieee.between_dyadic [of 157286 20 "15 / 100" 157287] by simp_all
  have scale: "0 \<le> ?scale" "?scale \<le> 681575 / 2 ^ 20"
    using ieee.between_dyadic [of 0 20 "65 / 100" 681575] by simp_all
  have "0 \<le> ?scale * ?q" "?scale * ?q \<le> ?scale"
    using q scale(1) by (simp_all add: mult_left_le)
  then have "0 \<le> dbl (?scale * ?q)" "dbl (?scale * ?q) \<le> 681575 / 2 ^ 20"
    using ieee.between_dyadic [of 0 20 "?scale * ?q" 681575] scale(2) by simp_all
  with base have "157286 / 2 ^ 20 \<le> heat_alpha v m" "heat_alpha v m \<le> 838862 / 2 ^ 20"
    using ieee.between_dyadic [of 157286 20 "?base + dbl (?scale * ?q)" 838862] by (simp_all add: heat_alpha_def)
  then have "15 \<le> \<lfloor>100 * heat_alpha v m + 1 / 2\<rfloor>" "\<lfloor>100 * heat_alpha v m + 1 / 2\<rfloor> \<le> 80"
    by (simp_all add: le_floor_iff floor_le_iff)
  then show "15 \<le> hundredths (heat_alpha v m)" and "hundredths (heat_alpha v m) \<le> 80"
    unfolding hundredths_def by linarith+
qed

text \<open>Two decisions as the server sends them, one of them with a name that has to be escaped.\<close>

definition sample_json :: "string \<Rightarrow> string \<Rightarrow> string \<Rightarrow> int \<Rightarrow> json" where
  "sample_json name outcome node latency =
     JObj [(''metadata'', JObj [(''name'', JStr name), (''creationTimestamp'', JStr ''2026-01-01T00:00:00Z'')]),
       (''spec'', JObj [(''podName'', JStr name), (''podNamespace'', JStr ''ns''), (''podUID'', JStr name),
          (''schedulerName'', JStr ''a<b'')]),
       (''status'', JObj [(''outcome'', JStr outcome), (''chosenNode'', JStr node),
          (''decisionTimestamp'', JStr ''2026-01-02T00:00:00Z''), (''schedulingLatencyMs'', JNum latency)])]"

definition sample_list :: "json list" where
  "sample_list = [sample_json ''p'' ''Scheduled'' ''n1'' 7, sample_json ''q'' ''Preempted'' ''n2'' 9]"

lemma sample_list_fields:
  "\<forall>d\<in>set sample_list. plain_names d \<and> 0 \<le> latency_ms d" "sum_list (map latency_ms sample_list) = 16"
  "{d \<in> set sample_list. outcomeOf d = ''Scheduled''} = {sample_json ''p'' ''Scheduled'' ''n1'' 7}"
  "schedulerOf (sample_json ''p'' ''Scheduled'' ''n1'' 7) = ''a<b''" "heat_node (sample_json ''p'' ''Scheduled'' ''n1'' 7) = ''n1''"
  "latency_ms (sample_json ''p'' ''Scheduled'' ''n1'' 7) = 7"
proof -
  have fields: "outcomeOf (sample_json name outcome node latency) = outcome"
    "schedulerOf (sample_json name outcome node latency) = ''a<b''"
    "heat_node (sample_json name outcome node latency) = js_or node ''(none)''"
    "latency_ms (sample_json name outcome node latency) = latency" for name outcome node latency
    by (simp_all add: sample_json_def outcomeOf_def schedulerOf_def heat_node_def nodeOf_def latency_ms_def js_field_def
        js_prop_def js_text_def js_or_def)
  show "\<forall>d\<in>set sample_list. plain_names d \<and> 0 \<le> latency_ms d" "sum_list (map latency_ms sample_list) = 16"
    "schedulerOf (sample_json ''p'' ''Scheduled'' ''n1'' 7) = ''a<b''" "heat_node (sample_json ''p'' ''Scheduled'' ''n1'' 7) = ''n1''"
    "latency_ms (sample_json ''p'' ''Scheduled'' ''n1'' 7) = 7"
    by (simp_all add: sample_list_def fields plain_names_def js_or_def object_prototype_def)
  have "{d \<in> set sample_list. outcomeOf d = ''Scheduled''} = set (filter (\<lambda>d. outcomeOf d = ''Scheduled'') sample_list)" by auto
  then show "{d \<in> set sample_list. outcomeOf d = ''Scheduled''} = {sample_json ''p'' ''Scheduled'' ''n1'' 7}"
    by (simp add: sample_list_def fields)
qed

lemma set_eq_singleton: "(\<And>x. x \<in> A \<Longrightarrow> x = a) \<Longrightarrow> A \<noteq> {} \<Longrightarrow> A = {a}"
  by blast

lemma sample_timed: "{d \<in> set sample_list. timed d} = {sample_json ''p'' ''Scheduled'' ''n1'' 7}"
proof -
  have "0 < latencyOf (sample_json ''p'' ''Scheduled'' ''n1'' 7)"
    using ieee.int_exact [of 7] by (simp add: latencyOf_def sample_list_fields)
  with sample_list_fields(3) show ?thesis unfolding timed_def by blast
qed

text \<open>
  A scheduled decision whose scheduler has a name of \<open>Object.prototype\<close>: what the page reads as the
  counts of that scheduler is not a table of its own.
\<close>

theorem heatmap_inherited_name:
  assumes "outcomeOf d = ''Scheduled''" and "schedulerOf d \<in> set object_prototype"
  shows "renderHeatmap (d # ds) = None"
  using assms by (simp add: renderHeatmap_def heat_step_def js_tally_def Let_def)

text \<open>
  C34: the heatmap. When a decision is scheduled (and no scheduler or node has the name of a member
  of \<open>Object.prototype\<close>), the browser reads a table whose columns are the schedulers and whose
  rows are the nodes of the scheduled decisions, each once and in order, their names exactly as
  they are; every cell shows how many scheduled decisions have that scheduler and node, empty for
  none, with an opacity from 0.15 to 0.80 when there is one, and the cells add up to the number on
  the card of scheduled decisions.
\<close>

theorem heatmap_shows_counts:
  assumes "\<forall>d\<in>set list. plain_names d" and "\<exists>d\<in>set list. outcomeOf d = ''Scheduled''"
  shows "\<exists>html S N m. renderHeatmap list = Some html \<and>
    html_tokens html = Some (heat_tokens S N (\<lambda>s n. length (filter (in_cell s n) list)) m) \<and>
    distinct S \<and> sorted (map js_key S) \<and> set S = schedulerOf ` {d \<in> set list. outcomeOf d = ''Scheduled''} \<and>
    distinct N \<and> sorted (map js_key N) \<and> set N = heat_node ` {d \<in> set list. outcomeOf d = ''Scheduled''} \<and>
    (\<forall>s\<in>set S. \<forall>n\<in>set N. let v = length (filter (in_cell s n) list) in
       v \<noteq> 0 \<longrightarrow> 15 \<le> hundredths (heat_alpha v m) \<and> hundredths (heat_alpha v m) \<le> 80) \<and>
    (\<Sum>n\<leftarrow>N. \<Sum>s\<leftarrow>S. length (filter (in_cell s n) list)) = ps_Scheduled (page_stats_of list)"
proof -
  obtain h where h: "heat_fold list \<lparr>ht_counts = [], ht_nodes = [], ht_schedulers = []\<rparr> = Some h"
    using heat_fold_defined assms(1) by blast
  define S N where "S = js_sorted (js_keys (ht_schedulers h))" and "N = js_sorted (js_keys (ht_nodes h))"
  have keys: "distinct (map fst (ht_schedulers h))" "distinct (map fst (ht_nodes h))"
    "fst ` set (ht_schedulers h) = schedulerOf ` {d \<in> set list. outcomeOf d = ''Scheduled''}"
    "fst ` set (ht_nodes h) = heat_node ` {d \<in> set list. outcomeOf d = ''Scheduled''}"
    using heat_fold_keys [OF h] by simp_all
  have S: "distinct S" "set S = schedulerOf ` {d \<in> set list. outcomeOf d = ''Scheduled''}" "sorted (map js_key S)"
    using js_keys_perm [OF keys(1)] keys(3) by (simp_all add: S_def) (simp add: js_sorted_def)
  have N: "distinct N" "set N = heat_node ` {d \<in> set list. outcomeOf d = ''Scheduled''}" "sorted (map js_key N)"
    using js_keys_perm [OF keys(2)] keys(4) by (simp_all add: N_def) (simp add: js_sorted_def)
  have cell: "heat_cell h = (\<lambda>s n. length (filter (in_cell s n) list))"
    using heat_fold_cell [OF h] by (intro ext) (simp add: heat_cell_def)
  from S(2) assms(2) have "S \<noteq> []" by auto
  then have html: "renderHeatmap list = Some (heatmap_html S N (heat_cell h) (heat_max h S N))"
    by (simp add: renderHeatmap_def h Let_def flip: S_def N_def)
  have alpha: "15 \<le> hundredths (heat_alpha v m) \<and> hundredths (heat_alpha v m) \<le> 80"
    if "s \<in> set S" "n \<in> set N" "v = length (filter (in_cell s n) list)" "v \<noteq> 0" "m = heat_max h S N" for s n v m
    using heat_alpha_bounds [of v m] heat_max_ge [OF that(1,2), of h] that(3-5) by (simp add: cell)
  have total: "(\<Sum>n\<leftarrow>N. \<Sum>s\<leftarrow>S. length (filter (in_cell s n) list)) = ps_Scheduled (page_stats_of list)"
    unfolding page_stats_count using S N by (intro cells_total) auto
  show ?thesis
    using html renders_tokens [OF renders_heatmap [of S N "heat_cell h" "heat_max h S N"]] S N alpha total
    unfolding cell Let_def by blast
qed

theorem heatmap_shows_counts_witness:
  "\<exists>html m. renderHeatmap sample_list = Some html \<and>
     html_tokens html = Some (heat_tokens [''a<b''] [''n1''] (\<lambda>s n. length (filter (in_cell s n) sample_list)) m)"
proof -
  have "\<exists>d\<in>set sample_list. outcomeOf d = ''Scheduled''" using sample_list_fields(3) by blast
  moreover have "\<forall>d\<in>set sample_list. plain_names d" using sample_list_fields(1) by blast
  ultimately obtain html S N m
    where "renderHeatmap sample_list = Some html"
      "html_tokens html = Some (heat_tokens S N (\<lambda>s n. length (filter (in_cell s n) sample_list)) m)"
      "distinct S" "set S = {''a<b''}" "distinct N" "set N = {''n1''}"
    using heatmap_shows_counts [of sample_list]
    unfolding sample_list_fields(3) image_insert image_empty sample_list_fields(4,5) by metis
  moreover have "xs = [x]" if "distinct xs" "set xs = {x}" for xs and x :: string
    using that by (cases xs; cases "tl xs") auto
  ultimately show ?thesis by metis
qed

text \<open>
  C35: the latency chart. While the latencies of the decisions add up to at most \<open>2 ^ 53\<close> ms, the
  browser reads one bar for every scheduler that has scheduled a decision with a latency, the
  greatest mean first; a mean, rounded sums and all, is no less than some and no more than some
  latency of that scheduler, and the width of a bar is between 4 and 100 percent.
\<close>

theorem latency_chart_bars:
  assumes "\<forall>d\<in>set list. plain_names d \<and> 0 \<le> latency_ms d" and "sum_list (map latency_ms list) \<le> 2 ^ 53"
    and "\<exists>d\<in>set list. timed d"
  shows "\<exists>html rows. renderLatencyChart list = Some html \<and>
    html_tokens html = Some (concat (map (bar_tokens (chart_max rows)) rows)) \<and>
    sorted (rev (map snd rows)) \<and> distinct (map fst rows) \<and> fst ` set rows = schedulerOf ` {d \<in> set list. timed d} \<and>
    (\<forall>(s, avg)\<in>set rows.
       (\<exists>d\<in>set list. timed_at s d \<and> latency_ms d \<le> avg) \<and> (\<exists>d\<in>set list. timed_at s d \<and> avg \<le> latency_ms d) \<and>
       4 \<le> bar_pct avg (chart_max rows) \<and> bar_pct avg (chart_max rows) \<le> 100)"
proof -
  obtain c where c: "chart_fold list empty_chart = Some c" using chart_fold_defined assms(1) by blast
  let ?rows = "chart_rows c"
  have rows: "fst ` set ?rows = schedulerOf ` {d \<in> set list. timed d}"
    unfolding chart_rows_set [OF c] by (simp add: image_image)
  with assms(3) have "?rows \<noteq> []" by auto
  then have html: "renderLatencyChart list = Some (concat (map (bar_html (chart_max ?rows)) ?rows))"
    using c by (simp add: renderLatencyChart_def empty_chart_def Let_def)
  have bars: "(\<exists>d\<in>set list. timed_at s d \<and> latency_ms d \<le> avg) \<and> (\<exists>d\<in>set list. timed_at s d \<and> avg \<le> latency_ms d) \<and>
      4 \<le> bar_pct avg (chart_max ?rows) \<and> bar_pct avg (chart_max ?rows) \<le> 100" if "(s, avg) \<in> set ?rows" for s avg
    using chart_row_bounds [OF assms(1,2) c that] bar_pct_bounds [of avg "chart_max ?rows"] chart_max_ge [OF that] by simp
  have "html_tokens (concat (map (bar_html (chart_max ?rows)) ?rows)) = Some (concat (map (bar_tokens (chart_max ?rows)) ?rows))"
    by (intro renders_tokens renders_concat renders_bar)
  with html rows bars chart_rows_sorted [of c] chart_rows_distinct [OF c] show ?thesis by blast
qed

theorem latency_chart_bars_witness:
  "\<exists>html rows. renderLatencyChart sample_list = Some html \<and>
     html_tokens html = Some (concat (map (bar_tokens (chart_max rows)) rows)) \<and> set rows = {(''a<b'', 7)}"
proof -
  have "\<exists>d\<in>set sample_list. timed d" using sample_timed by blast
  with latency_chart_bars [of sample_list, OF sample_list_fields(1)] sample_list_fields(2) obtain html rows
    where r: "renderLatencyChart sample_list = Some html"
      "html_tokens html = Some (concat (map (bar_tokens (chart_max rows)) rows))" "fst ` set rows = {''a<b''}"
      "\<forall>(s, avg)\<in>set rows. (\<exists>d\<in>set sample_list. timed_at s d \<and> latency_ms d \<le> avg) \<and>
        (\<exists>d\<in>set sample_list. timed_at s d \<and> avg \<le> latency_ms d) \<and>
        4 \<le> bar_pct avg (chart_max rows) \<and> bar_pct avg (chart_max rows) \<le> 100"
    unfolding sample_timed image_insert image_empty sample_list_fields(4) by auto
  have "avg = 7" if "(s, avg) \<in> set rows" for s avg
  proof -
    have "latency_ms d = 7" if "d \<in> set sample_list" "timed d" for d
    proof -
      from that have "d \<in> {d \<in> set sample_list. timed d}" by simp
      then show ?thesis unfolding sample_timed using sample_list_fields(6) by simp
    qed
    moreover from bspec [OF r(4) that] obtain d d' where "d \<in> set sample_list" "timed_at s d" "latency_ms d \<le> avg"
      "d' \<in> set sample_list" "timed_at s d'" "avg \<le> latency_ms d'" by auto
    ultimately show ?thesis by (simp add: timed_at_def)
  qed
  moreover have "fst x = ''a<b''" if "x \<in> set rows" for x
    using imageI [OF that, of fst] unfolding r(3) by simp
  ultimately have "x = (''a<b'', 7)" if "x \<in> set rows" for x using that by (cases x) auto
  moreover have "set rows \<noteq> {}" using r(3) by (metis image_empty insert_not_empty)
  ultimately have "set rows = {(''a<b'', 7)}" by (rule set_eq_singleton)
  with r(1,2) show ?thesis by blast
qed

end
