(* ===== verification/Page_Table.thy ===== *)
theory Page_Table
  imports Page_Figures "HOL-Library.Multiset"
begin

text \<open>
  The table of the dashboard's page: the filters, the order, and the markup of a row with its
  history. Two library functions stay parameters: \<open>toLowerCase\<close>, of which only its effect on ASCII
  text is used, and \<open>localeCompare\<close>, which on two timestamps of the wire format orders them as
  texts; the locales \<open>lower_case\<close> and \<open>collation\<close> say so.
\<close>

section \<open>The order of timestamps\<close>

lemma div_mod_less: "n < n' \<longleftrightarrow> n div b < n' div b \<or> n div b = n' div b \<and> n mod b < n' mod b" if "0 < b" for n n' b :: nat
proof (cases "n div b = n' div b")
  case True
  then have "n < n' \<longleftrightarrow> n mod b < n' mod b" by (metis div_mult_mod_eq nat_add_left_cancel_less)
  with True show ?thesis by simp
next
  case False
  then show ?thesis using div_le_mono [of n n' b] div_le_mono [of n' n b] by (metis le_less not_less_iff_gr_or_eq)
qed

lemma div_mod_eq: "n = n' \<longleftrightarrow> n div b = n' div b \<and> n mod b = n' mod b" for n n' b :: nat
  by (metis div_mult_mod_eq)

lemma days_before_year_Suc: "0 < y \<Longrightarrow> days_before_year (Suc y) = days_before_year y + (if leap_year y then 366 else 365)"
proof -
  assume "0 < y"
  then obtain k where y: "y = Suc k" by (cases y) auto
  define a b c where "a = k div 4" and "b = k div 100" and "c = k div 400"
  have le: "b \<le> k" by (simp add: b_def)
  have m: "Suc k mod 400 = 0 \<Longrightarrow> Suc k mod 100 = 0" "Suc k mod 100 = 0 \<Longrightarrow> Suc k mod 4 = 0"
    unfolding mod_eq_0_iff_dvd by (rule dvd_trans [rotated], assumption, simp)+
  have "Suc k div 4 = a + (if Suc k mod 4 = 0 then 1 else 0)" "Suc k div 100 = b + (if Suc k mod 100 = 0 then 1 else 0)"
    "Suc k div 400 = c + (if Suc k mod 400 = 0 then 1 else 0)" by (simp_all add: div_Suc a_def b_def c_def)
  then have "days_before_year (Suc y) = 365 * Suc k + (a + (if Suc k mod 4 = 0 then 1 else 0)) +
      (c + (if Suc k mod 400 = 0 then 1 else 0)) - (b + (if Suc k mod 100 = 0 then 1 else 0))"
    by (simp add: days_before_year_def Let_def y)
  moreover have "days_before_year y = 365 * k + a + c - b" by (simp add: days_before_year_def Let_def y a_def b_def c_def)
  moreover have "leap_year y \<longleftrightarrow> Suc k mod 4 = 0 \<and> (Suc k mod 100 \<noteq> 0 \<or> Suc k mod 400 = 0)" by (simp add: leap_year_def y)
  moreover have step: "365 * Suc k + (a + (if p then 1 else 0)) + (c + (if r then 1 else 0)) - (b + (if q then 1 else 0)) =
      365 * k + a + c - b + (if p \<and> (\<not> q \<or> r) then 366 else 365)" if "r \<Longrightarrow> q" "q \<Longrightarrow> p" for p q r
    using le that by (cases p; cases q; cases r) simp_all
  ultimately show ?thesis using step [OF m] by (simp only:)
qed

lemma days_before_year_mono: "0 < y \<Longrightarrow> y \<le> z \<Longrightarrow> days_before_year y \<le> days_before_year z"
proof (induction z)
  case (Suc z)
  then show ?case by (cases "y = Suc z") (auto simp: days_before_year_Suc)
qed simp

lemma month_day_less:
  "month_day ms d = (k, r) \<Longrightarrow> month_day ms d' = (k', r') \<Longrightarrow> d < d' \<Longrightarrow> k < k' \<or> k = k' \<and> r < r'"
proof (induction ms arbitrary: d d' k r k' r')
  case (Cons m ms)
  show ?case
  proof (cases "d < m")
    case True
    with Cons.prems show ?thesis by (auto split: if_splits prod.splits)
  next
    case False
    with Cons.prems obtain j j' where "month_day ms (d - m) = (j, r)" "month_day ms (d' - m) = (j', r')"
      "k = Suc j" "k' = Suc j'" by (auto split: if_splits prod.splits)
    with Cons.IH [of "d - m" j r "d' - m" j' r'] Cons.prems(3) False show ?thesis by auto
  qed
qed simp

lemma civil_date_less:
  assumes "civil_date n = (y, m, d)" and "civil_date n' = (y', m', d')" and "n < n'"
  shows "y < y' \<or> y = y' \<and> (m < m' \<or> m = m' \<and> d < d')"
proof -
  obtain k k' where yd: "year_yday n = (y, k)" "year_yday n' = (y', k')"
    using assms(1,2) by (auto simp: civil_date_def split: prod.splits)
  note inv = year_yday_inverse [OF yd(1)] year_yday_inverse [OF yd(2)]
  have "\<not> y' < y"
  proof
    assume "y' < y"
    then have "days_before_year (Suc y') \<le> days_before_year y" by (intro days_before_year_mono) auto
    with inv days_before_year_Suc [of y'] assms(3) show False by (auto split: if_splits)
  qed
  moreover have "m < m' \<or> m = m' \<and> d < d'" if "y = y'"
  proof -
    have "k < k'" using inv assms(3) that by simp
    with assms(1,2) yd that month_day_less [of "month_lengths y" k _ _ k'] show ?thesis
      by (auto simp: civil_date_def split: prod.splits)
  qed
  ultimately show ?thesis by auto
qed

lemma seconds_less:
  assumes "s < s'" and "s' < (86400 :: nat)"
  shows "s div 3600 < s' div 3600 \<or> s div 3600 = s' div 3600 \<and>
    (s div 60 mod 60 < s' div 60 mod 60 \<or> s div 60 mod 60 = s' div 60 mod 60 \<and> s mod 60 < s' mod 60)"
proof -
  have "s div 3600 = s div 60 div 60" "s' div 3600 = s' div 60 div 60" by (simp_all flip: div_mult2_eq)
  moreover have "s div 60 < s' div 60 \<or> s div 60 = s' div 60 \<and> s mod 60 < s' mod 60"
    using assms(1) div_mod_less [of 60 s s', OF zero_less_numeral] by blast
  ultimately show ?thesis
    using div_mod_less [of 60 "s div 60" "s' div 60", OF zero_less_numeral] div_mod_eq [of "s div 60" "s' div 60" 60] by metis
qed

lemma js_key_simps [simp]: "js_key [] = []" "js_key (c # s) = utf16_rank c # js_key s" "js_key (s @ t) = js_key s @ js_key t"
  by (simp_all add: js_key_def)

lemma js_key_fmt2:
  assumes "n < 100" and "n' < 100"
  shows "js_key (fmt2 n @ s) < js_key (fmt2 n' @ s') \<longleftrightarrow> n < n' \<or> n = n' \<and> js_key s < js_key s'"
proof -
  have rank: "utf16_rank (digit_char d) = 48 + d" if "d < 10" for d
    using that by (simp add: utf16_rank_def Let_def of_char_digit_char)
  have "n div 10 < 10" "n' div 10 < 10" using assms by simp_all
  then have "js_key (fmt2 n @ s) < js_key (fmt2 n' @ s') \<longleftrightarrow>
      n div 10 < n' div 10 \<or> n div 10 = n' div 10 \<and> (n mod 10 < n' mod 10 \<or> n mod 10 = n' mod 10 \<and> js_key s < js_key s')"
    by (simp add: fmt2_def rank)
  then show ?thesis using div_mod_less [of 10 n n', OF zero_less_numeral] div_mod_eq [of n n' 10] by blast
qed

text \<open>The texts of two times are ordered as the times are, to the second.\<close>

lemma format_rfc3339_less:
  assumes "json_time t" and "json_time u" and "tsec t < tsec u"
  shows "js_key (format_rfc3339 t) < js_key (format_rfc3339 u)"
proof -
  define n n' where "n = nat (tsec t)" and "n' = nat (tsec u)"
  obtain y m d where ymd: "civil_date (n div 86400) = (y, m, d)" by (metis prod_cases3)
  obtain y' m' d' where ymd': "civil_date (n' div 86400) = (y', m', d')" by (metis prod_cases3)
  have n: "n < n'" "n div 86400 < 3652059" "n' div 86400 < 3652059"
    using assms by (auto simp: n_def n'_def json_time_def)
  from civil_year_bound [OF ymd n(2)] civil_year_bound [OF ymd' n(3)] have y: "y < 10000" "y' < 10000" by simp_all
  have md: "m < 100" "d < 100" "m' < 100" "d' < 100"
    using civil_date_inverse [OF ymd] civil_date_inverse [OF ymd'] month_lengths_31 [of m y] month_lengths_31 [of m' y']
    by simp_all
  define s s' where "s = n mod 86400" and "s' = n' mod 86400"
  have hs: "s div 3600 < 100" "s div 60 mod 60 < 100" "s mod 60 < 100"
    "s' div 3600 < 100" "s' div 60 mod 60 < 100" "s' mod 60 < 100"
    using seconds_of_day(1) [of s] seconds_of_day(1) [of s'] by (simp_all add: s_def s'_def)
  have century: "y div 100 < 100" "y' div 100 < 100" "y mod 100 < 100" "y' mod 100 < 100"
    using y by simp_all
  have shape: "format_rfc3339 t = fmt2 (y div 100) @ fmt2 (y mod 100) @ ''-'' @ fmt2 m @ ''-'' @ fmt2 d @ ''T'' @
      fmt2 (s div 3600) @ '':'' @ fmt2 (s div 60 mod 60) @ '':'' @ fmt2 (s mod 60) @ ''Z''"
    "format_rfc3339 u = fmt2 (y' div 100) @ fmt2 (y' mod 100) @ ''-'' @ fmt2 m' @ ''-'' @ fmt2 d' @ ''T'' @
      fmt2 (s' div 3600) @ '':'' @ fmt2 (s' div 60 mod 60) @ '':'' @ fmt2 (s' mod 60) @ ''Z''"
    using ymd ymd' by (simp_all add: format_rfc3339_def Let_def fmt4_def s_def s'_def n_def n'_def)
  have order: "js_key (format_rfc3339 t) < js_key (format_rfc3339 u) \<longleftrightarrow>
      y < y' \<or> y = y' \<and> (m < m' \<or> m = m' \<and> (d < d' \<or> d = d' \<and>
        (s div 3600 < s' div 3600 \<or> s div 3600 = s' div 3600 \<and>
          (s div 60 mod 60 < s' div 60 mod 60 \<or> s div 60 mod 60 = s' div 60 mod 60 \<and> s mod 60 < s' mod 60))))"
    unfolding div_mod_less [of 100 y y', OF zero_less_numeral] div_mod_eq [of y y' 100]
    by (simp only: shape js_key_fmt2 century md hs append.simps js_key_simps(1,2) Cons_less_Cons order.irrefl simp_thms) blast
  have "n div 86400 < n' div 86400 \<or> n div 86400 = n' div 86400 \<and> s < s'"
    using n(1) div_mod_less [of 86400 n n', OF zero_less_numeral] unfolding s_def s'_def by blast
  then have "y < y' \<or> y = y' \<and> (m < m' \<or> m = m' \<and> (d < d' \<or> d = d' \<and> s < s'))"
    using civil_date_less [OF ymd ymd'] ymd ymd' by (metis prod.inject)
  moreover have "s' < 86400" by (simp add: s'_def)
  ultimately show ?thesis using order seconds_less [of s s'] by blast
qed

section \<open>Sorting\<close>

text \<open>\<open>Array.prototype.sort\<close> with a comparator is stable.\<close>

fun js_insert :: "('a \<Rightarrow> 'a \<Rightarrow> int) \<Rightarrow> 'a \<Rightarrow> 'a list \<Rightarrow> 'a list" where
  "js_insert cmp x [] = [x]"
| "js_insert cmp x (y # ys) = (if cmp x y \<le> 0 then x # y # ys else y # js_insert cmp x ys)"

definition js_sort :: "('a \<Rightarrow> 'a \<Rightarrow> int) \<Rightarrow> 'a list \<Rightarrow> 'a list" where
  "js_sort cmp xs = foldr (js_insert cmp) xs []"

lemma mset_js_insert [simp]: "mset (js_insert cmp x ys) = add_mset x (mset ys)"
  by (induction ys) auto

lemma mset_js_sort [simp]: "mset (js_sort cmp xs) = mset xs"
  by (induction xs) (simp_all add: js_sort_def)

lemma set_js_sort [simp]: "set (js_sort cmp xs) = set xs"
  by (metis mset_js_sort set_mset_mset)

lemma js_insert_sorted:
  fixes key :: "'a \<Rightarrow> 'k :: linorder"
  assumes "\<And>a b. a \<in> A \<Longrightarrow> b \<in> A \<Longrightarrow> cmp a b \<le> 0 \<longleftrightarrow> key b \<le> key a" and "x \<in> A" and "set ys \<subseteq> A"
    and "sorted_wrt (\<lambda>a b. key b \<le> key a) ys"
  shows "sorted_wrt (\<lambda>a b. key b \<le> key a) (js_insert cmp x ys)"
  using assms(3,4)
proof (induction ys)
  case (Cons y ys)
  have "set (js_insert cmp x ys) = insert x (set ys)" by (metis mset_js_insert set_mset_mset set_mset_add_mset_insert)
  with Cons assms(1) [of x y] assms(2) show ?case by (auto simp: not_le intro: order_trans less_imp_le)
qed simp

lemma js_sort_sorted:
  fixes key :: "'a \<Rightarrow> 'k :: linorder"
  assumes "\<And>a b. a \<in> set xs \<Longrightarrow> b \<in> set xs \<Longrightarrow> cmp a b \<le> 0 \<longleftrightarrow> key b \<le> key a"
  shows "sorted_wrt (\<lambda>a b. key b \<le> key a) (js_sort cmp xs)"
proof -
  have "sorted_wrt (\<lambda>a b. key b \<le> key a) (js_sort cmp ys)" if "set ys \<subseteq> set xs" for ys
    using that
  proof (induction ys)
    case (Cons y ys)
    have "set (js_sort cmp ys) \<subseteq> set xs" using Cons.prems by simp
    with Cons assms js_insert_sorted [of "set xs" cmp key y "js_sort cmp ys"] show ?case by (simp add: js_sort_def)
  qed (simp add: js_sort_def)
  then show ?thesis by simp
qed

section \<open>Library functions\<close>

record js_lib =
  lib_lower :: "string \<Rightarrow> string"
  lib_compare :: "string \<Rightarrow> string \<Rightarrow> int"

definition ascii_lower :: "char \<Rightarrow> char" where
  "ascii_lower c = (let b = of_char c :: nat in if 65 \<le> b \<and> b \<le> 90 then char_of (b + 32) else c)"

locale lower_case =
  fixes L :: js_lib
  assumes lower_ascii: "list_all (\<lambda>c. of_char c < (128 :: nat)) s \<Longrightarrow> lib_lower L s = map ascii_lower s"

locale collation =
  fixes L :: js_lib
  assumes compare_times: "json_time t \<Longrightarrow> json_time u \<Longrightarrow>
    lib_compare L (format_rfc3339 t) (format_rfc3339 u) \<le> 0 \<longleftrightarrow> js_key (format_rfc3339 t) \<le> js_key (format_rfc3339 u)"

text \<open>White space that \<open>trim\<close> removes: as in Go, without U+0085 and with U+FEFF.\<close>

definition js_spaces :: "string list" where
  "js_spaces = [CHR 0xEF, CHR 0xBB, CHR 0xBF] # removeAll [CHR 0xC2, CHR 0x85] space_runes"

definition js_trim :: "string \<Rightarrow> string" where
  "js_trim s = strip_right js_spaces (strip_left js_spaces s)"

section \<open>Filters\<close>

record page_filters =
  fl_outcome :: string
  fl_scheduler :: string
  fl_search :: string

definition matchesFilters :: "js_lib \<Rightarrow> page_filters \<Rightarrow> json \<Rightarrow> bool" where
  "matchesFilters L f d =
     (let search = lib_lower L (js_trim (fl_search f));
          hay = lib_lower L (js_text (js_field ''spec'' ''podName'' d) @ '' '' @
            js_text (js_field ''spec'' ''podNamespace'' d) @ '' '' @ nodeOf d)
      in \<not> (fl_outcome f \<noteq> '''' \<and> outcomeOf d \<noteq> fl_outcome f) \<and>
         \<not> (fl_scheduler f \<noteq> '''' \<and> schedulerOf d \<noteq> fl_scheduler f) \<and>
         \<not> (search \<noteq> '''' \<and> \<not> sublist search hay))"

section \<open>Rows\<close>

definition decision_time :: "json \<Rightarrow> string" where
  "decision_time d =
     js_or (js_text (js_field ''status'' ''decisionTimestamp'' d)) (js_text (js_field ''metadata'' ''creationTimestamp'' d))"

text \<open>
  \<open>new Date(ts).getTime()\<close> for a timestamp in the form the server writes; anything else is not a
  number here, and the arithmetic of the age carries that through to its last branch.
\<close>

definition formatAge :: "int \<Rightarrow> string \<Rightarrow> string" where
  "formatAge now ts =
     (if ts = '''' then em_dash
      else case parse_rfc3339 ts of
        None \<Rightarrow> ''NaNd''
      | Some t \<Rightarrow>
          let ms0 = now - 1000 * (tsec t - unix_epoch);
              ms = (if ms0 < 0 then 0 else ms0);
              s = ms div 1000; m = s div 60; h = m div 60
          in if s < 60 then format_int s @ ''s''
             else if m < 60 then format_int m @ ''m''
             else if h < 48 then format_int h @ ''h''
             else format_int (h div 24) @ ''d'')"

definition arrow :: string where
  "arrow = [CHR 0xE2, CHR 0x86, CHR 0x92]"

definition triangle :: "bool \<Rightarrow> string" where
  "triangle down = [CHR 0xE2, CHR 0x96, if down then CHR 0xBE else CHR 0xB8]"

definition js_name :: "json \<Rightarrow> string" where
  "js_name d = js_text (js_field ''metadata'' ''name'' d)"

text \<open>What a history line says after the outcome; \<open>esc\<close> is how data is put into it.\<close>

definition history_text :: "(string \<Rightarrow> string) \<Rightarrow> json \<Rightarrow> string" where
  "history_text esc t =
     '' at '' @ esc (js_text (js_prop ''decisionTimestamp'' t)) @
     (let n = js_text (js_prop ''chosenNode'' t) in if n \<noteq> '''' then '' '' @ arrow @ '' '' @ esc n else '''') @
     (let r = js_text (js_prop ''reasonSummary'' t) in if r \<noteq> '''' then '' '' @ em_dash @ '' '' @ esc r else '''')"

definition history_html :: "json \<Rightarrow> string" where
  "history_html t = open_tag ''li'' [] @ open_tag ''b'' [] @ escapeHtml (js_text (js_prop ''outcome'' t)) @ close_tag ''b'' @
     history_text escapeHtml t @ close_tag ''li''"

definition toggle_html :: "string list \<Rightarrow> json \<Rightarrow> string" where
  "toggle_html expanded d =
     (if 1 < length (transitionsOf d)
      then open_tag ''span'' [(''class'', ''row-toggle''), (''data-name'', escapeHtml (js_name d))] @
        (triangle (js_name d \<in> set expanded) @ '' '' @ format_nat (length (transitionsOf d))) @ close_tag ''span''
      else '''')"

definition row_html :: "js_lib \<Rightarrow> int \<Rightarrow> string list \<Rightarrow> json \<Rightarrow> string" where
  "row_html L now expanded d =
     open_tag ''tr'' [] @
     open_tag ''td'' [] @ toggle_html expanded d @ close_tag ''td'' @
     open_tag ''td'' [] @ escapeHtml (js_text (js_field ''spec'' ''podName'' d)) @ close_tag ''td'' @
     open_tag ''td'' [] @ escapeHtml (js_text (js_field ''spec'' ''podNamespace'' d)) @ close_tag ''td'' @
     open_tag ''td'' [] @ escapeHtml (schedulerOf d) @ close_tag ''td'' @
     open_tag ''td'' [] @ escapeHtml (js_or (nodeOf d) em_dash) @ close_tag ''td'' @
     open_tag ''td'' [] @ escapeHtml (driverOf d) @ close_tag ''td'' @
     open_tag ''td'' [] @ open_tag ''span'' [(''class'', ''badge '' @ lib_lower L (outcomeOf d))] @
       escapeHtml (outcomeOf d) @ close_tag ''span'' @ close_tag ''td'' @
     open_tag ''td'' [] @ (if latencyOf d = 0 then em_dash else js_number (latencyOf d)) @ close_tag ''td'' @
     open_tag ''td'' [] @ formatAge now (decision_time d) @ close_tag ''td'' @
     close_tag ''tr'' @
     (if js_name d \<in> set expanded \<and> transitionsOf d \<noteq> []
      then open_tag ''tr'' [(''class'', ''history-row'')] @ open_tag ''td'' [(''colspan'', ''9'')] @
        open_tag ''ul'' [(''class'', ''history-list'')] @ concat (map history_html (transitionsOf d)) @
        close_tag ''ul'' @ close_tag ''td'' @ close_tag ''tr''
      else '''')"

text \<open>\<open>d.metadata.name\<close> and \<open>d.spec.podName\<close> need their objects to be there; the rest is guarded.\<close>

definition renderable :: "json \<Rightarrow> bool" where
  "renderable d \<longleftrightarrow> js_prop ''metadata'' d \<noteq> None \<and> js_prop ''spec'' d \<noteq> None"

text \<open>The body of the table; \<open>None\<close> when the rendering throws a type error.\<close>

definition renderTable :: "js_lib \<Rightarrow> int \<Rightarrow> page_filters \<Rightarrow> string list \<Rightarrow> json list \<Rightarrow> string option" where
  "renderTable L now f expanded list =
     (let filtered = js_sort (\<lambda>a b. lib_compare L (decision_time b) (decision_time a)) (filter (matchesFilters L f) list)
      in if filtered = []
         then Some (open_tag ''tr'' [] @ open_tag ''td'' [(''colspan'', ''9''), (''style'', ''color:var(--muted); padding:20px 10px;'')] @
           ''No decisions match the current filters.'' @ close_tag ''td'' @ close_tag ''tr'')
         else if list_all renderable filtered then Some (concat (map (row_html L now expanded) filtered))
         else None)"

section \<open>What the browser sees\<close>

definition toggle_tokens :: "string list \<Rightarrow> json \<Rightarrow> token list" where
  "toggle_tokens expanded d =
     (if 1 < length (transitionsOf d)
      then [Open ''span'' [(''class'', ''row-toggle''), (''data-name'', js_name d)],
        Chars (triangle (js_name d \<in> set expanded) @ '' '' @ format_nat (length (transitionsOf d))), Close ''span'']
      else [])"

definition history_tokens :: "json \<Rightarrow> token list" where
  "history_tokens t = Open ''li'' [] # Open ''b'' [] # text_token (js_text (js_prop ''outcome'' t)) @ Close ''b'' #
     text_token (history_text id t) @ [Close ''li'']"

definition cell :: "string \<Rightarrow> token list" where
  "cell s = Open ''td'' [] # text_token s @ [Close ''td'']"

definition row_tokens :: "int \<Rightarrow> string list \<Rightarrow> json \<Rightarrow> token list" where
  "row_tokens now expanded d =
     Open ''tr'' [] # Open ''td'' [] # toggle_tokens expanded d @ Close ''td'' #
     cell (js_text (js_field ''spec'' ''podName'' d)) @ cell (js_text (js_field ''spec'' ''podNamespace'' d)) @
     cell (schedulerOf d) @ cell (js_or (nodeOf d) em_dash) @ cell (driverOf d) @
     Open ''td'' [] # Open ''span'' [(''class'', ''badge '' @ map ascii_lower (outcomeOf d))] #
       text_token (outcomeOf d) @ Close ''span'' # Close ''td'' #
     cell (if latencyOf d = 0 then em_dash else js_number (latencyOf d)) @
     cell (formatAge now (decision_time d)) @ Close ''tr'' #
     (if js_name d \<in> set expanded \<and> transitionsOf d \<noteq> []
      then Open ''tr'' [(''class'', ''history-row'')] # Open ''td'' [(''colspan'', ''9'')] #
        Open ''ul'' [(''class'', ''history-list'')] # concat (map history_tokens (transitionsOf d)) @
        Close ''ul'' # Close ''td'' # [Close ''tr'']
      else [])"

lemma em_dash_plain [simp]: "plain_text em_dash" and arrow_plain [simp]: "plain_text arrow"
  and triangle_plain [simp]: "plain_text (triangle b)" and js_number_plain [simp]: "plain_text (js_number x)"
  by (simp_all add: em_dash_def arrow_def triangle_def js_number_def dquote_def)

lemma plain_text_if: "plain_text s \<Longrightarrow> plain_text t \<Longrightarrow> plain_text (if b then s else t)"
  and plain_text_case: "plain_text s \<Longrightarrow> (\<And>x. plain_text (f x)) \<Longrightarrow> plain_text (case z of None \<Rightarrow> s | Some x \<Rightarrow> f x)"
  by (simp_all split: option.split)

lemma formatAge_plain [simp]: "plain_text (formatAge now ts)"
  unfolding formatAge_def Let_def by (intro plain_text_if plain_text_case) (simp_all add: dquote_def)

lemma attr_value_escape: "attr_value (escapeHtml s)"
  by (simp add: attr_value_def escapeHtml_inert)

lemma renders_td:
  assumes "CHR ''<'' \<notin> set t" and "x = unescape t" and "renders s us"
  shows "renders (open_tag ''td'' [] @ t @ close_tag ''td'' @ s) (cell x @ us)"
  unfolding cell_def append_Cons append_assoc append_Nil
  using assms by (intro renders_rules) (simp_all add: markup_simps)

lemma renders_toggle:
  assumes "renders s us"
  shows "renders (toggle_html expanded d @ s) (toggle_tokens expanded d @ us)"
proof (cases "1 < length (transitionsOf d)")
  case True
  have "text_token (triangle b @ '' '' @ format_nat n) = [Chars (triangle b @ '' '' @ format_nat n)]" for b n
    by (simp add: text_token_def)
  with True have tokens: "toggle_tokens expanded d = Open ''span'' [(''class'', ''row-toggle''), (''data-name'', js_name d)] #
      text_token (triangle (js_name d \<in> set expanded) @ '' '' @ format_nat (length (transitionsOf d))) @ [Close ''span'']"
    by (simp add: toggle_tokens_def)
  have "renders (toggle_html expanded d) (toggle_tokens expanded d)"
    unfolding tokens toggle_html_def if_P [OF True]
    by (intro renders_rules) (simp_all add: markup_simps attr_value_escape)
  with assms show ?thesis by (intro renders_append)
qed (use assms in \<open>simp add: toggle_html_def toggle_tokens_def\<close>)

lemma renders_if: "(b \<Longrightarrow> renders s us) \<Longrightarrow> (\<not> b \<Longrightarrow> renders t vs) \<Longrightarrow> renders (if b then s else t) (if b then us else vs)"
  by simp

lemma plain_text_no_amp: "plain_text s \<Longrightarrow> CHR ''&'' \<notin> set s"
  by (simp add: plain_text_def)

lemma history_text_escape: "CHR ''<'' \<notin> set (history_text escapeHtml t)" "unescape (history_text escapeHtml t) = history_text id t"
proof -
  have blank: "unescape ('' '' @ p @ '' '' @ s) = '' '' @ p @ '' '' @ unescape s" if "plain_text p" for p s
    using unescape_plain_append [of "'' '' @ p @ '' ''" s] plain_text_no_amp [OF that] by simp
  have "unescape (r @ s) = r @ unescape s" if "r \<in> {'' at ''}" for r s
    using that by (intro unescape_plain_append) auto
  then show "unescape (history_text escapeHtml t) = history_text id t"
    using blank [OF em_dash_plain] blank [OF arrow_plain]
    by (simp add: history_text_def Let_def unescape_escapeHtml_append del: append_Cons)
  show "CHR ''<'' \<notin> set (history_text escapeHtml t)"
    by (simp add: history_text_def Let_def escapeHtml_inert plain_textD)
qed

lemma renders_history: "renders (history_html t) (history_tokens t)"
  unfolding history_html_def history_tokens_def
  by (intro renders_rules) (simp_all add: markup_simps history_text_escape)

definition known_outcome :: "string \<Rightarrow> bool" where
  "known_outcome s \<longleftrightarrow> s \<in> set [''Scheduled'', ''FailedScheduling'', ''Preempted'', '''']"

context lower_case
begin

lemma lower_outcome:
  assumes "known_outcome s"
  shows "lib_lower L s = map ascii_lower s" and "plain_text (map ascii_lower s)"
proof -
  from assms have "s \<in> {''Scheduled'', ''FailedScheduling'', ''Preempted'', ''''}" by (simp add: known_outcome_def)
  then have "list_all (\<lambda>c. of_char c < (128 :: nat)) s" by auto
  then show "lib_lower L s = map ascii_lower s" by (rule lower_ascii)
  have "map ascii_lower ''Scheduled'' = ''scheduled''" "map ascii_lower ''FailedScheduling'' = ''failedscheduling''"
    "map ascii_lower ''Preempted'' = ''preempted''" by code_simp+
  with \<open>s \<in> _\<close> show "plain_text (map ascii_lower s)" by (auto simp: dquote_def)
qed

lemma renders_row:
  assumes "known_outcome (outcomeOf d)"
  shows "renders (row_html L now expanded d) (row_tokens now expanded d)"
  unfolding row_html_def row_tokens_def lower_outcome(1) [OF assms]
  using lower_outcome(2) [OF assms]
  by (intro renders_td renders_toggle renders_rules renders_if renders_history renders_Nil)
    (simp_all add: markup_simps)

end

section \<open>An instance\<close>

definition std_lib :: js_lib where
  "std_lib = \<lparr>lib_lower = map ascii_lower,
     lib_compare = (\<lambda>a b. if js_key a < js_key b then - 1 else if js_key a = js_key b then 0 else 1)\<rparr>"

interpretation std_lower: lower_case std_lib
  by unfold_locales (simp add: std_lib_def)

interpretation std_order: collation std_lib
  by unfold_locales (auto simp: std_lib_def)

section \<open>Properties\<close>

context collation
begin

lemma compare_newest:
  assumes "json_time t" and "json_time u"
  shows "lib_compare L (format_rfc3339 u) (format_rfc3339 t) \<le> 0 \<longleftrightarrow> tsec u \<le> tsec t"
proof (cases "tsec u \<le> tsec t")
  case True
  have "js_key (format_rfc3339 u) \<le> js_key (format_rfc3339 t)"
  proof (cases "tsec u = tsec t")
    case True
    then show ?thesis by (simp add: format_rfc3339_def)
  next
    case False
    with \<open>tsec u \<le> tsec t\<close> show ?thesis by (intro less_imp_le format_rfc3339_less assms) simp
  qed
  with True show ?thesis by (simp add: compare_times assms)
next
  case False
  then have "js_key (format_rfc3339 t) < js_key (format_rfc3339 u)" by (intro format_rfc3339_less assms) simp
  with False show ?thesis by (simp add: compare_times assms)
qed

end

text \<open>
  C20: the page cannot be scripted through its data. Whatever bytes the names, nodes, reasons and
  other texts of a decision consist of, the browser reads its row as exactly the intended elements:
  every text is one piece of character data between the tags of its cell, equal to the text of the
  decision, and the attribute that the toggle is found by is the decision's name. The one place
  that is not escaped is the class of the badge; the hypothesis that the outcome is one of the
  schema's is what makes it harmless.
\<close>

theorem row_reads_as_data:
  assumes "lower_case L" and "known_outcome (outcomeOf d)"
  shows "html_tokens (row_html L now expanded d) = Some (row_tokens now expanded d)"
  by (rule renders_tokens [OF lower_case.renders_row [OF assms]])

theorem row_reads_as_data_witness:
  "html_tokens (row_html std_lib 0 [] (sample_json ''</td><script>'' ''Scheduled'' ''&lt;'' 7)) =
     Some (row_tokens 0 [] (sample_json ''</td><script>'' ''Scheduled'' ''&lt;'' 7)) \<and>
   cell ''</td><script>'' = [Open ''td'' [], Chars ''</td><script>'', Close ''td'']"
proof -
  have "outcomeOf (sample_json ''</td><script>'' ''Scheduled'' ''&lt;'' 7) = ''Scheduled''"
    by (simp add: sample_json_def outcomeOf_def js_field_def js_prop_def js_text_def)
  then have "known_outcome (outcomeOf (sample_json ''</td><script>'' ''Scheduled'' ''&lt;'' 7))"
    by (simp add: known_outcome_def)
  from row_reads_as_data [OF std_lower.lower_case_axioms this] show ?thesis
    by (simp add: cell_def text_token_def)
qed

text \<open>
  C33: newest first. When some decision passes the filters (and each has a timestamp of the wire
  format), the body of the table is the rows of exactly the decisions that pass, each as often as
  the server sent it, in an order in which no decision comes before a later one.
\<close>

theorem table_newest_first:
  assumes "collation L" and "\<forall>d\<in>set list. renderable d \<and> (\<exists>t. json_time t \<and> decision_time d = format_rfc3339 t)"
    and "\<exists>d\<in>set list. matchesFilters L f d"
  shows "\<exists>rows. renderTable L now f expanded list = Some (concat (map (row_html L now expanded) rows)) \<and>
    mset rows = mset (filter (matchesFilters L f) list) \<and>
    sorted_wrt (\<lambda>a b. \<forall>t u. parse_rfc3339 (decision_time a) = Some t \<longrightarrow> parse_rfc3339 (decision_time b) = Some u \<longrightarrow> u \<le> t) rows"
proof -
  define xs where "xs = filter (matchesFilters L f) list"
  define rows where "rows = js_sort (\<lambda>a b. lib_compare L (decision_time b) (decision_time a)) xs"
  define key where "key d = (case parse_rfc3339 (decision_time d) of None \<Rightarrow> 0 | Some t \<Rightarrow> tsec t)" for d
  have key: "parse_rfc3339 (decision_time d) = Some (Time (key d) 0)" "\<exists>t. json_time t \<and> decision_time d = format_rfc3339 t \<and> tsec t = key d"
    if "d \<in> set xs" for d
    using that assms(2) parse_format_rfc3339 by (fastforce simp: xs_def key_def whole_seconds_def)+
  have "sorted_wrt (\<lambda>a b. key b \<le> key a) rows"
    unfolding rows_def using key(2) collation.compare_newest [OF assms(1)]
    by (intro js_sort_sorted) (metis (no_types, lifting))
  then have "sorted_wrt (\<lambda>a b. \<forall>t u. parse_rfc3339 (decision_time a) = Some t \<longrightarrow> parse_rfc3339 (decision_time b) = Some u \<longrightarrow> u \<le> t) rows"
    by (rule sorted_wrt_mono_rel [rotated]) (auto simp: rows_def key(1) gotime_order)
  moreover have "xs \<noteq> []" "list_all renderable xs" using assms(2,3) by (auto simp: xs_def filter_empty_conv list_all_iff)
  moreover from this have "rows \<noteq> []" "list_all renderable rows"
    by (simp_all add: rows_def list_all_iff) (metis mset_js_sort mset_zero_iff)
  moreover have "mset rows = mset xs" by (simp add: rows_def)
  ultimately show ?thesis by (auto simp: renderTable_def Let_def rows_def xs_def)
qed

theorem table_newest_first_witness:
  "\<exists>rows. renderTable std_lib 0 \<lparr>fl_outcome = ''Preempted'', fl_scheduler = [], fl_search = []\<rparr> [] sample_list =
     Some (concat (map (row_html std_lib 0 []) rows)) \<and> mset rows = {#sample_json ''q'' ''Preempted'' ''n2'' 9#}"
proof -
  let ?f = "\<lparr>fl_outcome = ''Preempted'', fl_scheduler = [], fl_search = []\<rparr>"
  have t: "json_time (Time 63902908800 0)" "format_rfc3339 (Time 63902908800 0) = ''2026-01-02T00:00:00Z''" by code_simp+
  have d: "decision_time (sample_json name outcome node latency) = ''2026-01-02T00:00:00Z''"
    "renderable (sample_json name outcome node latency)" for name outcome node latency
    by (simp_all add: sample_json_def decision_time_def renderable_def js_field_def js_prop_def js_text_def js_or_def)
  have "\<forall>d\<in>set sample_list. renderable d \<and> (\<exists>t. json_time t \<and> decision_time d = format_rfc3339 t)"
    using t d by (auto simp: sample_list_def)
  moreover have f: "filter (matchesFilters std_lib ?f) sample_list = [sample_json ''q'' ''Preempted'' ''n2'' 9]" by code_simp
  then have "\<exists>d\<in>set sample_list. matchesFilters std_lib ?f d" by (metis filter_empty_conv not_Cons_self2)
  ultimately show ?thesis
    using table_newest_first [OF std_order.collation_axioms, of sample_list ?f 0 "[]"] unfolding f by auto
qed

end
