(* ===== verification/Dashboard_Page.thy ===== *)
theory Dashboard_Page
  imports Page_Table Dashboard Mem_Api
begin

text \<open>
  The dashboard's page as a program: what it keeps (the decisions it loaded, the rows that are
  expanded, the filters), what it shows (the four panels, the list of schedulers, the banner), and
  what changes it (a load, a click on a toggle, a new filter). The last section puts the page
  behind the server of \<open>cmd/dashboard/main.go\<close>.
\<close>

section \<open>State\<close>

record page =
  pg_decisions :: "json list"
  pg_expanded :: "string list"
  pg_filters :: page_filters
  pg_cards :: string
  pg_heatmap :: string
  pg_latency :: string
  pg_options :: string
  pg_body :: string
  pg_banner :: "string option"

text \<open>
  \<open>populateSchedulerFilter\<close>: the options, and the selection, which falls back to the first option
  (all schedulers) when the selected scheduler is not listed any more.
\<close>

definition option_html :: "string \<Rightarrow> string" where
  "option_html s = open_tag ''option'' [(''value'', escapeHtml s)] @ escapeHtml s @ close_tag ''option''"

definition scheduler_list :: "json list \<Rightarrow> string list" where
  "scheduler_list list = js_sorted (rev (remdups (rev (map schedulerOf list))))"

definition populateSchedulerFilter :: "json list \<Rightarrow> page \<Rightarrow> page" where
  "populateSchedulerFilter list p =
     p\<lparr>pg_options := open_tag ''option'' [(''value'', '''')] @ ''All schedulers'' @ close_tag ''option'' @
          concat (map option_html (scheduler_list list)),
       pg_filters := (pg_filters p)\<lparr>fl_scheduler :=
          (if fl_scheduler (pg_filters p) \<in> set (scheduler_list list) then fl_scheduler (pg_filters p) else '''')\<rparr>\<rparr>"

text \<open>
  Rendering. \<open>Inl ()\<close> is a type error, after which the panels up to the one that failed are new;
  \<open>None\<close> is a heatmap or chart that met a name of \<open>Object.prototype\<close>.
\<close>

definition show_table :: "js_lib \<Rightarrow> int \<Rightarrow> page \<Rightarrow> (unit, page) result" where
  "show_table L now p =
     (case renderTable L now (pg_filters p) (pg_expanded p) (pg_decisions p) of
        None \<Rightarrow> Inl ()
      | Some html \<Rightarrow> Inr (p\<lparr>pg_body := html\<rparr>))"

definition renderAll :: "js_lib \<Rightarrow> int \<Rightarrow> page \<Rightarrow> (page \<times> bool) option" where
  "renderAll L now p =
     (let list = pg_decisions p
      in case (renderHeatmap list, renderLatencyChart list) of
           (Some heat, Some bars) \<Rightarrow>
             (let p1 = populateSchedulerFilter list
                (p\<lparr>pg_cards := renderStats list, pg_heatmap := heat, pg_latency := bars\<rparr>)
              in Some (case show_table L now p1 of Inl _ \<Rightarrow> (p1, False) | Inr p2 \<Rightarrow> (p2, True)))
         | _ \<Rightarrow> None)"

section \<open>Loading\<close>

text \<open>What \<open>fetch\<close> comes back with: no answer, or a status and a body, which may not be JSON.\<close>

datatype fetched = NoAnswer string | Answer nat "(string, json) result"

definition load_failed :: "string \<Rightarrow> page \<Rightarrow> page" where
  "load_failed msg p = p\<lparr>pg_banner := Some (''Failed to load decisions: '' @ msg)\<rparr>"

definition load :: "js_lib \<Rightarrow> string \<Rightarrow> int \<Rightarrow> fetched \<Rightarrow> page \<Rightarrow> page option" where
  "load L type_error now r p =
     (case r of
        NoAnswer msg \<Rightarrow> Some (load_failed msg p)
      | Answer code body \<Rightarrow>
          if \<not> (200 \<le> code \<and> code \<le> 299) then Some (load_failed (''request failed: '' @ format_nat code) p)
          else (case body of
                  Inl msg \<Rightarrow> Some (load_failed msg p)
                | Inr data \<Rightarrow>
                    map_option (\<lambda>(p1, ok). if ok then p1 else load_failed type_error p1)
                      (renderAll L now (p\<lparr>pg_decisions := (case data of JArr ds \<Rightarrow> ds | _ \<Rightarrow> []), pg_banner := None\<rparr>))))"

section \<open>Clicks and filters\<close>

text \<open>
  The handlers render the table only; a type error in one of them goes to the console and leaves
  the table as it is.
\<close>

definition refresh_table :: "js_lib \<Rightarrow> int \<Rightarrow> page \<Rightarrow> page" where
  "refresh_table L now p = (case show_table L now p of Inl _ \<Rightarrow> p | Inr p' \<Rightarrow> p')"

definition toggle_row :: "js_lib \<Rightarrow> int \<Rightarrow> string \<Rightarrow> page \<Rightarrow> page" where
  "toggle_row L now name p =
     refresh_table L now (p\<lparr>pg_expanded :=
       (if name \<in> set (pg_expanded p) then removeAll name (pg_expanded p) else pg_expanded p @ [name])\<rparr>)"

definition set_filters :: "js_lib \<Rightarrow> int \<Rightarrow> page_filters \<Rightarrow> page \<Rightarrow> page" where
  "set_filters L now f p = refresh_table L now (p\<lparr>pg_filters := f\<rparr>)"

text \<open>
  The server's answers: whatever the status, a body that is JSON is an array of decisions with
  metadata and a spec, or null.
\<close>

definition served :: "fetched \<Rightarrow> bool" where
  "served r = (case r of Answer code (Inr (JArr ds)) \<Rightarrow> list_all renderable ds | Answer code (Inr j) \<Rightarrow> j = JNull | _ \<Rightarrow> True)"

inductive page_step :: "js_lib \<Rightarrow> string \<Rightarrow> page \<Rightarrow> page \<Rightarrow> bool" for L type_error where
  loaded: "served r \<Longrightarrow> load L type_error now r p = Some p' \<Longrightarrow> page_step L type_error p p'"
| toggled: "page_step L type_error p (toggle_row L now name p)"
| filtered: "page_step L type_error p (set_filters L now f p)"

inductive_cases page_stepE [consumes 1, case_names loaded toggled filtered]: "page_step L type_error p p'"

text \<open>The panels show the decisions the page holds.\<close>

definition in_sync :: "js_lib \<Rightarrow> page \<Rightarrow> bool" where
  "in_sync L p \<longleftrightarrow> pg_cards p = renderStats (pg_decisions p) \<and> renderHeatmap (pg_decisions p) = Some (pg_heatmap p) \<and>
     renderLatencyChart (pg_decisions p) = Some (pg_latency p) \<and>
     (\<exists>now. renderTable L now (pg_filters p) (pg_expanded p) (pg_decisions p) = Some (pg_body p))"

definition tidy :: "js_lib \<Rightarrow> page \<Rightarrow> bool" where
  "tidy L p \<longleftrightarrow> list_all renderable (pg_decisions p) \<and> in_sync L p"

lemma renderTable_defined: "list_all renderable list \<Longrightarrow> \<exists>html. renderTable L now f expanded list = Some html"
  by (auto simp: renderTable_def Let_def list_all_iff)

lemma refresh_tidy:
  assumes "list_all renderable (pg_decisions p)" and "pg_cards p = renderStats (pg_decisions p)"
    and "renderHeatmap (pg_decisions p) = Some (pg_heatmap p)" and "renderLatencyChart (pg_decisions p) = Some (pg_latency p)"
  shows "tidy L (refresh_table L now p)"
proof -
  obtain html where "renderTable L now (pg_filters p) (pg_expanded p) (pg_decisions p) = Some html"
    using renderTable_defined [OF assms(1)] by blast
  with assms show ?thesis by (auto simp: refresh_table_def show_table_def tidy_def in_sync_def)
qed

lemma renderAll_tidy:
  assumes "list_all renderable (pg_decisions p)" and "renderAll L now p = Some (p', ok)"
  shows "tidy L p' \<and> ok \<and> pg_decisions p' = pg_decisions p \<and> pg_banner p' = pg_banner p"
proof -
  obtain heat bars where h: "renderHeatmap (pg_decisions p) = Some heat" "renderLatencyChart (pg_decisions p) = Some bars"
    using assms(2) by (auto simp: renderAll_def Let_def split: option.splits)
  define p1 where "p1 = populateSchedulerFilter (pg_decisions p)
    (p\<lparr>pg_cards := renderStats (pg_decisions p), pg_heatmap := heat, pg_latency := bars\<rparr>)"
  have p1: "pg_decisions p1 = pg_decisions p" "pg_banner p1 = pg_banner p" by (simp_all add: p1_def populateSchedulerFilter_def)
  then obtain html where html: "renderTable L now (pg_filters p1) (pg_expanded p1) (pg_decisions p1) = Some html"
    using renderTable_defined [OF assms(1)] by metis
  with assms(2) h have "p' = p1\<lparr>pg_body := html\<rparr>" "ok"
    by (auto simp: renderAll_def Let_def show_table_def simp flip: p1_def)
  with assms(1) h html p1 show ?thesis by (auto simp: tidy_def in_sync_def p1_def populateSchedulerFilter_def)
qed

lemma load_tidy:
  assumes "served r" and "load L type_error now r p = Some p'" and "tidy L p \<or> (\<exists>code data. r = Answer code (Inr data) \<and> 200 \<le> code \<and> code \<le> 299)"
  shows "tidy L p'"
proof -
  have keep: "tidy L (load_failed msg p)" if "tidy L p" for msg
    using that by (simp add: load_failed_def tidy_def in_sync_def)
  show ?thesis
  proof (cases "\<exists>code data. r = Answer code (Inr data) \<and> 200 \<le> code \<and> code \<le> 299")
    case True
    then obtain code data where r: "r = Answer code (Inr data)" "200 \<le> code" "code \<le> 299" by blast
    let ?p = "p\<lparr>pg_decisions := (case data of JArr ds \<Rightarrow> ds | _ \<Rightarrow> []), pg_banner := None\<rparr>"
    have "list_all renderable (pg_decisions ?p)" using assms(1) r by (auto simp: served_def split: json.splits)
    moreover from assms(2) r obtain x where x: "renderAll L now ?p = Some x"
      "p' = (case x of (p1, ok) \<Rightarrow> if ok then p1 else load_failed type_error p1)" by (auto simp: load_def)
    moreover obtain p1 ok where "x = (p1, ok)" by force
    ultimately have "tidy L p1 \<and> ok" using renderAll_tidy [of ?p L now p1 ok] by blast
    with x(2) \<open>x = (p1, ok)\<close> show ?thesis by simp
  next
    case False
    with assms(3) have "tidy L p" by blast
    with assms(2) keep False show ?thesis by (auto simp: load_def split: fetched.splits sum.splits if_splits)
  qed
qed

lemma page_step_tidy:
  assumes "page_step L type_error p p'" and "tidy L p"
  shows "tidy L p'"
  using assms(1)
proof (cases rule: page_stepE)
  case (loaded r now)
  with assms(2) show ?thesis by (intro load_tidy) auto
next
  case (toggled now name)
  show ?thesis unfolding toggled toggle_row_def
    by (rule refresh_tidy) (use assms(2) in \<open>simp_all add: tidy_def in_sync_def\<close>)
next
  case (filtered now f)
  show ?thesis unfolding filtered set_filters_def
    by (rule refresh_tidy) (use assms(2) in \<open>simp_all add: tidy_def in_sync_def\<close>)
qed

lemma page_run_tidy: "(page_step L type_error)\<^sup>*\<^sup>* p p' \<Longrightarrow> tidy L p \<Longrightarrow> tidy L p'"
  by (induction rule: rtranclp_induct) (auto intro: page_step_tidy)

section \<open>What the page reads in a decision\<close>

lemma js_prop_Nil [simp]: "js_prop k (JObj []) = None"
  by (simp add: js_prop_def)

lemma js_prop_opt [simp]:
  "js_prop k (JObj (opt k c j @ kvs)) = (if c then if j = JNull then None else Some j else js_prop k (JObj kvs))"
  "k' \<noteq> k \<Longrightarrow> js_prop k' (JObj (opt k c j @ kvs)) = js_prop k' (JObj kvs)"
  "js_prop k (JObj (opt k c j)) = (if c \<and> j \<noteq> JNull then Some j else None)"
  "k' \<noteq> k \<Longrightarrow> js_prop k' (JObj (opt k c j)) = None"
  by (auto simp: js_prop_def opt_def split: json.split)

lemma js_text_simps [simp]: "js_text None = []" "js_text (Some (JStr s)) = s"
  by (simp_all add: js_text_def)

definition shown_time :: "json_calls \<Rightarrow> gotime \<Rightarrow> string" where
  "shown_time C t = (if time_is_zero t then '''' else jc_formatTime C t)"

lemma page_spec:
  "js_prop ''spec'' (SchedulingDecision_json C d) = Some (SchedulingDecisionSpec_json (sd_Spec d))"
  by (simp add: SchedulingDecision_json_def)

lemma page_status:
  "js_prop ''status'' (SchedulingDecision_json C d) =
     (if sd_Status d = zero_Status then None else Some (SchedulingDecisionStatus_json C (sd_Status d)))"
  by (simp add: SchedulingDecision_json_def)

lemma zero_Status_fields [simp]: "st_Outcome zero_Status = OutcomeUnset" "st_ChosenNode zero_Status = []"
  "st_SchedulingLatencyMs zero_Status = 0" "st_Transitions zero_Status = []" "st_DecisionTimestamp zero_Status = zero_time"
  by (simp_all add: zero_Status_def)

lemma page_reads_status:
  "outcomeOf (SchedulingDecision_json C d) = outcome_string (st_Outcome (sd_Status d))"
  "nodeOf (SchedulingDecision_json C d) = st_ChosenNode (sd_Status d)"
  "latency_ms (SchedulingDecision_json C d) = st_SchedulingLatencyMs (sd_Status d)"
  "transitionsOf (SchedulingDecision_json C d) = map (SchedulingTransition_json C) (history_of d)"
  "js_text (js_field ''status'' ''decisionTimestamp'' (SchedulingDecision_json C d)) = shown_time C (st_DecisionTimestamp (sd_Status d))"
  by (auto simp: outcomeOf_def nodeOf_def latency_ms_def transitionsOf_def shown_time_def js_field_def page_status
      SchedulingDecisionStatus_json_def time_json_def time_is_zero_def zero_time_def)

lemma page_reads_spec:
  "schedulerOf (SchedulingDecision_json C d) = js_or (sp_SchedulerName (sd_Spec d)) ''(unknown)''"
  "js_text (js_field ''spec'' ''podName'' (SchedulingDecision_json C d)) = sp_PodName (sd_Spec d)"
  "js_text (js_field ''spec'' ''podNamespace'' (SchedulingDecision_json C d)) = sp_PodNamespace (sd_Spec d)"
  "driverOf (SchedulingDecision_json C d) =
     js_or (case sp_VolumeContext (sd_Spec d) of None \<Rightarrow> '''' | Some v \<Rightarrow> vc_DriverType v) em_dash"
  by (auto simp: schedulerOf_def driverOf_def js_field_def page_spec SchedulingDecisionSpec_json_def VolumeContext_json_def
      split: option.split)

section \<open>Behind the server\<close>

definition wire_answer :: "json_calls \<Rightarrow> SchedulingDecision list http_response \<Rightarrow> fetched" where
  "wire_answer C resp = Answer (rs_Code resp)
     (case rs_Body resp of JsonBody ds \<Rightarrow> Inr (JArr (map (SchedulingDecision_json C) ds)) | _ \<Rightarrow> Inl ''not JSON'')"

definition page_ready :: "json_calls \<Rightarrow> SchedulingDecision \<Rightarrow> bool" where
  "page_ready C d \<longleftrightarrow> plain_names (SchedulingDecision_json C d) \<and> (\<exists>kvs. jc_meta C (sd_ObjectMeta d) = Some (JObj kvs))"

lemma page_ready_renderable: "page_ready C d \<Longrightarrow> renderable (SchedulingDecision_json C d)"
  by (auto simp: page_ready_def renderable_def page_spec SchedulingDecision_json_def)

lemma renderAll_defined: "(\<And>d. d \<in> set (pg_decisions p) \<Longrightarrow> plain_names d) \<Longrightarrow> \<exists>x. renderAll L now p = Some x"
proof -
  assume plain: "\<And>d. d \<in> set (pg_decisions p) \<Longrightarrow> plain_names d"
  then obtain h c where "heat_fold (pg_decisions p) \<lparr>ht_counts = [], ht_nodes = [], ht_schedulers = []\<rparr> = Some h"
    "chart_fold (pg_decisions p) \<lparr>ch_sums = [], ch_counts = []\<rparr> = Some c"
    using heat_fold_defined chart_fold_defined by metis
  then show ?thesis by (simp add: renderAll_def renderHeatmap_def renderLatencyChart_def Let_def)
qed

section \<open>Properties\<close>

text \<open>
  C21: the panels agree. From the first answer on that the page could read, and however loads,
  failed loads, clicks on toggles and changes of the filters follow, the cards, the heatmap, the
  chart and the table all show the decisions of one and the same answer, the table under the
  filters and with the expanded rows of that moment. The scheduler that is filtered by is one that
  is listed or none, right after a load.
\<close>

theorem page_panels_agree:
  assumes "served (Answer code (Inr data))" and "200 \<le> code" and "code \<le> 299"
    and "load L type_error now (Answer code (Inr data)) p0 = Some p1" and "(page_step L type_error)\<^sup>*\<^sup>* p1 p"
  shows "pg_banner p1 = None \<and> fl_scheduler (pg_filters p1) \<in> insert '''' (schedulerOf ` set (pg_decisions p1)) \<and>
    pg_cards p = renderStats (pg_decisions p) \<and> renderHeatmap (pg_decisions p) = Some (pg_heatmap p) \<and>
    renderLatencyChart (pg_decisions p) = Some (pg_latency p) \<and>
    (\<exists>now. renderTable L now (pg_filters p) (pg_expanded p) (pg_decisions p) = Some (pg_body p))"
proof -
  have "tidy L p1" using assms(1-4) by (intro load_tidy) auto
  then have "tidy L p" by (rule page_run_tidy [OF assms(5)])
  moreover obtain x where x: "renderAll L now (p0\<lparr>pg_decisions := (case data of JArr ds \<Rightarrow> ds | _ \<Rightarrow> []), pg_banner := None\<rparr>) = Some x"
    "p1 = (case x of (p1, ok) \<Rightarrow> if ok then p1 else load_failed type_error p1)"
    using assms(2-4) by (auto simp: load_def)
  have "list_all renderable (case data of JArr ds \<Rightarrow> ds | _ \<Rightarrow> [])" using assms(1) by (auto simp: served_def split: json.splits)
  with renderAll_tidy [of "p0\<lparr>pg_decisions := (case data of JArr ds \<Rightarrow> ds | _ \<Rightarrow> []), pg_banner := None\<rparr>" L now "fst x" "snd x"] x
  have "snd x" "pg_banner (fst x) = None" "pg_decisions (fst x) = (case data of JArr ds \<Rightarrow> ds | _ \<Rightarrow> [])" "p1 = fst x"
    by (auto simp: case_prod_beta)
  moreover have "fl_scheduler (pg_filters (fst x)) \<in> insert '''' (schedulerOf ` set (pg_decisions (fst x)))"
    using x(1) by (auto simp: renderAll_def show_table_def populateSchedulerFilter_def scheduler_list_def Let_def
        split: option.splits sum.splits)
  ultimately show ?thesis by (simp add: tidy_def in_sync_def)
qed

definition blank_page :: page where
  "blank_page = \<lparr>pg_decisions = [], pg_expanded = [], pg_filters = \<lparr>fl_outcome = '''', fl_scheduler = '''', fl_search = ''''\<rparr>,
     pg_cards = '''', pg_heatmap = '''', pg_latency = '''', pg_options = '''', pg_body = '''', pg_banner = None\<rparr>"

lemma sample_renderable: "list_all renderable sample_list"
  by (simp add: sample_list_def sample_json_def renderable_def js_prop_def)

theorem page_panels_agree_witness:
  "\<exists>p1. load std_lib ''type error'' 0 (Answer 200 (Inr (JArr sample_list))) blank_page = Some p1 \<and> pg_banner p1 = None \<and>
     renderHeatmap (pg_decisions (toggle_row std_lib 0 ''p'' p1)) = Some (pg_heatmap (toggle_row std_lib 0 ''p'' p1))"
proof -
  let ?p = "blank_page\<lparr>pg_decisions := sample_list, pg_banner := None\<rparr>"
  obtain x where "renderAll std_lib 0 ?p = Some x"
    using renderAll_defined [of ?p std_lib 0] sample_list_fields(1) by auto
  then obtain p1 where p1: "load std_lib ''type error'' 0 (Answer 200 (Inr (JArr sample_list))) blank_page = Some p1"
    by (auto simp: load_def)
  have served: "served (Answer 200 (Inr (JArr sample_list)))" using sample_renderable by (simp add: served_def)
  have "(page_step std_lib ''type error'')\<^sup>*\<^sup>* p1 (toggle_row std_lib 0 ''p'' p1)" by (blast intro: page_step.toggled)
  from page_panels_agree [OF served _ _ p1 this] p1 show ?thesis by simp
qed

text \<open>
  C19: the dashboard shows what its server's cache holds. Whatever the page showed before, once it has
  loaded the answer of the server to a successful list, its banner is gone, it holds exactly one
  decision for each object in the server's cache at that moment, each a version that the API server
  has accepted (the cache may be behind it), all panels are drawn from those, and it reads in each of
  them what the record says: outcome, node, latency, history, time, Pod, scheduler and volume driver,
  with the placeholders of the page for what is not there. The cached decisions are \<open>page_ready\<close>: their
  metadata is encoded as an object, and no scheduler or node has the name of a member of
  \<open>Object.prototype\<close> (\<open>heatmap_inherited_name\<close> shows what happens otherwise).
\<close>

theorem dashboard_shows_record:
  assumes "cached_client E cache accepted" and "dashboardMux E errstr indexHTML ''/api/decisions'' w = (resp, w')" and "rs_Code resp = 200"
    and "\<forall>n d. cache w' n = Some d \<longrightarrow> page_ready C d"
  shows "\<exists>p' items. load L type_error now (wire_answer C resp) p = Some p' \<and> pg_banner p' = None \<and> in_sync L p' \<and>
    pg_decisions p' = map (SchedulingDecision_json C) items \<and> distinct (map decision_name_of items) \<and>
    (\<forall>d. d \<in> set items \<longleftrightarrow> cache w' (decision_name_of d) = Some d) \<and> set items \<subseteq> accepted w' \<and>
    (\<forall>d\<in>set items. let j = SchedulingDecision_json C d in
       outcomeOf j = outcome_string (st_Outcome (sd_Status d)) \<and> nodeOf j = st_ChosenNode (sd_Status d) \<and>
       latency_ms j = st_SchedulingLatencyMs (sd_Status d) \<and>
       transitionsOf j = map (SchedulingTransition_json C) (history_of d) \<and>
       js_text (js_field ''status'' ''decisionTimestamp'' j) = shown_time C (st_DecisionTimestamp (sd_Status d)) \<and>
       js_text (js_field ''spec'' ''podName'' j) = sp_PodName (sd_Spec d) \<and>
       js_text (js_field ''spec'' ''podNamespace'' j) = sp_PodNamespace (sd_Spec d) \<and>
       schedulerOf j = js_or (sp_SchedulerName (sd_Spec d)) ''(unknown)'' \<and>
       driverOf j = js_or (case sp_VolumeContext (sd_Spec d) of None \<Rightarrow> '''' | Some v \<Rightarrow> vc_DriverType v) em_dash)"
proof -
  from assms(2,3) obtain l where l: "ListDecisions E w = (Inr l, w')"
    and resp: "resp = \<lparr>rs_Code = 200, rs_ContentType = ''application/json'', rs_Body = JsonBody (dl_Items l)\<rparr>"
    by (auto simp: dashboardMux_def decisionsHandler_def http_Error_def split: prod.splits sum.splits)
  let ?js = "map (SchedulingDecision_json C) (dl_Items l)"
  let ?p = "p\<lparr>pg_decisions := ?js, pg_banner := None\<rparr>"
  have items: "\<forall>d. d \<in> set (dl_Items l) \<longleftrightarrow> cache w' (decision_name_of d) = Some d"
    and names: "distinct (map decision_name_of (dl_Items l))"
    using cached_client.list_cached [OF assms(1) l] by blast+
  then have known: "set (dl_Items l) \<subseteq> accepted w'" using cached_client.cache_accepted [OF assms(1)] by blast
  have ready: "page_ready C d" if "d \<in> set (dl_Items l)" for d using items assms(4) that by blast
  then have "list_all renderable (pg_decisions ?p)" by (auto simp: list_all_iff page_ready_renderable)
  moreover obtain p' ok where p': "renderAll L now ?p = Some (p', ok)"
    using renderAll_defined [of ?p L now] ready by (auto simp: page_ready_def)
  ultimately have tidy: "tidy L p' \<and> ok \<and> pg_decisions p' = ?js \<and> pg_banner p' = None"
    using renderAll_tidy [of ?p L now p' ok] by simp
  with p' have "load L type_error now (wire_answer C resp) p = Some p'"
    by (simp add: load_def wire_answer_def resp)
  with tidy items names known show ?thesis
    unfolding Let_def page_reads_status page_reads_spec tidy_def by blast
qed

text \<open>A server in memory, read through a cache that has not seen its latest writes.\<close>

definition behind :: "nat \<times> mem \<Rightarrow> mem" where
  "behind w = (snd w)\<lparr>m_log := drop (fst w) (m_log (snd w))\<rparr>"

definition behind_env :: "(nat \<times> mem) env" where
  "behind_env = down_env\<lparr>ListDecisions := \<lambda>w. (Inr \<lparr>dl_Items = mem_list (behind w)\<rparr>, w)\<rparr>"

lemma distinct_mem_list: "distinct (map decision_name_of (mem_list m))"
proof -
  have "distinct (map decision_name_of (List.map_filter (log_live (m_log m)) ns))" if "distinct ns" for ns
    using that
    by (induction ns) (auto simp: map_filter_simps in_set_map_filter split: option.split dest!: log_live_past)
  then show ?thesis by (simp add: mem_list_def)
qed

lemma log_live_accepted: "log_live es n = Some d \<Longrightarrow> Put d \<in> set es \<and> decision_name_of d = n"
  by (induction es n rule: log_live.induct) (auto split: if_splits)

interpretation behind: cached_client behind_env "\<lambda>w. log_live (m_log (behind w))" "\<lambda>w. {d. Put d \<in> set (m_log (snd w))}"
proof unfold_locales
  show "d \<in> {d. Put d \<in> set (m_log (snd w))} \<and> decision_name_of d = n" if "log_live (m_log (behind w)) n = Some d" for w n d
    using log_live_accepted [OF that] by (auto simp: behind_def dest: in_set_dropD)
qed (auto simp: behind_env_def distinct_mem_list set_mem_list)

text \<open>The one decision of the store has just been deleted; the cache still has it.\<close>

definition shown_world :: "nat \<times> mem" where
  "shown_world = (1, \<lparr>m_pods = [], m_events = [], m_pvcs = [], m_scs = [],
     m_log = [Del (decision_name_of wire_decision), Put wire_decision], m_clock = zero_time\<rparr>)"

theorem dashboard_shows_record_witness:
  "log_live (m_log (snd shown_world)) (decision_name_of wire_decision) = None \<and>
   (\<exists>p'. load std_lib ''type error'' 0
       (wire_answer rfc_calls (fst (dashboardMux behind_env (\<lambda>_. []) [] ''/api/decisions'' shown_world))) blank_page = Some p' \<and>
     pg_banner p' = None \<and> outcomeOf ` set (pg_decisions p') = {''Scheduled''})"
proof -
  let ?r = "dashboardMux behind_env (\<lambda>_. []) [] ''/api/decisions'' shown_world"
  have gone: "log_live (m_log (snd shown_world)) (decision_name_of wire_decision) = None" by (simp add: shown_world_def)
  have run: "?r = (fst ?r, shown_world)" and code: "rs_Code (fst ?r) = 200"
    by (simp_all add: dashboardMux_def decisionsHandler_def behind_env_def)
  have cache: "log_live (m_log (behind shown_world)) n = (if decision_name_of wire_decision = n then Some wire_decision else None)" for n
    by (simp add: shown_world_def behind_def)
  have "sp_SchedulerName (sd_Spec wire_decision) = []" "st_ChosenNode (sd_Status wire_decision) = ''n1''"
    by (simp_all add: wire_decision_def wire_transition_def applyTransition_def newTransition_def)
  then have "plain_names (SchedulingDecision_json rfc_calls wire_decision)"
    by (simp add: plain_names_def heat_node_def page_reads_status page_reads_spec js_or_def object_prototype_def)
  then have ready: "\<forall>n d. log_live (m_log (behind shown_world)) n = Some d \<longrightarrow> page_ready rfc_calls d"
    using cache by (auto simp: page_ready_def rfc_calls_def meta_json_def split: if_splits)
  obtain p' items where p': "load std_lib ''type error'' 0 (wire_answer rfc_calls (fst ?r)) blank_page = Some p'"
      "pg_banner p' = None" "pg_decisions p' = map (SchedulingDecision_json rfc_calls) items"
      "\<forall>d. d \<in> set items \<longleftrightarrow> log_live (m_log (behind shown_world)) (decision_name_of d) = Some d"
    using dashboard_shows_record [OF behind.cached_client_axioms run code ready, where L = std_lib and type_error = "''type error''" and now = 0 and p = blank_page]
    by (elim exE conjE) (rule that)
  have "d \<in> set items \<longleftrightarrow> d = wire_decision" for d
    using p'(4) [rule_format, of d] unfolding cache by (simp split: if_split) metis
  then have "set items = {wire_decision}" by blast
  then have "outcomeOf ` set (pg_decisions p') = {outcome_string (st_Outcome (sd_Status wire_decision))}"
    using p'(3) by (simp add: page_reads_status)
  also have "outcome_string (st_Outcome (sd_Status wire_decision)) = ''Scheduled''" by code_simp
  finally show ?thesis using gone p'(1,2) by blast
qed

end
