(* ===== verification/Go_Heap.thy ===== *)
theory Go_Heap
  imports Api_Types "HOL-Library.Monad_Syntax"
begin

text \<open>
  Go memory as far as the generated deep copies need it. A struct that contains pointers or
  slices is a record whose pointer fields are addresses; what they point to are cells of a heap.
  A pointer is nil or an address, a slice is nil or an array cell with a length and a capacity.
  A load from an address that holds no cell of the expected type has no result.

  The value of a structure is what can be read from it: an abstraction function on the cells
  that fails when an address is not there. Restricting the cells such a function may read says
  where a structure lives. The locale \<open>deep_copier\<close> is the contract of a copying routine: the
  heap only grows, and the copy has the value of the original and is made of new cells only.
  Loops over slices and copies behind pointers are proved once in it.
\<close>

section \<open>Structures in memory\<close>

type_synonym addr = nat

datatype slice = NilSlice | Slice (sl_addr: addr) (sl_len: nat) (sl_cap: nat)

record hCandidateNode =
  hcn_Name :: string
  hcn_FilterResult :: string
  hcn_Score :: "addr option"

record hTransition =
  htr_Outcome :: SchedulingOutcome
  htr_ChosenNode :: string
  htr_ReasonSummary :: string
  htr_DecisionTimestamp :: gotime
  htr_SchedulingLatencyMs :: int
  htr_CandidateNodes :: slice
  htr_SourceRef :: SourceRef

record hStatus =
  hst_Outcome :: SchedulingOutcome
  hst_ChosenNode :: string
  hst_ReasonSummary :: string
  hst_DecisionTimestamp :: gotime
  hst_SchedulingLatencyMs :: int
  hst_Transitions :: slice

record hSpec =
  hsp_PodName :: string
  hsp_PodNamespace :: string
  hsp_PodUID :: string
  hsp_SchedulerName :: string
  hsp_VolumeContext :: "addr option"

text \<open>The metadata structs of apimachinery: labels are a map behind a pointer, or nil.\<close>

record TypeMeta =
  tm_Kind :: string
  tm_APIVersion :: string

record hObjectMeta =
  hom_Name :: string
  hom_Labels :: "addr option"
  hom_ResourceVersion :: string

record hListMeta =
  hlm_ResourceVersion :: string
  hlm_Continue :: string
  hlm_RemainingItemCount :: "addr option"

record hDecision =
  hsd_TypeMeta :: TypeMeta
  hsd_ObjectMeta :: hObjectMeta
  hsd_Spec :: hSpec
  hsd_Status :: hStatus

record hDecisionList =
  hdl_TypeMeta :: TypeMeta
  hdl_ListMeta :: hListMeta
  hdl_Items :: slice

datatype cell =
    IntCell (asInt: int) | VolCell VolumeContext | SrcCell SourceRef | LabelsCell "string \<rightharpoonup> string"
  | NodeCell hCandidateNode | TransCell hTransition | SpecCell hSpec | StatusCell hStatus
  | DecCell hDecision | ListCell hDecisionList
  | NodesArr "hCandidateNode list" | TransArr "hTransition list" | DecsArr "hDecision list"

record goheap =
  gh_cells :: "addr \<rightharpoonup> cell"
  gh_next :: addr

definition alloc :: "cell \<Rightarrow> goheap \<Rightarrow> addr \<times> goheap" where
  "alloc c H = (gh_next H, H\<lparr>gh_cells := (gh_cells H)(gh_next H \<mapsto> c), gh_next := Suc (gh_next H)\<rparr>)"

definition store :: "addr \<Rightarrow> cell \<Rightarrow> goheap \<Rightarrow> goheap" where
  "store a c H = H\<lparr>gh_cells := (gh_cells H)(a \<mapsto> c)\<rparr>"

section \<open>Growing heaps\<close>

definition wf_heap :: "goheap \<Rightarrow> bool" where
  "wf_heap H \<longleftrightarrow> (\<forall>a c. gh_cells H a = Some c \<longrightarrow> a < gh_next H)"

text \<open>The cells of a heap below and from an address on.\<close>

definition old_cells :: "addr \<Rightarrow> goheap \<Rightarrow> addr \<rightharpoonup> cell" where
  "old_cells n H = gh_cells H |` {..<n}"

definition new_cells :: "addr \<Rightarrow> goheap \<Rightarrow> addr \<rightharpoonup> cell" where
  "new_cells n H = gh_cells H |` {n..}"

definition grows :: "goheap \<Rightarrow> goheap \<Rightarrow> bool" where
  "grows H H' \<longleftrightarrow> wf_heap H' \<and> gh_next H \<le> gh_next H' \<and> (\<forall>a<gh_next H. gh_cells H' a = gh_cells H a)"

lemma grows_refl: "wf_heap H \<Longrightarrow> grows H H"
  by (simp add: grows_def)

lemma grows_trans: "grows A B \<Longrightarrow> grows B C \<Longrightarrow> grows A C"
  by (simp add: grows_def)

lemma grows_wf: "grows H H' \<Longrightarrow> wf_heap H'"
  by (simp add: grows_def)

lemma grows_next: "grows H H' \<Longrightarrow> gh_next H \<le> gh_next H'"
  by (simp add: grows_def)

lemma grows_cell: "grows H H' \<Longrightarrow> a < gh_next H \<Longrightarrow> gh_cells H' a = gh_cells H a"
  by (simp add: grows_def)

lemma wf_heap_addr: "wf_heap H \<Longrightarrow> gh_cells H a = Some c \<Longrightarrow> a < gh_next H"
  by (auto simp: wf_heap_def)

lemma grows_cells: "wf_heap H \<Longrightarrow> grows H H' \<Longrightarrow> gh_cells H \<subseteq>\<^sub>m gh_cells H'"
  by (auto simp: grows_def map_le_def dest: wf_heap_addr)

lemma grows_new: "wf_heap H \<Longrightarrow> grows H H' \<Longrightarrow> new_cells n H \<subseteq>\<^sub>m new_cells n H'"
  by (auto simp: grows_def map_le_def new_cells_def restrict_map_def dest: wf_heap_addr split: if_splits)

lemma grows_old: "grows H H' \<Longrightarrow> n \<le> gh_next H \<Longrightarrow> old_cells n H' = old_cells n H"
  by (auto simp: grows_def old_cells_def restrict_map_def fun_eq_iff)

lemma new_cells_le: "n \<le> n' \<Longrightarrow> new_cells n' H \<subseteq>\<^sub>m new_cells n H"
  by (auto simp: map_le_def new_cells_def restrict_map_def)

lemma new_cells_all: "new_cells n H \<subseteq>\<^sub>m gh_cells H"
  by (auto simp: map_le_def new_cells_def restrict_map_def)

lemma old_cells_all: "old_cells n H \<subseteq>\<^sub>m gh_cells H"
  by (auto simp: map_le_def old_cells_def restrict_map_def)

lemma old_cells_next: "wf_heap H \<Longrightarrow> old_cells (gh_next H) H = gh_cells H"
  by (auto simp: old_cells_def restrict_map_def fun_eq_iff wf_heap_def) (metis not_None_eq)

lemma alloc_grows: "wf_heap H \<Longrightarrow> alloc c H = (a, H') \<Longrightarrow> grows H H'"
  by (auto simp: alloc_def grows_def wf_heap_def less_Suc_eq split: if_splits)

lemma alloc_addr: "alloc c H = (a, H') \<Longrightarrow> a = gh_next H \<and> gh_next H' = Suc a \<and> gh_cells H' a = Some c"
  by (auto simp: alloc_def)

lemma store_simps [simp]:
  "gh_next (store a c H) = gh_next H"
  "gh_cells (store a c H) b = (if b = a then Some c else gh_cells H b)"
  by (simp_all add: store_def)

lemma store_wf: "wf_heap H \<Longrightarrow> a < gh_next H \<Longrightarrow> wf_heap (store a c H)"
  by (auto simp: wf_heap_def split: if_splits)

lemma store_new [simp]: "a < n \<Longrightarrow> new_cells n (store a c H) = new_cells n H"
  by (auto simp: new_cells_def store_def restrict_map_def fun_eq_iff)

lemma store_old [simp]: "n \<le> a \<Longrightarrow> old_cells n (store a c H) = old_cells n H"
  by (auto simp: old_cells_def store_def restrict_map_def fun_eq_iff)

section \<open>Values\<close>

text \<open>Reading behind a pointer, and the first \<open>len\<close> elements of a slice.\<close>

definition abs_ptr :: "(cell \<Rightarrow> 'a option) \<Rightarrow> (addr \<rightharpoonup> cell) \<Rightarrow> addr option \<Rightarrow> 'a option option" where
  "abs_ptr un m p = (case p of None \<Rightarrow> Some None
     | Some a \<Rightarrow> do { c \<leftarrow> m a; x \<leftarrow> un c; Some (Some x) })"

definition abs_slice ::
    "(cell \<Rightarrow> 'a list option) \<Rightarrow> ((addr \<rightharpoonup> cell) \<Rightarrow> 'a \<Rightarrow> 'v option) \<Rightarrow> (addr \<rightharpoonup> cell) \<Rightarrow> slice \<Rightarrow> 'v list option" where
  "abs_slice un rd m s = (case s of NilSlice \<Rightarrow> Some []
     | Slice a n k \<Rightarrow>
         do { c \<leftarrow> m a; xs \<leftarrow> un c;
              if n \<le> k \<and> length xs = k then those (map (rd m) (take n xs)) else None })"

definition abs_cell ::
    "(cell \<Rightarrow> 'a option) \<Rightarrow> ((addr \<rightharpoonup> cell) \<Rightarrow> 'a \<Rightarrow> 'v option) \<Rightarrow> (addr \<rightharpoonup> cell) \<Rightarrow> addr \<Rightarrow> 'v option" where
  "abs_cell un rd m a = do { c \<leftarrow> m a; x \<leftarrow> un c; rd m x }"

lemma map_le_Some: "m \<subseteq>\<^sub>m m' \<Longrightarrow> m a = Some c \<Longrightarrow> m' a = Some c"
  by (auto simp: map_le_def dom_def)

lemma those_snoc: "those (xs @ [x]) = (case those xs of None \<Rightarrow> None | Some vs \<Rightarrow> map_option (\<lambda>v. vs @ [v]) x)"
  by (induction xs) (auto simp: map_option_case split: option.splits)

lemma those_map_mono:
  "(\<And>x v. x \<in> set xs \<Longrightarrow> f x = Some v \<Longrightarrow> g x = Some v) \<Longrightarrow> those (map f xs) = Some vs \<Longrightarrow> those (map g xs) = Some vs"
  by (induction xs arbitrary: vs) (auto split: option.splits)

lemma those_length: "those xs = Some vs \<Longrightarrow> length vs = length xs"
  by (induction xs arbitrary: vs) (auto split: option.splits)

lemma abs_ptr_mono: "m \<subseteq>\<^sub>m m' \<Longrightarrow> abs_ptr un m p = Some v \<Longrightarrow> abs_ptr un m' p = Some v"
  by (auto simp: abs_ptr_def split: option.splits bind_splits dest: map_le_Some)

section \<open>Copying\<close>

text \<open>\<open>*out = new(T); **out = **in\<close>, guarded by a nil check.\<close>

definition copy_ptr ::
    "(cell \<Rightarrow> 'a option) \<Rightarrow> ('a \<Rightarrow> cell) \<Rightarrow> 'a \<Rightarrow> addr option \<Rightarrow> goheap \<Rightarrow> (addr option \<times> goheap) option" where
  "copy_ptr un mk zero p H =
     (case p of
        None \<Rightarrow> Some (None, H)
      | Some a \<Rightarrow>
          (let (b, H1) = alloc (mk zero) H
           in do { c \<leftarrow> gh_cells H1 a; x \<leftarrow> un c; Some (Some b, store b (mk x) H1) }))"

text \<open>
  \<open>for i := range *in { (*in)[i].DeepCopyInto(&(*out)[i]) }\<close> from index \<open>i\<close> on, with the target array
  in cell \<open>b\<close>.
\<close>

fun copy_loop ::
    "(cell \<Rightarrow> 'a list option) \<Rightarrow> ('a list \<Rightarrow> cell) \<Rightarrow> ('a \<Rightarrow> goheap \<Rightarrow> ('a \<times> goheap) option) \<Rightarrow>
     addr \<Rightarrow> nat \<Rightarrow> 'a list \<Rightarrow> goheap \<Rightarrow> goheap option" where
  "copy_loop un mk into b i [] H = Some H"
| "copy_loop un mk into b i (x # xs) H =
     do { (y, H1) \<leftarrow> into x H;
          c \<leftarrow> gh_cells H1 b;
          ys \<leftarrow> un c;
          copy_loop un mk into b (Suc i) xs (store b (mk (ys[i := y])) H1) }"

text \<open>\<open>*out = make([]T, len(*in))\<close> and the loop, guarded by a nil check.\<close>

definition copy_slice ::
    "(cell \<Rightarrow> 'a list option) \<Rightarrow> ('a list \<Rightarrow> cell) \<Rightarrow> 'a \<Rightarrow> ('a \<Rightarrow> goheap \<Rightarrow> ('a \<times> goheap) option) \<Rightarrow>
     slice \<Rightarrow> goheap \<Rightarrow> (slice \<times> goheap) option" where
  "copy_slice un mk zero into s H =
     (case s of
        NilSlice \<Rightarrow> Some (NilSlice, H)
      | Slice a n k \<Rightarrow>
          (let (b, H1) = alloc (mk (replicate n zero)) H
           in do { c \<leftarrow> gh_cells H1 a;
                   xs \<leftarrow> un c;
                   H2 \<leftarrow> copy_loop un mk into b 0 (take n xs) H1;
                   Some (Slice b n n, H2) }))"

text \<open>\<open>DeepCopy\<close>: nil for nil, else \<open>out := new(T); in.DeepCopyInto(out)\<close>.\<close>

definition new_copy ::
    "(cell \<Rightarrow> 'a option) \<Rightarrow> ('a \<Rightarrow> cell) \<Rightarrow> 'a \<Rightarrow> ('a \<Rightarrow> goheap \<Rightarrow> ('a \<times> goheap) option) \<Rightarrow>
     addr option \<Rightarrow> goheap \<Rightarrow> (addr option \<times> goheap) option" where
  "new_copy un mk zero into p H =
     (case p of
        None \<Rightarrow> Some (None, H)
      | Some a \<Rightarrow>
          (let (b, H1) = alloc (mk zero) H
           in do { c \<leftarrow> gh_cells H1 a;
                   x \<leftarrow> un c;
                   (y, H2) \<leftarrow> into x H1;
                   Some (Some b, store b (mk y) H2) }))"

section \<open>The contract of a copy\<close>

definition copies_to ::
    "((addr \<rightharpoonup> cell) \<Rightarrow> 'a \<Rightarrow> 'v option) \<Rightarrow> ('a \<times> goheap) option \<Rightarrow> goheap \<Rightarrow> 'v \<Rightarrow> bool" where
  "copies_to rd res H v \<longleftrightarrow> (\<exists>y H'. res = Some (y, H') \<and> grows H H' \<and> rd (new_cells (gh_next H) H') y = Some v)"

locale heap_type =
  fixes rd :: "(addr \<rightharpoonup> cell) \<Rightarrow> 'a \<Rightarrow> 'v option"
  assumes rd_mono: "m \<subseteq>\<^sub>m m' \<Longrightarrow> rd m x = Some v \<Longrightarrow> rd m' x = Some v"
begin

lemma abs_slice_mono:
  assumes le: "m \<subseteq>\<^sub>m m'" and s: "abs_slice un rd m s = Some vs"
  shows "abs_slice un rd m' s = Some vs"
proof (cases s)
  case NilSlice
  with s show ?thesis by (simp add: abs_slice_def)
next
  case (Slice a n k)
  with s obtain c xs where c: "m a = Some c" and xs: "un c = Some xs" "n \<le> k" "length xs = k"
    and vs: "those (map (rd m) (take n xs)) = Some vs"
    by (auto simp: abs_slice_def split: bind_splits if_splits)
  from vs have "those (map (rd m') (take n xs)) = Some vs"
    by (rule those_map_mono [rotated]) (rule rd_mono [OF le])
  with Slice xs map_le_Some [OF le c] show ?thesis by (simp add: abs_slice_def)
qed

lemma abs_cell_mono:
  assumes le: "m \<subseteq>\<^sub>m m'" and "abs_cell un rd m a = Some v"
  shows "abs_cell un rd m' a = Some v"
proof -
  from assms(2) obtain c x where "m a = Some c" and "un c = Some x" and "rd m x = Some v"
    by (auto simp: abs_cell_def split: bind_splits)
  with map_le_Some [OF le] rd_mono [OF le] show ?thesis by (simp add: abs_cell_def)
qed

end

locale deep_copier = heap_type rd
  for rd :: "(addr \<rightharpoonup> cell) \<Rightarrow> 'a \<Rightarrow> 'v option" +
  fixes into :: "'a \<Rightarrow> goheap \<Rightarrow> ('a \<times> goheap) option"
  assumes into_copies: "wf_heap H \<Longrightarrow> rd (gh_cells H) x = Some v \<Longrightarrow> copies_to rd (into x H) H v"

text \<open>A pointer to a struct without pointers of its own.\<close>

lemma copy_ptr_copies:
  assumes "wf_heap H" and un: "\<And>x. un (mk x) = Some x" and v: "abs_ptr un (gh_cells H) p = Some v"
  shows "copies_to (abs_ptr un) (copy_ptr un mk zero p H) H v"
proof (cases p)
  case None
  with assms show ?thesis by (auto simp: copies_to_def copy_ptr_def abs_ptr_def intro: grows_refl)
next
  case (Some a)
  with v obtain c x where c: "gh_cells H a = Some c" "un c = Some x" "v = Some x"
    by (auto simp: abs_ptr_def bind_eq_Some_conv)
  obtain b H1 where al: "alloc (mk zero) H = (b, H1)" by force
  note g = alloc_grows [OF assms(1) al] and b = alloc_addr [OF al]
  from c g wf_heap_addr [OF assms(1) c(1)] have "gh_cells H1 a = Some c" by (simp add: grows_cell)
  with Some al c have "copy_ptr un mk zero p H = Some (Some b, store b (mk x) H1)"
    by (simp add: copy_ptr_def)
  moreover from g b have "grows H (store b (mk x) H1)" by (auto simp: grows_def intro: store_wf)
  moreover from b un c have "abs_ptr un (new_cells (gh_next H) (store b (mk x) H1)) (Some b) = Some v"
    by (simp add: abs_ptr_def new_cells_def restrict_map_def)
  ultimately show ?thesis by (auto simp: copies_to_def)
qed

context deep_copier
begin

text \<open>
  The loop invariant: the elements before \<open>i\<close> are copies that live above the target array, and the
  elements still to be copied can be read below it.
\<close>

lemma copy_loop_copies:
  assumes un: "\<And>ys. un (mk ys) = Some ys"
    and "wf_heap H" and "b < gh_next H" and "gh_cells H b = Some (mk ys)" and "i + length xs = length ys"
    and "those (map (rd (new_cells (Suc b) H)) (take i ys)) = Some vs"
    and "those (map (rd (old_cells b H)) xs) = Some ws"
  shows "\<exists>H' ys'. copy_loop un mk into b i xs H = Some H' \<and> wf_heap H' \<and> gh_next H \<le> gh_next H' \<and>
    old_cells b H' = old_cells b H \<and> gh_cells H' b = Some (mk ys') \<and> length ys' = length ys \<and>
    those (map (rd (new_cells (Suc b) H')) ys') = Some (vs @ ws)"
  using assms(2-)
proof (induction xs arbitrary: i H ys vs ws)
  case Nil
  then show ?case by auto
next
  case (Cons x xs)
  from Cons.prems(6) obtain w ws' where w: "rd (old_cells b H) x = Some w"
    and ws': "those (map (rd (old_cells b H)) xs) = Some ws'" and ws: "ws = w # ws'"
    by (auto split: option.splits)
  from rd_mono [OF old_cells_all w] into_copies [OF Cons.prems(1)] obtain y H1
    where y: "into x H = Some (y, H1)" and g: "grows H H1" and ry: "rd (new_cells (gh_next H) H1) y = Some w"
    unfolding copies_to_def by blast
  let ?H2 = "store b (mk (ys[i := y])) H1"
  note wf1 = grows_wf [OF g] and nx = grows_next [OF g] and b1 = grows_cell [OF g Cons.prems(2)]
  have old: "old_cells b ?H2 = old_cells b H" using grows_old [OF g, of b] Cons.prems(2) by simp
  have done1: "those (map (rd (new_cells (Suc b) ?H2)) (take i ys)) = Some vs"
    using Cons.prems(5) by (rule those_map_mono [rotated]) (auto intro: rd_mono grows_new [OF Cons.prems(1) g])
  have "rd (new_cells (Suc b) H1) y = Some w"
    using Cons.prems(2) by (intro rd_mono [OF new_cells_le ry]) simp
  moreover have "take (Suc i) (ys[i := y]) = take i ys @ [y]"
    using Cons.prems(4) by (simp add: take_Suc_conv_app_nth)
  ultimately have done2: "those (map (rd (new_cells (Suc b) ?H2)) (take (Suc i) (ys[i := y]))) = Some (vs @ [w])"
    using done1 by (simp add: those_snoc)
  have "\<exists>H' ys'. copy_loop un mk into b (Suc i) xs ?H2 = Some H' \<and> wf_heap H' \<and> gh_next ?H2 \<le> gh_next H' \<and>
    old_cells b H' = old_cells b ?H2 \<and> gh_cells H' b = Some (mk ys') \<and> length ys' = length (ys[i := y]) \<and>
    those (map (rd (new_cells (Suc b) H')) ys') = Some ((vs @ [w]) @ ws')"
    by (rule Cons.IH) (use Cons.prems(2,4) nx wf1 old done2 ws' in \<open>auto intro: store_wf\<close>)
  with y b1 Cons.prems(3) un old nx ws show ?case by (auto simp: bind_def)
qed

lemma copy_slice_copies:
  assumes un: "\<And>ys. un (mk ys) = Some ys" and wf: "wf_heap H" and vs: "abs_slice un rd (gh_cells H) s = Some vs"
  shows "copies_to (abs_slice un rd) (copy_slice un mk zero into s H) H vs"
proof (cases s)
  case NilSlice
  with assms show ?thesis by (auto simp: copies_to_def copy_slice_def abs_slice_def intro: grows_refl)
next
  case (Slice a n k)
  with vs obtain c xs where c: "gh_cells H a = Some c" "un c = Some xs" "n \<le> k" "length xs = k"
    and ws: "those (map (rd (gh_cells H)) (take n xs)) = Some vs"
    by (auto simp: abs_slice_def split: bind_splits if_splits)
  obtain b H1 where al: "alloc (mk (replicate n zero)) H = (b, H1)" by force
  note g = alloc_grows [OF wf al] and b = alloc_addr [OF al]
  have old: "old_cells b H1 = gh_cells H"
    using grows_old [OF g, of b] b old_cells_next [OF wf] by simp
  have "\<exists>H' ys'. copy_loop un mk into b 0 (take n xs) H1 = Some H' \<and> wf_heap H' \<and> gh_next H1 \<le> gh_next H' \<and>
    old_cells b H' = old_cells b H1 \<and> gh_cells H' b = Some (mk ys') \<and> length ys' = length (replicate n zero) \<and>
    those (map (rd (new_cells (Suc b) H')) ys') = Some ([] @ vs)"
    by (rule copy_loop_copies [OF un]) (use b c ws old grows_wf [OF g] in auto)
  then obtain H2 ys where loop: "copy_loop un mk into b 0 (take n xs) H1 = Some H2"
    and H2: "wf_heap H2" "gh_next H1 \<le> gh_next H2" "old_cells b H2 = gh_cells H"
    and ys: "gh_cells H2 b = Some (mk ys)" "length ys = n" "those (map (rd (new_cells (Suc b) H2)) ys) = Some vs"
    using old by auto
  have "gh_cells H1 a = Some c" using c wf_heap_addr [OF wf c(1)] g by (simp add: grows_cell)
  with Slice al loop c have res: "copy_slice un mk zero into s H = Some (Slice b n n, H2)"
    by (simp add: copy_slice_def)
  have "grows H H2"
    using H2 b old_cells_next [OF wf] by (auto simp: grows_def old_cells_def restrict_map_def fun_eq_iff) metis
  moreover have "those (map (rd (new_cells b H2)) ys) = Some vs"
    using ys(3) by (rule those_map_mono [rotated]) (rule rd_mono [OF new_cells_le], simp_all)
  ultimately show ?thesis
    using res ys b un by (auto simp: copies_to_def abs_slice_def new_cells_def restrict_map_def)
qed

text \<open>
  A copy behind a fresh pointer: the struct itself is the first new cell, everything it refers to
  comes after it.
\<close>

lemma new_copy_copies:
  assumes un: "\<And>x. un (mk x) = Some x" and wf: "wf_heap H" and v: "abs_cell un rd (gh_cells H) a = Some v"
  shows "\<exists>y H'. new_copy un mk zero into (Some a) H = Some (Some (gh_next H), H') \<and> grows H H' \<and>
    gh_cells H' (gh_next H) = Some (mk y) \<and> gh_next H < gh_next H' \<and>
    rd (new_cells (Suc (gh_next H)) H') y = Some v \<and>
    (\<exists>x H1 H2. un (the (gh_cells H a)) = Some x \<and> into x H1 = Some (y, H2))"
proof -
  from v obtain c x where c: "gh_cells H a = Some c" "un c = Some x" "rd (gh_cells H) x = Some v"
    by (auto simp: abs_cell_def split: bind_splits)
  obtain b H1 where al: "alloc (mk zero) H = (b, H1)" by force
  note g = alloc_grows [OF wf al] and b = alloc_addr [OF al]
  from rd_mono [OF grows_cells [OF wf g] c(3)] into_copies [OF grows_wf [OF g]] obtain y H2
    where y: "into x H1 = Some (y, H2)" and g2: "grows H1 H2" and ry: "rd (new_cells (gh_next H1) H2) y = Some v"
    unfolding copies_to_def by blast
  have "gh_cells H1 a = Some c" using c wf_heap_addr [OF wf c(1)] g by (simp add: grows_cell)
  with al c y have "new_copy un mk zero into (Some a) H = Some (Some b, store b (mk y) H2)"
    by (simp add: new_copy_def)
  moreover have "grows H (store b (mk y) H2)"
    using grows_trans [OF g g2] grows_next [OF g2] b by (auto simp: grows_def intro: store_wf)
  ultimately show ?thesis using b grows_next [OF g2] ry c y by auto
qed

text \<open>
  Isolation: the original can be read from the old cells alone and the copy from the new cells
  alone, so that writes to the one never show in the other.
\<close>

lemma new_copy_isolated:
  assumes un: "\<And>x. un (mk x) = Some x" and wf: "wf_heap H" and v: "abs_cell un rd (gh_cells H) a = Some v"
  shows "\<exists>q H'. new_copy un mk zero into (Some a) H = Some (Some q, H') \<and> grows H H' \<and>
    abs_cell un rd (gh_cells H') q = Some v \<and>
    (\<forall>H''. (\<forall>b<gh_next H. gh_cells H'' b = gh_cells H' b) \<longrightarrow> abs_cell un rd (gh_cells H'') a = Some v) \<and>
    (\<forall>H''. (\<forall>b\<ge>gh_next H. gh_cells H'' b = gh_cells H' b) \<longrightarrow> abs_cell un rd (gh_cells H'') q = Some v)"
proof -
  from new_copy_copies [OF un wf v, of zero] obtain y H'
    where res: "new_copy un mk zero into (Some a) H = Some (Some (gh_next H), H')" and g: "grows H H'"
      and y: "gh_cells H' (gh_next H) = Some (mk y)" "rd (new_cells (Suc (gh_next H)) H') y = Some v" by blast
  have copy: "abs_cell un rd (gh_cells H'') (gh_next H) = Some v" if "\<forall>b\<ge>gh_next H. gh_cells H'' b = gh_cells H' b" for H''
  proof -
    have "new_cells (Suc (gh_next H)) H' \<subseteq>\<^sub>m gh_cells H''"
      using that by (auto simp: map_le_def new_cells_def restrict_map_def split: if_splits)
    from rd_mono [OF this y(2)] y(1) un that show ?thesis by (simp add: abs_cell_def)
  qed
  have orig: "abs_cell un rd (gh_cells H'') a = Some v" if "\<forall>b<gh_next H. gh_cells H'' b = gh_cells H' b" for H''
  proof -
    have "gh_cells H \<subseteq>\<^sub>m gh_cells H''"
      using that wf_heap_addr [OF wf] by (auto simp: map_le_def grows_cell [OF g])
    from abs_cell_mono [OF this v] show ?thesis .
  qed
  show ?thesis
    by (intro exI conjI allI impI, rule res, rule g, rule copy, simp, erule orig, erule copy)
qed

end

text \<open>The result of copying a slice has no spare capacity.\<close>

lemma copy_slice_tight:
  "copy_slice un mk zero into s H = Some (s', H') \<Longrightarrow> s' = NilSlice \<or> (\<exists>b n. s' = Slice b n n)"
  by (auto simp: copy_slice_def split: slice.splits prod.splits bind_splits)

end
