(* ===== verification/Deep_Copy.thy ===== *)
theory Deep_Copy
  imports Go_Heap
begin

text \<open>
  \<open>api/v1alpha1/zz_generated.deepcopy.go\<close>: \<open>T_DeepCopyInto\<close> returns what the method writes to
  \<open>*out\<close> and the next heap, \<open>T_DeepCopy\<close> takes and returns a pointer. The methods of
  apimachinery's metadata types and of \<open>metav1.Time\<close> are the fields of \<open>meta_calls\<close>; the locale
  \<open>meta_copies\<close> says that they are deep copies themselves.
\<close>

section \<open>Cells of each type\<close>

definition as_int :: "cell \<Rightarrow> int option" where
  "as_int c = (case c of IntCell i \<Rightarrow> Some i | _ \<Rightarrow> None)"

definition as_vol :: "cell \<Rightarrow> VolumeContext option" where
  "as_vol c = (case c of VolCell v \<Rightarrow> Some v | _ \<Rightarrow> None)"

definition as_src :: "cell \<Rightarrow> SourceRef option" where
  "as_src c = (case c of SrcCell v \<Rightarrow> Some v | _ \<Rightarrow> None)"

definition as_labels :: "cell \<Rightarrow> (string \<rightharpoonup> string) option" where
  "as_labels c = (case c of LabelsCell v \<Rightarrow> Some v | _ \<Rightarrow> None)"

definition as_node :: "cell \<Rightarrow> hCandidateNode option" where
  "as_node c = (case c of NodeCell v \<Rightarrow> Some v | _ \<Rightarrow> None)"

definition as_trans :: "cell \<Rightarrow> hTransition option" where
  "as_trans c = (case c of TransCell v \<Rightarrow> Some v | _ \<Rightarrow> None)"

definition as_spec :: "cell \<Rightarrow> hSpec option" where
  "as_spec c = (case c of SpecCell v \<Rightarrow> Some v | _ \<Rightarrow> None)"

definition as_status :: "cell \<Rightarrow> hStatus option" where
  "as_status c = (case c of StatusCell v \<Rightarrow> Some v | _ \<Rightarrow> None)"

definition as_dec :: "cell \<Rightarrow> hDecision option" where
  "as_dec c = (case c of DecCell v \<Rightarrow> Some v | _ \<Rightarrow> None)"

definition as_list :: "cell \<Rightarrow> hDecisionList option" where
  "as_list c = (case c of ListCell v \<Rightarrow> Some v | _ \<Rightarrow> None)"

definition as_nodes :: "cell \<Rightarrow> hCandidateNode list option" where
  "as_nodes c = (case c of NodesArr v \<Rightarrow> Some v | _ \<Rightarrow> None)"

definition as_transs :: "cell \<Rightarrow> hTransition list option" where
  "as_transs c = (case c of TransArr v \<Rightarrow> Some v | _ \<Rightarrow> None)"

definition as_decs :: "cell \<Rightarrow> hDecision list option" where
  "as_decs c = (case c of DecsArr v \<Rightarrow> Some v | _ \<Rightarrow> None)"

lemma as_cell [simp]:
  "as_int (IntCell i) = Some i" "as_vol (VolCell v) = Some v" "as_src (SrcCell s) = Some s"
  "as_labels (LabelsCell l) = Some l" "as_node (NodeCell n) = Some n" "as_trans (TransCell t) = Some t"
  "as_spec (SpecCell sp) = Some sp" "as_status (StatusCell st) = Some st" "as_dec (DecCell d) = Some d"
  "as_list (ListCell ds) = Some ds" "as_nodes (NodesArr ns) = Some ns" "as_transs (TransArr ts) = Some ts"
  "as_decs (DecsArr xs) = Some xs"
  by (simp_all add: as_int_def as_vol_def as_src_def as_labels_def as_node_def as_trans_def as_spec_def
      as_status_def as_dec_def as_list_def as_nodes_def as_transs_def as_decs_def)

section \<open>Zero values\<close>

definition zero_hCandidateNode :: hCandidateNode where
  "zero_hCandidateNode = \<lparr>hcn_Name = '''', hcn_FilterResult = '''', hcn_Score = None\<rparr>"

definition zero_VolumeContext :: VolumeContext where
  "zero_VolumeContext = \<lparr>vc_PVCName = '''', vc_StorageClass = '''', vc_DriverType = '''',
     vc_BindingMode = '''', vc_TopologyConstraint = ''''\<rparr>"

definition zero_hTransition :: hTransition where
  "zero_hTransition = \<lparr>htr_Outcome = OutcomeUnset, htr_ChosenNode = '''', htr_ReasonSummary = '''',
     htr_DecisionTimestamp = zero_time, htr_SchedulingLatencyMs = 0, htr_CandidateNodes = NilSlice,
     htr_SourceRef = zero_SourceRef\<rparr>"

definition zero_hStatus :: hStatus where
  "zero_hStatus = \<lparr>hst_Outcome = OutcomeUnset, hst_ChosenNode = '''', hst_ReasonSummary = '''',
     hst_DecisionTimestamp = zero_time, hst_SchedulingLatencyMs = 0, hst_Transitions = NilSlice\<rparr>"

definition zero_hSpec :: hSpec where
  "zero_hSpec = \<lparr>hsp_PodName = '''', hsp_PodNamespace = '''', hsp_PodUID = '''',
     hsp_SchedulerName = '''', hsp_VolumeContext = None\<rparr>"

definition zero_hDecision :: hDecision where
  "zero_hDecision = \<lparr>hsd_TypeMeta = \<lparr>tm_Kind = '''', tm_APIVersion = ''''\<rparr>,
     hsd_ObjectMeta = \<lparr>hom_Name = '''', hom_Labels = None, hom_ResourceVersion = ''''\<rparr>,
     hsd_Spec = zero_hSpec, hsd_Status = zero_hStatus\<rparr>"

definition zero_hDecisionList :: hDecisionList where
  "zero_hDecisionList = \<lparr>hdl_TypeMeta = \<lparr>tm_Kind = '''', tm_APIVersion = ''''\<rparr>,
     hdl_ListMeta = \<lparr>hlm_ResourceVersion = '''', hlm_Continue = '''', hlm_RemainingItemCount = None\<rparr>,
     hdl_Items = NilSlice\<rparr>"

section \<open>The generated methods\<close>

record meta_calls =
  ObjectMeta_DeepCopyInto :: "hObjectMeta \<Rightarrow> goheap \<Rightarrow> (hObjectMeta \<times> goheap) option"
  ListMeta_DeepCopyInto :: "hListMeta \<Rightarrow> goheap \<Rightarrow> (hListMeta \<times> goheap) option"
  Time_DeepCopyInto :: "gotime \<Rightarrow> gotime"

definition CandidateNode_DeepCopyInto :: "hCandidateNode \<Rightarrow> goheap \<Rightarrow> (hCandidateNode \<times> goheap) option" where
  "CandidateNode_DeepCopyInto inp H =
     do { (score, H1) \<leftarrow> copy_ptr as_int IntCell 0 (hcn_Score inp) H;
          Some (inp\<lparr>hcn_Score := score\<rparr>, H1) }"

definition CandidateNode_DeepCopy :: "addr option \<Rightarrow> goheap \<Rightarrow> (addr option \<times> goheap) option" where
  "CandidateNode_DeepCopy = new_copy as_node NodeCell zero_hCandidateNode CandidateNode_DeepCopyInto"

definition SourceRef_DeepCopyInto :: "SourceRef \<Rightarrow> goheap \<Rightarrow> (SourceRef \<times> goheap) option" where
  "SourceRef_DeepCopyInto inp H = Some (inp, H)"

definition SourceRef_DeepCopy :: "addr option \<Rightarrow> goheap \<Rightarrow> (addr option \<times> goheap) option" where
  "SourceRef_DeepCopy = new_copy as_src SrcCell zero_SourceRef SourceRef_DeepCopyInto"

definition VolumeContext_DeepCopyInto :: "VolumeContext \<Rightarrow> goheap \<Rightarrow> (VolumeContext \<times> goheap) option" where
  "VolumeContext_DeepCopyInto inp H = Some (inp, H)"

definition VolumeContext_DeepCopy :: "addr option \<Rightarrow> goheap \<Rightarrow> (addr option \<times> goheap) option" where
  "VolumeContext_DeepCopy = new_copy as_vol VolCell zero_VolumeContext VolumeContext_DeepCopyInto"

definition SchedulingTransition_DeepCopyInto ::
    "meta_calls \<Rightarrow> hTransition \<Rightarrow> goheap \<Rightarrow> (hTransition \<times> goheap) option" where
  "SchedulingTransition_DeepCopyInto K inp H =
     (let out = inp\<lparr>htr_DecisionTimestamp := Time_DeepCopyInto K (htr_DecisionTimestamp inp)\<rparr>
      in do { (nodes, H1) \<leftarrow> copy_slice as_nodes NodesArr zero_hCandidateNode CandidateNode_DeepCopyInto
                (htr_CandidateNodes inp) H;
              Some (out\<lparr>htr_CandidateNodes := nodes, htr_SourceRef := htr_SourceRef inp\<rparr>, H1) })"

definition SchedulingTransition_DeepCopy ::
    "meta_calls \<Rightarrow> addr option \<Rightarrow> goheap \<Rightarrow> (addr option \<times> goheap) option" where
  "SchedulingTransition_DeepCopy K =
     new_copy as_trans TransCell zero_hTransition (SchedulingTransition_DeepCopyInto K)"

definition SchedulingDecisionStatus_DeepCopyInto ::
    "meta_calls \<Rightarrow> hStatus \<Rightarrow> goheap \<Rightarrow> (hStatus \<times> goheap) option" where
  "SchedulingDecisionStatus_DeepCopyInto K inp H =
     (let out = inp\<lparr>hst_DecisionTimestamp := Time_DeepCopyInto K (hst_DecisionTimestamp inp)\<rparr>
      in do { (ts, H1) \<leftarrow> copy_slice as_transs TransArr zero_hTransition (SchedulingTransition_DeepCopyInto K)
                (hst_Transitions inp) H;
              Some (out\<lparr>hst_Transitions := ts\<rparr>, H1) })"

definition SchedulingDecisionStatus_DeepCopy ::
    "meta_calls \<Rightarrow> addr option \<Rightarrow> goheap \<Rightarrow> (addr option \<times> goheap) option" where
  "SchedulingDecisionStatus_DeepCopy K =
     new_copy as_status StatusCell zero_hStatus (SchedulingDecisionStatus_DeepCopyInto K)"

definition SchedulingDecisionSpec_DeepCopyInto :: "hSpec \<Rightarrow> goheap \<Rightarrow> (hSpec \<times> goheap) option" where
  "SchedulingDecisionSpec_DeepCopyInto inp H =
     do { (vol, H1) \<leftarrow> copy_ptr as_vol VolCell zero_VolumeContext (hsp_VolumeContext inp) H;
          Some (inp\<lparr>hsp_VolumeContext := vol\<rparr>, H1) }"

definition SchedulingDecisionSpec_DeepCopy :: "addr option \<Rightarrow> goheap \<Rightarrow> (addr option \<times> goheap) option" where
  "SchedulingDecisionSpec_DeepCopy = new_copy as_spec SpecCell zero_hSpec SchedulingDecisionSpec_DeepCopyInto"

definition SchedulingDecision_DeepCopyInto ::
    "meta_calls \<Rightarrow> hDecision \<Rightarrow> goheap \<Rightarrow> (hDecision \<times> goheap) option" where
  "SchedulingDecision_DeepCopyInto K inp H =
     (let out = inp\<lparr>hsd_TypeMeta := hsd_TypeMeta inp\<rparr>
      in do { (om, H1) \<leftarrow> ObjectMeta_DeepCopyInto K (hsd_ObjectMeta inp) H;
              (sp, H2) \<leftarrow> SchedulingDecisionSpec_DeepCopyInto (hsd_Spec inp) H1;
              (st, H3) \<leftarrow> SchedulingDecisionStatus_DeepCopyInto K (hsd_Status inp) H2;
              Some (out\<lparr>hsd_ObjectMeta := om, hsd_Spec := sp, hsd_Status := st\<rparr>, H3) })"

definition SchedulingDecision_DeepCopy ::
    "meta_calls \<Rightarrow> addr option \<Rightarrow> goheap \<Rightarrow> (addr option \<times> goheap) option" where
  "SchedulingDecision_DeepCopy K = new_copy as_dec DecCell zero_hDecision (SchedulingDecision_DeepCopyInto K)"

text \<open>A \<open>runtime.Object\<close> is nil or a pointer: the conversion keeps both.\<close>

definition SchedulingDecision_DeepCopyObject ::
    "meta_calls \<Rightarrow> addr option \<Rightarrow> goheap \<Rightarrow> (addr option \<times> goheap) option" where
  "SchedulingDecision_DeepCopyObject K inp H =
     do { (c, H1) \<leftarrow> SchedulingDecision_DeepCopy K inp H;
          (case c of Some p \<Rightarrow> Some (Some p, H1) | None \<Rightarrow> Some (None, H1)) }"

definition SchedulingDecisionList_DeepCopyInto ::
    "meta_calls \<Rightarrow> hDecisionList \<Rightarrow> goheap \<Rightarrow> (hDecisionList \<times> goheap) option" where
  "SchedulingDecisionList_DeepCopyInto K inp H =
     (let out = inp\<lparr>hdl_TypeMeta := hdl_TypeMeta inp\<rparr>
      in do { (lm, H1) \<leftarrow> ListMeta_DeepCopyInto K (hdl_ListMeta inp) H;
              (items, H2) \<leftarrow> copy_slice as_decs DecsArr zero_hDecision (SchedulingDecision_DeepCopyInto K)
                (hdl_Items inp) H1;
              Some (out\<lparr>hdl_ListMeta := lm, hdl_Items := items\<rparr>, H2) })"

definition SchedulingDecisionList_DeepCopy ::
    "meta_calls \<Rightarrow> addr option \<Rightarrow> goheap \<Rightarrow> (addr option \<times> goheap) option" where
  "SchedulingDecisionList_DeepCopy K =
     new_copy as_list ListCell zero_hDecisionList (SchedulingDecisionList_DeepCopyInto K)"

definition SchedulingDecisionList_DeepCopyObject ::
    "meta_calls \<Rightarrow> addr option \<Rightarrow> goheap \<Rightarrow> (addr option \<times> goheap) option" where
  "SchedulingDecisionList_DeepCopyObject K inp H =
     do { (c, H1) \<leftarrow> SchedulingDecisionList_DeepCopy K inp H;
          (case c of Some p \<Rightarrow> Some (Some p, H1) | None \<Rightarrow> Some (None, H1)) }"

section \<open>Values\<close>

definition val_node :: "(addr \<rightharpoonup> cell) \<Rightarrow> hCandidateNode \<Rightarrow> CandidateNode option" where
  "val_node m x =
     do { s \<leftarrow> abs_ptr as_int m (hcn_Score x);
          Some \<lparr>cn_Name = hcn_Name x, cn_FilterResult = hcn_FilterResult x, cn_Score = s\<rparr> }"

definition val_trans :: "(addr \<rightharpoonup> cell) \<Rightarrow> hTransition \<Rightarrow> SchedulingTransition option" where
  "val_trans m x =
     do { ns \<leftarrow> abs_slice as_nodes val_node m (htr_CandidateNodes x);
          Some \<lparr>tr_Outcome = htr_Outcome x, tr_ChosenNode = htr_ChosenNode x,
                tr_ReasonSummary = htr_ReasonSummary x, tr_DecisionTimestamp = htr_DecisionTimestamp x,
                tr_SchedulingLatencyMs = htr_SchedulingLatencyMs x, tr_CandidateNodes = ns,
                tr_SourceRef = htr_SourceRef x\<rparr> }"

definition val_status :: "(addr \<rightharpoonup> cell) \<Rightarrow> hStatus \<Rightarrow> SchedulingDecisionStatus option" where
  "val_status m x =
     do { ts \<leftarrow> abs_slice as_transs val_trans m (hst_Transitions x);
          Some \<lparr>st_Outcome = hst_Outcome x, st_ChosenNode = hst_ChosenNode x,
                st_ReasonSummary = hst_ReasonSummary x, st_DecisionTimestamp = hst_DecisionTimestamp x,
                st_SchedulingLatencyMs = hst_SchedulingLatencyMs x, st_Transitions = ts\<rparr> }"

definition val_spec :: "(addr \<rightharpoonup> cell) \<Rightarrow> hSpec \<Rightarrow> SchedulingDecisionSpec option" where
  "val_spec m x =
     do { v \<leftarrow> abs_ptr as_vol m (hsp_VolumeContext x);
          Some \<lparr>sp_PodName = hsp_PodName x, sp_PodNamespace = hsp_PodNamespace x, sp_PodUID = hsp_PodUID x,
                sp_SchedulerName = hsp_SchedulerName x, sp_VolumeContext = v\<rparr> }"

definition val_meta :: "(addr \<rightharpoonup> cell) \<Rightarrow> hObjectMeta \<Rightarrow> ObjectMeta option" where
  "val_meta m x =
     do { l \<leftarrow> abs_ptr as_labels m (hom_Labels x);
          Some \<lparr>om_Name = hom_Name x, om_Labels = (case l of None \<Rightarrow> Map.empty | Some l \<Rightarrow> l),
                om_ResourceVersion = hom_ResourceVersion x\<rparr> }"

definition val_lmeta :: "(addr \<rightharpoonup> cell) \<Rightarrow> hListMeta \<Rightarrow> (string \<times> string \<times> int option) option" where
  "val_lmeta m x =
     do { r \<leftarrow> abs_ptr as_int m (hlm_RemainingItemCount x);
          Some (hlm_ResourceVersion x, hlm_Continue x, r) }"

definition val_dec :: "(addr \<rightharpoonup> cell) \<Rightarrow> hDecision \<Rightarrow> (TypeMeta \<times> SchedulingDecision) option" where
  "val_dec m x =
     do { om \<leftarrow> val_meta m (hsd_ObjectMeta x); sp \<leftarrow> val_spec m (hsd_Spec x); st \<leftarrow> val_status m (hsd_Status x);
          Some (hsd_TypeMeta x, \<lparr>sd_ObjectMeta = om, sd_Spec = sp, sd_Status = st\<rparr>) }"

definition val_list ::
    "(addr \<rightharpoonup> cell) \<Rightarrow> hDecisionList \<Rightarrow> (TypeMeta \<times> (string \<times> string \<times> int option) \<times> (TypeMeta \<times> SchedulingDecision) list) option" where
  "val_list m x =
     do { lm \<leftarrow> val_lmeta m (hdl_ListMeta x); ds \<leftarrow> abs_slice as_decs val_dec m (hdl_Items x);
          Some (hdl_TypeMeta x, lm, ds) }"

lemma copies_to_map:
  assumes "copies_to rd res H v"
    and "\<And>y m. rd m y = Some v \<Longrightarrow> rd' m (f y) = Some v'"
  shows "copies_to rd' (do { (y, H1) \<leftarrow> res; Some (f y, H1) }) H v'"
  using assms by (fastforce simp: copies_to_def)

text \<open>A second copy after a first one: both live in the cells that are new since the start.\<close>

lemma copies_to_bind:
  assumes "copies_to rd res H v" and "wf_heap H"
    and mono: "\<And>m m' y. m \<subseteq>\<^sub>m m' \<Longrightarrow> rd m y = Some v \<Longrightarrow> rd m' y = Some v"
    and mono': "\<And>m m' y. m \<subseteq>\<^sub>m m' \<Longrightarrow> rd' m y = Some v' \<Longrightarrow> rd' m' y = Some v'"
    and follow: "\<And>H1. grows H H1 \<Longrightarrow> copies_to rd' (res' H1) H1 v'"
  shows "copies_to (\<lambda>m (y, z). do { a \<leftarrow> rd m y; b \<leftarrow> rd' m z; Some (a, b) })
    (do { (y, H1) \<leftarrow> res; (z, H2) \<leftarrow> res' H1; Some ((y, z), H2) }) H (v, v')"
proof -
  from assms(1) obtain y H1 where y: "res = Some (y, H1)" and g1: "grows H H1"
    and ry: "rd (new_cells (gh_next H) H1) y = Some v" by (auto simp: copies_to_def)
  from follow [OF g1] obtain z H2 where z: "res' H1 = Some (z, H2)" and g2: "grows H1 H2"
    and rz: "rd' (new_cells (gh_next H1) H2) z = Some v'" by (auto simp: copies_to_def)
  have "rd (new_cells (gh_next H) H2) y = Some v" by (rule mono [OF grows_new [OF grows_wf [OF g1] g2] ry])
  moreover have "rd' (new_cells (gh_next H) H2) z = Some v'"
    by (rule mono' [OF new_cells_le rz]) (rule grows_next [OF g1])
  ultimately show ?thesis using y z grows_trans [OF g1 g2] by (auto simp: copies_to_def)
qed

section \<open>Every generated method is a deep copy\<close>

interpretation node: deep_copier val_node CandidateNode_DeepCopyInto
proof
  show "m \<subseteq>\<^sub>m m' \<Longrightarrow> val_node m x = Some v \<Longrightarrow> val_node m' x = Some v" for m m' x v
    by (auto simp: val_node_def bind_eq_Some_conv dest: abs_ptr_mono)
  show "copies_to val_node (CandidateNode_DeepCopyInto x H) H v"
    if wf: "wf_heap H" and v: "val_node (gh_cells H) x = Some v" for H x v
  proof -
    from v obtain s where s: "abs_ptr as_int (gh_cells H) (hcn_Score x) = Some s"
      and "v = \<lparr>cn_Name = hcn_Name x, cn_FilterResult = hcn_FilterResult x, cn_Score = s\<rparr>"
      by (auto simp: val_node_def bind_eq_Some_conv)
    then show ?thesis
      unfolding CandidateNode_DeepCopyInto_def
      by (intro copies_to_map [OF copy_ptr_copies [OF wf _ s]]) (simp_all add: val_node_def)
  qed
qed

interpretation spec: deep_copier val_spec SchedulingDecisionSpec_DeepCopyInto
proof
  show "m \<subseteq>\<^sub>m m' \<Longrightarrow> val_spec m x = Some v \<Longrightarrow> val_spec m' x = Some v" for m m' x v
    by (auto simp: val_spec_def bind_eq_Some_conv dest: abs_ptr_mono)
  show "copies_to val_spec (SchedulingDecisionSpec_DeepCopyInto x H) H v"
    if wf: "wf_heap H" and v: "val_spec (gh_cells H) x = Some v" for H x v
  proof -
    from v obtain p where p: "abs_ptr as_vol (gh_cells H) (hsp_VolumeContext x) = Some p"
      and "v = \<lparr>sp_PodName = hsp_PodName x, sp_PodNamespace = hsp_PodNamespace x, sp_PodUID = hsp_PodUID x,
        sp_SchedulerName = hsp_SchedulerName x, sp_VolumeContext = p\<rparr>"
      by (auto simp: val_spec_def bind_eq_Some_conv)
    then show ?thesis
      unfolding SchedulingDecisionSpec_DeepCopyInto_def
      by (intro copies_to_map [OF copy_ptr_copies [OF wf _ p]]) (simp_all add: val_spec_def)
  qed
qed

text \<open>What the metadata methods of apimachinery promise.\<close>

locale meta_copies =
  fixes K :: meta_calls
  assumes meta_into: "wf_heap H \<Longrightarrow> val_meta (gh_cells H) x = Some v \<Longrightarrow>
      copies_to val_meta (ObjectMeta_DeepCopyInto K x H) H v"
    and lmeta_into: "wf_heap H \<Longrightarrow> val_lmeta (gh_cells H) y = Some u \<Longrightarrow>
      copies_to val_lmeta (ListMeta_DeepCopyInto K y H) H u"
    and time_into: "Time_DeepCopyInto K t = t"

lemma val_meta_mono: "m \<subseteq>\<^sub>m m' \<Longrightarrow> val_meta m x = Some v \<Longrightarrow> val_meta m' x = Some v"
  by (auto simp: val_meta_def bind_eq_Some_conv dest: abs_ptr_mono)

lemma val_lmeta_mono: "m \<subseteq>\<^sub>m m' \<Longrightarrow> val_lmeta m x = Some v \<Longrightarrow> val_lmeta m' x = Some v"
  by (auto simp: val_lmeta_def bind_eq_Some_conv dest: abs_ptr_mono)

lemma val_trans_mono: "m \<subseteq>\<^sub>m m' \<Longrightarrow> val_trans m x = Some v \<Longrightarrow> val_trans m' x = Some v"
  by (auto simp: val_trans_def bind_eq_Some_conv dest: node.abs_slice_mono)

interpretation trans: heap_type val_trans
  by unfold_locales (rule val_trans_mono)

lemma val_status_mono: "m \<subseteq>\<^sub>m m' \<Longrightarrow> val_status m x = Some v \<Longrightarrow> val_status m' x = Some v"
  by (auto simp: val_status_def bind_eq_Some_conv dest: trans.abs_slice_mono)

lemma val_dec_mono: "m \<subseteq>\<^sub>m m' \<Longrightarrow> val_dec m x = Some v \<Longrightarrow> val_dec m' x = Some v"
  by (auto simp: val_dec_def bind_eq_Some_conv dest: val_meta_mono spec.rd_mono val_status_mono)

interpretation dec: heap_type val_dec
  by unfold_locales (rule val_dec_mono)

lemma val_list_mono: "m \<subseteq>\<^sub>m m' \<Longrightarrow> val_list m x = Some v \<Longrightarrow> val_list m' x = Some v"
  by (auto simp: val_list_def bind_eq_Some_conv dest: dec.abs_slice_mono val_lmeta_mono)

context meta_copies
begin

lemma trans_copies: "deep_copier val_trans (SchedulingTransition_DeepCopyInto K)"
proof
  show "copies_to val_trans (SchedulingTransition_DeepCopyInto K x H) H v"
    if wf: "wf_heap H" and v: "val_trans (gh_cells H) x = Some v" for H x v
  proof -
    from v obtain ns where ns: "abs_slice as_nodes val_node (gh_cells H) (htr_CandidateNodes x) = Some ns"
      and "v = \<lparr>tr_Outcome = htr_Outcome x, tr_ChosenNode = htr_ChosenNode x,
        tr_ReasonSummary = htr_ReasonSummary x, tr_DecisionTimestamp = htr_DecisionTimestamp x,
        tr_SchedulingLatencyMs = htr_SchedulingLatencyMs x, tr_CandidateNodes = ns, tr_SourceRef = htr_SourceRef x\<rparr>"
      by (auto simp: val_trans_def bind_eq_Some_conv)
    then show ?thesis
      unfolding SchedulingTransition_DeepCopyInto_def Let_def time_into
      by (intro copies_to_map [OF node.copy_slice_copies [OF _ wf ns]]) (simp_all add: val_trans_def)
  qed
qed

lemma status_copies: "deep_copier val_status (SchedulingDecisionStatus_DeepCopyInto K)"
proof
  show "copies_to val_status (SchedulingDecisionStatus_DeepCopyInto K x H) H v"
    if wf: "wf_heap H" and v: "val_status (gh_cells H) x = Some v" for H x v
  proof -
    from v obtain ts where ts: "abs_slice as_transs val_trans (gh_cells H) (hst_Transitions x) = Some ts"
      and "v = \<lparr>st_Outcome = hst_Outcome x, st_ChosenNode = hst_ChosenNode x,
        st_ReasonSummary = hst_ReasonSummary x, st_DecisionTimestamp = hst_DecisionTimestamp x,
        st_SchedulingLatencyMs = hst_SchedulingLatencyMs x, st_Transitions = ts\<rparr>"
      by (auto simp: val_status_def bind_eq_Some_conv)
    then show ?thesis
      unfolding SchedulingDecisionStatus_DeepCopyInto_def Let_def time_into
      by (intro copies_to_map [OF deep_copier.copy_slice_copies [OF trans_copies _ wf ts]])
        (simp_all add: val_status_def)
  qed
qed (rule val_status_mono)

lemma dec_copies: "deep_copier val_dec (SchedulingDecision_DeepCopyInto K)"
proof
  show "copies_to val_dec (SchedulingDecision_DeepCopyInto K x H) H v"
    if wf: "wf_heap H" and v: "val_dec (gh_cells H) x = Some v" for H x v
  proof -
    from v obtain om sp st where om: "val_meta (gh_cells H) (hsd_ObjectMeta x) = Some om"
      and sp: "val_spec (gh_cells H) (hsd_Spec x) = Some sp" and st: "val_status (gh_cells H) (hsd_Status x) = Some st"
      and v: "v = (hsd_TypeMeta x, \<lparr>sd_ObjectMeta = om, sd_Spec = sp, sd_Status = st\<rparr>)"
      by (auto simp: val_dec_def bind_eq_Some_conv)
    have rest: "copies_to (\<lambda>m (y, z). do { a \<leftarrow> val_spec m y; b \<leftarrow> val_status m z; Some (a, b) })
        (do { (y, H2) \<leftarrow> SchedulingDecisionSpec_DeepCopyInto (hsd_Spec x) H1;
              (z, H3) \<leftarrow> SchedulingDecisionStatus_DeepCopyInto K (hsd_Status x) H2; Some ((y, z), H3) }) H1 (sp, st)"
      if g: "grows H H1" for H1
    proof (rule copies_to_bind [OF spec.into_copies])
      show "val_spec (gh_cells H1) (hsd_Spec x) = Some sp" by (rule spec.rd_mono [OF grows_cells [OF wf g] sp])
      show "copies_to val_status (SchedulingDecisionStatus_DeepCopyInto K (hsd_Status x) H2) H2 st"
        if g2: "grows H1 H2" for H2
        by (rule deep_copier.into_copies [OF status_copies grows_wf [OF g2]],
            rule val_status_mono [OF grows_cells [OF wf grows_trans [OF g g2]] st])
    qed (use grows_wf [OF g] in \<open>auto intro: spec.rd_mono val_status_mono\<close>)
    have "copies_to (\<lambda>m (y, z). do { a \<leftarrow> val_meta m y;
          b \<leftarrow> (\<lambda>m (y, z). do { a \<leftarrow> val_spec m y; b \<leftarrow> val_status m z; Some (a, b) }) m z; Some (a, b) })
        (do { (y, H1) \<leftarrow> ObjectMeta_DeepCopyInto K (hsd_ObjectMeta x) H;
              (z, H2) \<leftarrow> (do { (y, H2) \<leftarrow> SchedulingDecisionSpec_DeepCopyInto (hsd_Spec x) H1;
                (z, H3) \<leftarrow> SchedulingDecisionStatus_DeepCopyInto K (hsd_Status x) H2; Some ((y, z), H3) });
              Some ((y, z), H2) }) H (om, (sp, st))"
      by (rule copies_to_bind [OF meta_into [OF wf om] wf _ _ rest])
        (auto simp: bind_eq_Some_conv intro: val_meta_mono spec.rd_mono val_status_mono)
    then obtain y H1 z H2 u H3 where steps: "ObjectMeta_DeepCopyInto K (hsd_ObjectMeta x) H = Some (y, H1)"
        "SchedulingDecisionSpec_DeepCopyInto (hsd_Spec x) H1 = Some (z, H2)"
        "SchedulingDecisionStatus_DeepCopyInto K (hsd_Status x) H2 = Some (u, H3)"
      and g: "grows H H3" and vals: "val_meta (new_cells (gh_next H) H3) y = Some om"
        "val_spec (new_cells (gh_next H) H3) z = Some sp" "val_status (new_cells (gh_next H) H3) u = Some st"
      by (auto simp: copies_to_def bind_eq_Some_conv)
    then show ?thesis
      by (simp add: copies_to_def SchedulingDecision_DeepCopyInto_def val_dec_def v)
  qed
qed

lemma list_copies: "deep_copier val_list (SchedulingDecisionList_DeepCopyInto K)"
proof
  show "copies_to val_list (SchedulingDecisionList_DeepCopyInto K x H) H v"
    if wf: "wf_heap H" and v: "val_list (gh_cells H) x = Some v" for H x v
  proof -
    from v obtain lm ds where lm: "val_lmeta (gh_cells H) (hdl_ListMeta x) = Some lm"
      and ds: "abs_slice as_decs val_dec (gh_cells H) (hdl_Items x) = Some ds" and v: "v = (hdl_TypeMeta x, lm, ds)"
      by (auto simp: val_list_def bind_eq_Some_conv)
    have rest: "copies_to (abs_slice as_decs val_dec) (copy_slice as_decs DecsArr zero_hDecision
        (SchedulingDecision_DeepCopyInto K) (hdl_Items x) H1) H1 ds" if g: "grows H H1" for H1
      by (rule deep_copier.copy_slice_copies [OF dec_copies as_cell(13) grows_wf [OF g]],
          rule dec.abs_slice_mono [OF grows_cells [OF wf g] ds])
    have "copies_to (\<lambda>m (y, z). do { a \<leftarrow> val_lmeta m y; b \<leftarrow> abs_slice as_decs val_dec m z; Some (a, b) })
        (do { (y, H1) \<leftarrow> ListMeta_DeepCopyInto K (hdl_ListMeta x) H;
              (z, H2) \<leftarrow> copy_slice as_decs DecsArr zero_hDecision (SchedulingDecision_DeepCopyInto K) (hdl_Items x) H1;
              Some ((y, z), H2) }) H (lm, ds)"
      by (rule copies_to_bind [OF lmeta_into [OF wf lm] wf val_lmeta_mono dec.abs_slice_mono rest])
    then show ?thesis
      by (auto simp: copies_to_def bind_eq_Some_conv SchedulingDecisionList_DeepCopyInto_def val_list_def v)
  qed
qed (rule val_list_mono)

end

end
