(* ===== verification/Aliasing.thy ===== *)
theory Aliasing
  imports Deep_Copy Decision
begin

text \<open>
  Why the controller may modify what it reads. Its client hands out deep copies of the objects in a
  shared cache; \<open>appendTransitionWithRetry\<close> then appends to the status of the copy in place. At the level
  of pointers and slices, the properties say that deep copies share no memory with the original,
  and that the in-place \<open>applyTransition\<close> computes what \<open>Decision.applyTransition\<close> says on values
  while the cached object keeps its value.
\<close>

section \<open>The metadata methods\<close>

text \<open>One implementation of the metadata methods: labels and counters are copied behind new pointers.\<close>

definition std_meta :: meta_calls where
  "std_meta =
     \<lparr>ObjectMeta_DeepCopyInto = (\<lambda>x H. do { (l, H1) \<leftarrow> copy_ptr as_labels LabelsCell Map.empty (hom_Labels x) H;
        Some (x\<lparr>hom_Labels := l\<rparr>, H1) }),
      ListMeta_DeepCopyInto = (\<lambda>x H. do { (r, H1) \<leftarrow> copy_ptr as_int IntCell 0 (hlm_RemainingItemCount x) H;
        Some (x\<lparr>hlm_RemainingItemCount := r\<rparr>, H1) }),
      Time_DeepCopyInto = (\<lambda>t. t)\<rparr>"

interpretation std: meta_copies std_meta
proof
  show "copies_to val_meta (ObjectMeta_DeepCopyInto std_meta x H) H v"
    if wf: "wf_heap H" and v: "val_meta (gh_cells H) x = Some v" for H x v
  proof -
    from v obtain l where l: "abs_ptr as_labels (gh_cells H) (hom_Labels x) = Some l"
      and "v = \<lparr>om_Name = hom_Name x, om_Labels = (case l of None \<Rightarrow> Map.empty | Some l \<Rightarrow> l),
        om_ResourceVersion = hom_ResourceVersion x\<rparr>"
      by (auto simp: val_meta_def bind_eq_Some_conv)
    then show ?thesis
      unfolding std_meta_def meta_calls.simps
      by (intro copies_to_map [OF copy_ptr_copies [OF wf _ l]]) (simp_all add: val_meta_def)
  qed
  show "copies_to val_lmeta (ListMeta_DeepCopyInto std_meta x H) H v"
    if wf: "wf_heap H" and v: "val_lmeta (gh_cells H) x = Some v" for H x v
  proof -
    from v obtain r where r: "abs_ptr as_int (gh_cells H) (hlm_RemainingItemCount x) = Some r"
      and "v = (hlm_ResourceVersion x, hlm_Continue x, r)"
      by (auto simp: val_lmeta_def bind_eq_Some_conv)
    then show ?thesis
      unfolding std_meta_def meta_calls.simps
      by (intro copies_to_map [OF copy_ptr_copies [OF wf _ r]]) (simp_all add: val_lmeta_def)
  qed
qed (simp add: std_meta_def)

section \<open>Copies of lists\<close>

text \<open>
  C24: the copy of a SchedulingDecisionList has the value of the original and shares no memory with
  it. Whatever is later written to the cells of the copy, the original reads the same, and
  whatever is written to the cells of the original, the copy does.
\<close>

theorem list_deepcopy_isolated:
  assumes "meta_copies K" and "wf_heap H" and "abs_cell as_list val_list (gh_cells H) p = Some v"
  shows "\<exists>q H'. SchedulingDecisionList_DeepCopyObject K (Some p) H = Some (Some q, H') \<and>
    abs_cell as_list val_list (gh_cells H') q = Some v \<and>
    (\<forall>H''. (\<forall>a<gh_next H. gh_cells H'' a = gh_cells H' a) \<longrightarrow>
       abs_cell as_list val_list (gh_cells H'') p = Some v) \<and>
    (\<forall>H''. (\<forall>a\<ge>gh_next H. gh_cells H'' a = gh_cells H' a) \<longrightarrow>
       abs_cell as_list val_list (gh_cells H'') q = Some v)"
  using deep_copier.new_copy_isolated [OF meta_copies.list_copies [OF assms(1)] as_cell(10) assms(2,3),
      of zero_hDecisionList]
  by (fastforce simp: SchedulingDecisionList_DeepCopyObject_def SchedulingDecisionList_DeepCopy_def)

section \<open>Applying a transition in place\<close>

text \<open>
  \<open>append(s, x)\<close>: in place while there is capacity, else into a new array with \<open>grow\<close> extra elements,
  a number the language leaves open.
\<close>

definition append_trans :: "(nat \<Rightarrow> nat) \<Rightarrow> slice \<Rightarrow> hTransition \<Rightarrow> goheap \<Rightarrow> (slice \<times> goheap) option" where
  "append_trans grow s x H =
     (case s of
        NilSlice \<Rightarrow>
          (let (b, H1) = alloc (TransArr (x # replicate (grow 0) zero_hTransition)) H
           in Some (Slice b 1 (1 + grow 0), H1))
      | Slice a n k \<Rightarrow>
          do { c \<leftarrow> gh_cells H a;
               xs \<leftarrow> as_transs c;
               if n < k then Some (Slice a (Suc n) k, store a (TransArr (xs[n := x])) H)
               else (let (b, H1) = alloc (TransArr (take n xs @ x # replicate (grow n) zero_hTransition)) H
                     in Some (Slice b (Suc n) (Suc n + grow n), H1)) })"

text \<open>\<open>applyTransition(&decision.Status, transition)\<close> on the decision in cell \<open>pd\<close> and the transition in \<open>pt\<close>.\<close>

definition applyTransition_heap :: "(nat \<Rightarrow> nat) \<Rightarrow> addr \<Rightarrow> addr \<Rightarrow> goheap \<Rightarrow> goheap option" where
  "applyTransition_heap grow pd pt H =
     do { cd \<leftarrow> gh_cells H pd;
          d \<leftarrow> as_dec cd;
          ct \<leftarrow> gh_cells H pt;
          t \<leftarrow> as_trans ct;
          (ts, H1) \<leftarrow> append_trans grow (hst_Transitions (hsd_Status d)) t H;
          (let st = (hsd_Status d)\<lparr>hst_Transitions := ts\<rparr>;
               st = st\<lparr>hst_Outcome := htr_Outcome t\<rparr>;
               st = st\<lparr>hst_ChosenNode := htr_ChosenNode t\<rparr>;
               st = st\<lparr>hst_ReasonSummary := htr_ReasonSummary t\<rparr>;
               st = st\<lparr>hst_DecisionTimestamp := htr_DecisionTimestamp t\<rparr>;
               st = st\<lparr>hst_SchedulingLatencyMs := htr_SchedulingLatencyMs t\<rparr>
           in Some (store pd (DecCell (d\<lparr>hsd_Status := st\<rparr>)) H1)) }"

text \<open>A slice without spare capacity is appended to in a new array.\<close>

lemma append_tight:
  assumes wf: "wf_heap H" and tight: "s = NilSlice \<or> (\<exists>b n. s = Slice b n n)"
    and vs: "abs_slice as_transs val_trans m s = Some vs" and t: "val_trans m' x = Some v"
    and m: "m \<subseteq>\<^sub>m gh_cells H" "m \<subseteq>\<^sub>m m'"
  shows "\<exists>s' H'. append_trans grow s x H = Some (s', H') \<and> grows H H' \<and>
    (\<forall>m''. m' \<subseteq>\<^sub>m m'' \<longrightarrow> m'' (gh_next H) = gh_cells H' (gh_next H) \<longrightarrow>
       abs_slice as_transs val_trans m'' s' = Some (vs @ [v]))"
proof (cases s)
  case NilSlice
  obtain b H1 where al: "alloc (TransArr (x # replicate (grow 0) zero_hTransition)) H = (b, H1)" by force
  note g = alloc_grows [OF wf al] and b = alloc_addr [OF al]
  from NilSlice vs have "vs = []" by (simp add: abs_slice_def)
  with NilSlice al b g t val_trans_mono show ?thesis
    by (auto simp: append_trans_def abs_slice_def)
next
  case (Slice a n k)
  with tight have k: "k = n" by auto
  from Slice vs obtain c xs where c: "m a = Some c" "as_transs c = Some xs" "length xs = n"
    and ws: "those (map (val_trans m) (take n xs)) = Some vs"
    by (auto simp: abs_slice_def k bind_eq_Some_conv split: if_splits)
  from ws c(3) have ws: "those (map (val_trans m) xs) = Some vs" by simp
  obtain b H1 where al: "alloc (TransArr (take n xs @ x # replicate (grow n) zero_hTransition)) H = (b, H1)" by force
  note g = alloc_grows [OF wf al] and b = alloc_addr [OF al]
  have res: "append_trans grow s x H = Some (Slice b (Suc n) (Suc n + grow n), H1)"
    using Slice k c al map_le_Some [OF m(1) c(1)] by (simp add: append_trans_def)
  have "abs_slice as_transs val_trans m'' (Slice b (Suc n) (Suc n + grow n)) = Some (vs @ [v])"
    if le: "m' \<subseteq>\<^sub>m m''" and "m'' (gh_next H) = gh_cells H1 (gh_next H)" for m''
  proof -
    have "those (map (val_trans m'') xs) = Some vs"
      using ws by (rule those_map_mono [rotated]) (blast intro: val_trans_mono map_le_trans [OF m(2) le])
    moreover have "val_trans m'' x = Some v" using t le by (rule val_trans_mono [rotated])
    moreover have "m'' b = Some (TransArr (xs @ x # replicate (grow n) zero_hTransition))"
      using that(2) b c(3) by auto
    ultimately show ?thesis using c(3) by (simp add: abs_slice_def those_snoc)
  qed
  with res g show ?thesis by blast
qed

lemma decision_copy_tight:
  "SchedulingDecision_DeepCopyInto K x H = Some (y, H') \<Longrightarrow>
     hst_Transitions (hsd_Status y) = NilSlice \<or> (\<exists>b n. hst_Transitions (hsd_Status y) = Slice b n n)"
  by (auto simp: SchedulingDecision_DeepCopyInto_def SchedulingDecisionStatus_DeepCopyInto_def Let_def
      bind_eq_Some_conv dest!: copy_slice_tight)

text \<open>The decision after the update, and its value where the appended slice has the longer history.\<close>

abbreviation applied :: "hDecision \<Rightarrow> hTransition \<Rightarrow> slice \<Rightarrow> hDecision" where
  "applied y x s \<equiv> y\<lparr>hsd_Status := (hsd_Status y)
     \<lparr>hst_Transitions := s, hst_Outcome := htr_Outcome x, hst_ChosenNode := htr_ChosenNode x,
      hst_ReasonSummary := htr_ReasonSummary x, hst_DecisionTimestamp := htr_DecisionTimestamp x,
      hst_SchedulingLatencyMs := htr_SchedulingLatencyMs x\<rparr>\<rparr>"

lemma applied_value:
  assumes "val_dec m y = Some (tm, d)" and le: "m \<subseteq>\<^sub>m m2" and "val_trans m' x = Some t"
    and "abs_slice as_transs val_trans m2 s = Some (history_of d @ [t])"
  shows "val_dec m2 (applied y x s) = Some (tm, d\<lparr>sd_Status := applyTransition (sd_Status d) t\<rparr>)"
proof -
  from assms(1) obtain om sp st where "val_meta m (hsd_ObjectMeta y) = Some om" "val_spec m (hsd_Spec y) = Some sp"
    and d: "tm = hsd_TypeMeta y" "d = \<lparr>sd_ObjectMeta = om, sd_Spec = sp, sd_Status = st\<rparr>"
    by (auto simp: val_dec_def bind_eq_Some_conv)
  from val_meta_mono [OF le this(1)] spec.rd_mono [OF le this(2)] assms(3,4) d show ?thesis
    by (auto simp: val_dec_def val_status_def val_trans_def applyTransition_def bind_eq_Some_conv)
qed

lemma val_dec_history:
  "val_dec m y = Some (tm, d) \<Longrightarrow> abs_slice as_transs val_trans m (hst_Transitions (hsd_Status y)) = Some (history_of d)"
  by (auto simp: val_dec_def val_status_def bind_eq_Some_conv)

text \<open>
  C10: the cached object is safe from the in-place update. After a deep copy of a decision, applying a
  transition to the copy by pointer succeeds, gives the copy the value that \<open>applyTransition\<close>
  computes, and leaves the value of the original and of the transition as they were, for
  every growth policy of \<open>append\<close>.
\<close>

theorem cached_decision_protected:
  assumes K: "meta_copies K" and wf: "wf_heap H"
    and p: "abs_cell as_dec val_dec (gh_cells H) p = Some (tm, d)"
    and pt: "abs_cell as_trans val_trans (gh_cells H) pt = Some t"
  shows "\<exists>q H1 H2. SchedulingDecision_DeepCopyObject K (Some p) H = Some (Some q, H1) \<and>
    applyTransition_heap grow q pt H1 = Some H2 \<and>
    abs_cell as_dec val_dec (gh_cells H2) q = Some (tm, d\<lparr>sd_Status := applyTransition (sd_Status d) t\<rparr>) \<and>
    abs_cell as_dec val_dec (gh_cells H2) p = Some (tm, d) \<and>
    abs_cell as_trans val_trans (gh_cells H2) pt = Some t"
proof -
  let ?q = "gh_next H"
  from deep_copier.new_copy_copies [OF meta_copies.dec_copies [OF K] as_cell(9) wf p, of zero_hDecision] obtain y H1
    where copy: "new_copy as_dec DecCell zero_hDecision (SchedulingDecision_DeepCopyInto K) (Some p) H = Some (Some ?q, H1)"
      and g: "grows H H1" "?q < gh_next H1" and y: "gh_cells H1 ?q = Some (DecCell y)"
      and vy: "val_dec (new_cells (Suc ?q) H1) y = Some (tm, d)"
      and tight: "hst_Transitions (hsd_Status y) = NilSlice \<or> (\<exists>b n. hst_Transitions (hsd_Status y) = Slice b n n)"
    using decision_copy_tight by blast
  from pt obtain c x where c: "gh_cells H pt = Some c" "as_trans c = Some x" and vx: "val_trans (gh_cells H) x = Some t"
    by (auto simp: abs_cell_def bind_eq_Some_conv)
  let ?m = "(gh_cells H1)(?q := None)"
  have le: "gh_cells H \<subseteq>\<^sub>m ?m" using wf_heap_addr [OF wf] by (auto simp: map_le_def grows_cell [OF g(1)])
  have new: "new_cells (Suc ?q) H1 \<subseteq>\<^sub>m ?m"
    by (auto simp: map_le_def new_cells_def restrict_map_def split: if_splits)
  obtain s' Ha where app: "append_trans grow (hst_Transitions (hsd_Status y)) x H1 = Some (s', Ha)" and ga: "grows H1 Ha"
    and s': "\<And>m''. ?m \<subseteq>\<^sub>m m'' \<Longrightarrow> m'' (gh_next H1) = gh_cells Ha (gh_next H1) \<Longrightarrow>
      abs_slice as_transs val_trans m'' s' = Some (history_of d @ [t])"
    using append_tight [OF grows_wf [OF g(1)] tight val_dec_history [OF vy] val_trans_mono [OF le vx] new_cells_all new, of grow]
    by blast
  let ?H2 = "store ?q (DecCell (applied y x s')) Ha"
  have "gh_cells H1 pt = Some c" using c(1) grows_cell [OF g(1) wf_heap_addr [OF wf c(1)]] by simp
  with y c(2) app have upd: "applyTransition_heap grow ?q pt H1 = Some ?H2"
    by (simp add: applyTransition_heap_def Let_def)
  have m2: "?m \<subseteq>\<^sub>m gh_cells ?H2"
    using grows_cells [OF grows_wf [OF g(1)] ga] by (auto simp: map_le_def)
  have "abs_slice as_transs val_trans (gh_cells ?H2) s' = Some (history_of d @ [t])"
    using g(2) by (intro s' m2) simp
  from applied_value [OF vy map_le_trans [OF new m2] vx this]
  have "abs_cell as_dec val_dec (gh_cells ?H2) ?q = Some (tm, d\<lparr>sd_Status := applyTransition (sd_Status d) t\<rparr>)"
    by (simp add: abs_cell_def)
  moreover have all: "gh_cells H \<subseteq>\<^sub>m gh_cells ?H2" using le m2 by (rule map_le_trans)
  moreover have "SchedulingDecision_DeepCopyObject K (Some p) H = Some (Some ?q, H1)"
    using copy by (simp add: SchedulingDecision_DeepCopyObject_def SchedulingDecision_DeepCopy_def)
  ultimately show ?thesis
    using upd dec.abs_cell_mono [OF all p] trans.abs_cell_mono [OF all pt] by blast
qed

section \<open>A concrete heap\<close>

text \<open>A decision with one transition in an array with spare capacity, a label map and a transition to apply.\<close>

definition sample_heap :: goheap where
  "sample_heap =
     \<lparr>gh_cells =
        [0 \<mapsto> DecCell (zero_hDecision\<lparr>hsd_ObjectMeta := \<lparr>hom_Name = ''sdec-u1'', hom_Labels = Some 1, hom_ResourceVersion = ''7''\<rparr>,
                hsd_Status := zero_hStatus\<lparr>hst_Transitions := Slice 2 1 2\<rparr>\<rparr>),
         1 \<mapsto> LabelsCell [''k'' \<mapsto> ''v''],
         2 \<mapsto> TransArr [zero_hTransition\<lparr>htr_CandidateNodes := Slice 3 1 1\<rparr>, zero_hTransition],
         3 \<mapsto> NodesArr [zero_hCandidateNode\<lparr>hcn_Name := ''n1'', hcn_Score := Some 4\<rparr>],
         4 \<mapsto> IntCell 10,
         5 \<mapsto> TransCell (zero_hTransition\<lparr>htr_Outcome := SchedulingOutcomeScheduled, htr_ChosenNode := ''n1''\<rparr>),
         6 \<mapsto> ListCell (zero_hDecisionList\<lparr>hdl_Items := Slice 7 1 1\<rparr>),
         7 \<mapsto> DecsArr [zero_hDecision\<lparr>hsd_Status := zero_hStatus\<lparr>hst_Transitions := Slice 2 1 2\<rparr>\<rparr>]],
      gh_next = 8\<rparr>"

lemma sample_heap_wf: "wf_heap sample_heap"
  by (auto simp: wf_heap_def sample_heap_def split: if_splits)

theorem list_deepcopy_isolated_witness:
  "\<exists>q H'. SchedulingDecisionList_DeepCopyObject std_meta (Some 6) sample_heap = Some (Some q, H') \<and>
     abs_cell as_list val_list (gh_cells H') q = abs_cell as_list val_list (gh_cells sample_heap) 6 \<and>
     abs_cell as_list val_list (gh_cells H') q \<noteq> None"
proof -
  have "abs_cell as_list val_list (gh_cells sample_heap) 6 \<noteq> None" by code_simp
  then obtain v where v: "abs_cell as_list val_list (gh_cells sample_heap) 6 = Some v" by auto
  from list_deepcopy_isolated [OF std.meta_copies_axioms sample_heap_wf v] obtain q H'
    where "SchedulingDecisionList_DeepCopyObject std_meta (Some 6) sample_heap = Some (Some q, H')"
      and "abs_cell as_list val_list (gh_cells H') q = Some v" by blast
  with v show ?thesis by (intro exI [of _ q] exI [of _ H']) simp
qed

theorem cached_decision_protected_witness:
  "\<exists>q H1 H2 tm d. SchedulingDecision_DeepCopyObject std_meta (Some 0) sample_heap = Some (Some q, H1) \<and>
     applyTransition_heap (\<lambda>n. n) q 5 H1 = Some H2 \<and>
     abs_cell as_dec val_dec (gh_cells H2) 0 = Some (tm, d) \<and> length (history_of d) = 1 \<and>
     map_option (length \<circ> st_Transitions \<circ> sd_Status \<circ> snd) (abs_cell as_dec val_dec (gh_cells H2) q) = Some 2"
proof -
  have "map_option (length \<circ> st_Transitions \<circ> sd_Status \<circ> snd) (abs_cell as_dec val_dec (gh_cells sample_heap) 0) = Some 1"
    "abs_cell as_trans val_trans (gh_cells sample_heap) 5 \<noteq> None" by code_simp+
  then obtain tm d t where d: "abs_cell as_dec val_dec (gh_cells sample_heap) 0 = Some (tm, d)" "length (history_of d) = 1"
    and t: "abs_cell as_trans val_trans (gh_cells sample_heap) 5 = Some t" by auto
  from cached_decision_protected [OF std.meta_copies_axioms sample_heap_wf d(1) t, of "\<lambda>n. n"] d(2)
  show ?thesis by auto
qed

end
