(* ===== verification/Spec2Isabelle.thy ===== *)
theory Spec2Isabelle
  imports Retention Candidates Call_Sequence Refinement Live_Loop Startup Dashboard_Page Aliasing
begin

text \<open>
  \<^bold>\<open>sch-audit\<close> keeps an audit trail of Kubernetes scheduling decisions: one cluster-scoped
  SchedulingDecision object per Pod UID, whose spec identifies the Pod and is written once, and
  whose status is the history of observed outcomes with the latest one mirrored in front. Four
  binaries share it through the API server:

  \<^item> the \<^emph>\<open>controller\<close> (\<open>controllers/\<close>, started by \<open>cmd/manager\<close>) watches Pods and Events,
    derives the latest transition of a Pod and files it;
  \<^item> the \<^emph>\<open>extender\<close> (\<open>cmd/extender\<close>) sits in the scheduler's Filter phase, passes every node
    through and reports the candidates as an Event that the controller picks up;
  \<^item> the \<^emph>\<open>sweep\<close> (\<open>cmd/sweep\<close>) deletes the decisions whose expiry label has been reached;
  \<^item> the \<^emph>\<open>dashboard\<close> (\<open>cmd/dashboard\<close>) serves the list of decisions and a page that shows it.

  \<^bold>\<open>Layout.\<close> \<open>Sch_Prelude\<close> has the shared lemmas and two interface locales: \<open>latest_scan\<close> (a
  loop that keeps the latest selected element) and \<open>wire_codec\<close> (a value one binary writes
  and another reads as a string). \<open>Go_Strings\<close>, \<open>Go_Time\<close> and \<open>Rfc3339\<close> model what the program
  uses of the Go library: split, join, trim, decimal formatting and parsing with 64-bit range
  checks, times with wrapping, saturating and truncating arithmetic written out, and the text form
  of a time, whose round trip cuts it to whole seconds.

  \<^item> \<open>Api_Types\<close>: \<open>api/v1alpha1\<close>, the structs as records. \<open>Kube_Api\<close>: the fields the program
    reads of Kubernetes objects, and the record \<open>env\<close> of the calls that leave the repository
    (API client, clock, \<open>retry.OnError\<close>), a parameter of every operation that makes them.
  \<^item> \<open>Decision\<close>: every function of \<open>controllers/decision.go\<close> under its own name. Shown: the
    Event selection loop finds the first latest Event; \<open>deriveTransition\<close> implements a decision
    table; which Pod and which fields a transition gets; latencies are exact and bounded;
    a status is the replay of its history. \<open>timestamp_settled\<close> says when the result does not
    depend on the clock.
  \<^item> \<open>Watch\<close>: the index, predicate and mapping of \<open>SetupWithManager\<close>; they agree, and the filter
    of \<open>listRelevantEvents\<close> loses nothing.
  \<^item> \<open>Volume_Context\<close>: \<open>controllers/volumecontext.go\<close>.
  \<^item> \<open>Decision_Store\<close>: what the controller relies on about the API server, as locales over a store
    of live objects and all accepted versions. \<open>shared_env\<close> allows stale reads, failing calls
    (a write that is reported as failed may have taken effect) and other actors between any two
    calls, as long as they respect \<open>rely\<close>; its parameter \<open>del\<close> says whether they may delete.
    \<open>quiet_env\<close> is the opposite extreme, a server with current reads, no other actor and an answer to
    every call on decisions: Get, a Create of a missing and an UpdateStatus of the live version
    succeed. Only the results on repeated reconciles use it. \<open>retry_env\<close> is \<open>retry.OnError\<close>. The store invariant gives every version a lineage of single appends.
  \<^item> \<open>Reconciler\<close>: \<open>controllers/schedulingdecision_controller.go\<close> with every error branch, proved to
    respect \<open>rely\<close> itself, so that replicas of it can run together. \<open>Reconciler_Quiet\<close>: what
    reconciles do on the server that answers every call (\<open>reconcile_spec\<close>), alone and repeated.
    \<open>Refinement\<close>: the abstract specification \<open>reconcile_allows\<close> of a whole reconcile, errors included,
    and its refinement on a server that nobody else writes to but whose calls may fail at any time,
    also after they took effect (\<open>sole_env\<close>). \<open>Call_Sequence\<close>: the order and number of the API calls
    of a reconcile, whatever they answer.
  \<^item> \<open>Extender\<close>, \<open>Sweep\<close>, \<open>Dashboard\<close>: the handlers of the other binaries; \<open>sweep_api\<close> is the
    contract of the sweep's direct client (a current list; a failed delete may have taken effect),
    \<open>cached_client\<close> that of the dashboard's, whose reads come from an informer cache. The sweep loop is
    equal to the reference \<open>delete_all\<close>. \<open>Manager\<close>: the options \<open>cmd/manager\<close> derives from its flags
    and its set-up steps, with the registration of the controller. \<open>Startup\<close>: the registration
    of the API group in the scheme, and the \<open>main\<close> functions of the four binaries with the client
    configuration, the panics and the exit codes.
  \<^item> \<open>Mem_Api\<close>: an API server in memory that is proved to satisfy all of these contracts.
    \<open>Busy_Api\<close>: the same server behind a stale cache and shared with another replica.
    \<open>Interleaving\<close>: the same server with whole sweeps and reconciles of other replicas scripted
    before each single API call; the locale \<open>actors\<close> proves \<open>shared_env\<close> with deletions for it.
    \<open>Audit_Trail\<close>: the controller's properties with the contracts as hypotheses, each run on one of
    these servers. \<open>Cluster\<close>: the binaries together as a step relation on the server in memory, each run of a
    binary one step (the interleavings are in the theories that follow), and that the decisions stay
    unique. \<open>Sweep_Shared\<close>: a sweep with the controller writing between its calls (\<open>sweep_shared\<close>).
    \<open>Retention\<close>: no decision is gone before its expiry, for every server with these contracts, as long
    as sweeps do not overlap and nobody else deletes. \<open>Candidates\<close>: what the extender's Event needs of
    the API server (\<open>event_writer\<close>) and of the controller's cache (\<open>event_reader\<close>).
    \<open>Faulty_Api\<close>: a server that refuses calls or loses their answers, by a script; \<open>unreliable\<close>
    proves \<open>shared_env\<close> for it, \<open>lone_env\<close> is the contract of such a server with one writer.
    \<open>Work_Queue\<close>: the requests of the controller, their evidence and the queue the watches fill;
    what one reconcile makes of its evidence (\<open>observed_env\<close>), and serving requests in a cluster that
    stands still.
    \<open>Watched_Env\<close>: \<open>call_rel\<close> carries any relation that all calls respect through a reconcile, and
    \<open>watched_env\<close> is what the loop needs of its environment.
    \<open>Live_Loop\<close>: the controller as it runs, a step relation of cluster changes and served requests.
    Before each single call of a reconcile Pods and Events change, decisions are deleted (by a sweep,
    \<open>sweep_is_deletions\<close>) and the call may fail, and decisions may be read from an outdated cache.
    Shown: no change is missed, and the queue drains once the server answers. \<open>live_record\<close> proves
    the invariant of the loop for what counts as recorded: the end of the live decision with current
    reads (\<open>newest\<close>), the end of an accepted version without (\<open>accepted\<close>).
    This theory: the way of the candidate list from the scheduler to the trail.
  \<^item> \<open>Wire_Json\<close>, \<open>Schema\<close>: the JSON form that the field tags of the API types prescribe, with
    decoders, and the schema their markers generate. Shown: the round trip is \<open>persist_status\<close>,
    the effect of a write in the store models, and everything the controller writes conforms.
    The locale \<open>json_lib\<close> has the laws of the \<open>metav1\<close> encodings, interpreted with RFC 3339.
  \<^item> \<open>Html\<close>, \<open>Js_Numbers\<close>, \<open>Page_Data\<close>, \<open>Page_Figures\<close>, \<open>Page_Table\<close>, \<open>Dashboard_Page\<close>: the script of
    \<open>cmd/dashboard/static/index.html\<close>, function by function. \<open>Html\<close> has the escaping and the part
    of the browser's tokenizer the page needs; \<open>renders\<close> carries the proofs that the strings the
    page builds read as the intended elements. \<open>Js_Numbers\<close> has doubles as rounded rationals, with
    what the page needs of the rounding as the locale \<open>double_rounding\<close>. Shown: data cannot become
    markup, the figures are the numbers they claim to be and stay in their bounds, the table is
    sorted by time (the text order of RFC 3339 is the order of times), the panels agree in every
    state of the page, and behind the server of \<open>cmd/dashboard/main.go\<close> they show the record as its cache has it.
    The browser's \<open>toLowerCase\<close> and \<open>localeCompare\<close> are parameters with the locales \<open>lower_case\<close>
    and \<open>collation\<close>.
  \<^item> \<open>Go_Heap\<close>, \<open>Deep_Copy\<close>, \<open>Aliasing\<close>: a memory model with pointers, slices with spare capacity
    and maps, and on it every method of \<open>zz_generated.deepcopy.go\<close>. The locale \<open>deep_copier\<close> is the
    contract of a copy (equal value, new memory only) that the methods inherit from their parts.
    Shown: copies are isolated, and \<open>applyTransition\<close> by pointer on the copy of a cached decision
    leaves the cached one alone, which is why the other theories may treat objects as values.

  \<^bold>\<open>State and errors.\<close> An operation that calls the API takes the environment and the world and
  returns its result with the next world. A fallible call returns \<open>Inl\<close> of an error or \<open>Inr\<close>
  of its value, one without value an optional error; wrapped errors keep the text of the
  source. Loops over lists are structural recursions. The retry loop runs \<open>steps\<close> attempts; the
  concrete server uses the 4 steps of \<open>retry.DefaultBackoff\<close>, the theorems hold for every
  positive number, and \<open>Reconcile_calls\<close> bounds the calls of a whole reconcile by it. On the heap,
  \<open>None\<close> is an access to memory of the wrong kind, which the theorems exclude.

  \<^bold>\<open>Deviations the development found\<close>, each with its theorem: timestamps with a sub-second part
  defeat the deduplication (\<open>Reconcile_duplicates\<close>); Events are matched by name, so a Preempted
  Event is attributed to a later Pod of the same name (\<open>deriveTransition_uid_blind\<close>); candidate
  lists that arrive late are dropped (\<open>late_candidates_dropped\<close>); a missing claim makes a later
  one count (\<open>resolveVolumeContext_first_existing\<close>); far-future expiry labels wrap around
  (\<open>isExpired_far_future_wraps\<close>); a decision read from an outdated cache can hide that the live one
  ends with another transition (\<open>stale_read_hides_change\<close>); the sweep deletes by name
  alone, so of two overlapping sweeps one can delete a decision that was created after the other
  had deleted the expired one (\<open>overlapping_sweeps_hit_fresh\<close>); a scheduler or node with the name of a member of
  \<open>Object.prototype\<close> breaks the figures of the page (\<open>heatmap_inherited_name\<close>).

  \<^bold>\<open>Not modelled\<close>: command line parsing (the parsed flags are arguments) and logging, which are
  library calls; the JSON form of \<open>metav1\<close> metadata, of the scheduler's messages and of HTTP
  bodies (decoders are parameters, encoded values are kept as they are); of the page, its style
  sheet, its static markup and the time of the last update; the tests and their helpers.

  \<^bold>\<open>Bounds of the results.\<close> One reconcile runs at a time in the loops (the controller sets no
  \<open>MaxConcurrentReconciles\<close> and runs under leader election or alone); several replicas are the
  subject of \<open>Audit_Trail\<close> and \<open>Interleaving\<close>. The properties of \<open>Cluster\<close> and \<open>Live_Loop\<close> are about
  the servers built on \<open>Mem_Api\<close>; the others have their contracts as hypotheses. The Pods and Events of the loops are those of the informer
  cache, whose changes are what the watches report; how far the cache is behind the server is not
  part of them. The queue and the rate of its retries are controller-runtime's: that a request is
  served in the end is a hypothesis of \<open>live_queue_drains\<close> (the list of requests served), not a result.
\<close>

section \<open>From the scheduler to the audit trail\<close>

text \<open>
  C15: the candidate list survives the way through the API server. Suppose the extender answers a Filter
  call for a Pod with valid node names and the server accepts its Event (a failed create is logged and
  leaves no Event), at a time that, as stored, is a second later than that of every earlier
  CandidateNodes Event of this Pod (two Filter calls for a Pod within one second are not told apart).
  Then as soon as the controller's cache holds the same CandidateNodes Events of the Pod as the server
  did after that, a list of its Events that succeeds gives exactly the names the scheduler sent, in
  their order, whatever other Events there are and in whichever order they are listed.
\<close>

theorem candidates_round_trip:
  assumes "event_writer E events ptime" and "event_reader E' cache"
    and "decode body = Inr args" and "ea_Pod args = Some pod" and "valid_names (candidateNodeNames args)"
    and "fst (CreateEvent E (candidateEvent (Now E w) pod (candidateNodeNames args)) w) = None"
    and "w' = snd (filterHandler E decode body w)"
    and "\<not> time_is_zero (ptime (Now E w))"
    and "\<And>e. e \<in> set (events w) \<Longrightarrow> candidates_of pod e \<Longrightarrow> eventTimestamp e < ptime (Now E w)"
    and "listRelevantEvents E' \<lparr>nn_Namespace = pod_Namespace pod, nn_Name = pod_Name pod\<rparr> v = (Inr evs, v')"
    and "\<And>e. candidates_of pod e \<Longrightarrow> e \<in> set (cache v') \<longleftrightarrow> e \<in> set (events w')"
  shows "map cn_Name (candidateNodesFrom evs) = candidateNodeNames args"
proof -
  let ?names = "candidateNodeNames args"
  have "?names \<noteq> []" using assms(5) by (simp add: valid_names_def)
  with assms(3,4,7) have "w' = snd (CreateEvent E (candidateEvent (Now E w) pod ?names) w)"
    by (simp add: filterHandler_world)
  with assms(6) have "CreateEvent E (candidateEvent (Now E w) pod ?names) w = (None, w')" by (metis prod.collapse)
  from event_writer.event_created [OF assms(1) this] obtain u c where stored: "set (events w') =
      insert ((persist_event ptime (candidateEvent (Now E w) pod ?names))\<lparr>ev_UID := u, ev_CreationTimestamp := c\<rparr>) (set (events w))"
    (is "_ = insert ?e _") by (elim exE)
  define e where e: "e = ?e"
  with stored have stored: "set (events w') = insert e (set (events w))" by simp
  note e_facts = stored_candidate_event [OF e assms(8)]
  note listed = event_reader.listed_candidates [OF assms(2,10)]
  show ?thesis
  proof (rule candidateNodesFrom_newest [OF assms(5)])
    show "e \<in> set evs" and "ev_Reason e = eventReasonCandidateNodes"
      using listed [of e] assms(11) [OF e_facts(1)] e_facts(1) stored by auto
    show "ev_Message e = str_join '','' ?names" by (rule e_facts(2))
    show "x = e \<or> eventTimestamp x < eventTimestamp e" if "x \<in> set evs" "ev_Reason x = eventReasonCandidateNodes" for x
      using listed [of x] that assms(9,11) stored e_facts(3) by auto
  qed
qed

definition sample_args :: ExtenderArgs where
  "sample_args = \<lparr>ea_Pod = Some sample_pod, ea_Nodes = None, ea_NodeNames = Some [''n1'', ''n2'']\<rparr>"

theorem candidates_round_trip_witness:
  "\<exists>events. fst (listRelevantEvents sample_env sample_req
      (snd (filterHandler sample_env (\<lambda>_. Inr sample_args) ''{}''
        (sample_world [sample_event ''CandidateNodes'' 63900000001 ''n9''])))) = Inr events \<and>
    map cn_Name (candidateNodesFrom events) = [''n1'', ''n2'']"
proof -
  let ?w = "sample_world [sample_event ''CandidateNodes'' 63900000001 ''n9'']"
  let ?w' = "snd (filterHandler sample_env (\<lambda>_. Inr sample_args) ''{}'' ?w)"
  have names: "valid_names (candidateNodeNames sample_args)" "candidateNodeNames sample_args = [''n1'', ''n2'']"
    by (simp_all add: sample_args_def candidateNodeNames_def valid_names_def graphic_def)
  obtain evs where evs: "listRelevantEvents sample_env \<lparr>nn_Namespace = pod_Namespace sample_pod, nn_Name = pod_Name sample_pod\<rparr> ?w' = (Inr evs, ?w')"
    by (simp add: listRelevantEvents_def mem_env_def)
  have "map cn_Name (candidateNodesFrom evs) = candidateNodeNames sample_args"
  proof (rule candidates_round_trip [OF mem_writer.event_writer_axioms mem_reader.event_reader_axioms, where w = ?w and w' = ?w'
        and v = ?w' and v' = ?w' and pod = sample_pod and body = "''{}''" and decode = "\<lambda>_. Inr sample_args"])
    show "eventTimestamp e < whole_seconds (Now sample_env ?w)" if "e \<in> set (m_events ?w)" for e
      using that by (simp add: mem_env_def sample_defs eventTimestamp_def whole_seconds_def time_is_zero_def gotime_order)
  qed (use names evs in \<open>simp_all add: sample_args_def mem_env_def sample_defs whole_seconds_def time_is_zero_def\<close>)
  with evs names show ?thesis by (auto simp: sample_defs)
qed

end
